(* ===== verification/Tend_Prelude.thy ===== *)
theory Tend_Prelude
  imports Main "HOL-Library.Sublist"
begin

text \<open>
  Shared vocabulary of the development.

  Go's \<^verbatim>\<open>int\<close>, \<^verbatim>\<open>int64\<close> and \<^verbatim>\<open>time.Duration\<close> are 64-bit two's complement
  integers. They are modelled as \<^typ>\<open>int\<close>, with the wrap-around written out by
  \<open>wrap64\<close> at every operation of the source that can leave the range. A
  \<^verbatim>\<open>time.Time\<close> is the number of nanoseconds since Go's zero time (January 1 of
  year 1, UTC), so the zero time, for which \<^verbatim>\<open>IsZero\<close> holds, is 0. A nullable
  database column is an \<open>option\<close>. A Go string is a sequence of bytes, so it is a
  \<^typ>\<open>string\<close> whose characters are the bytes.
\<close>

named_theorems tend_defs \<open>definitions of small helpers that component proofs unfold\<close>

section \<open>64-bit integers, durations and instants\<close>

type_synonym duration = int
type_synonym gotime = int

definition max_int64 :: int where
  "max_int64 = 9223372036854775807"

definition min_int64 :: int where
  "min_int64 = -9223372036854775808"

definition wrap64 :: "int \<Rightarrow> int" where
  "wrap64 x = (x + 9223372036854775808) mod 18446744073709551616 - 9223372036854775808"

definition in64 :: "int \<Rightarrow> bool" where
  "in64 x \<longleftrightarrow> min_int64 \<le> x \<and> x \<le> max_int64"

text \<open>Go's integer division truncates towards zero.\<close>

definition quot :: "int \<Rightarrow> int \<Rightarrow> int" where
  "quot a b = sgn a * sgn b * (\<bar>a\<bar> div \<bar>b\<bar>)"

text \<open>\<^verbatim>\<open>time.Time.Sub\<close> saturates at the ends of the \<^verbatim>\<open>Duration\<close> range.\<close>

definition time_sub :: "gotime \<Rightarrow> gotime \<Rightarrow> duration" where
  "time_sub t u = max min_int64 (min max_int64 (t - u))"

abbreviation (input) nanosecond :: duration where "nanosecond \<equiv> 1"
abbreviation (input) millisecond :: duration where "millisecond \<equiv> 1000000"
abbreviation (input) second :: duration where "second \<equiv> 1000000000"
abbreviation (input) minute :: duration where "minute \<equiv> 60000000000"
abbreviation (input) hour :: duration where "hour \<equiv> 3600000000000"

text \<open>\<^verbatim>\<open>time.Duration(n) * time.Second\<close>, which wraps around.\<close>

definition dur_seconds :: "int \<Rightarrow> duration" where
  "dur_seconds n = wrap64 (n * second)"

lemma wrap64_id [simp]: "in64 x \<Longrightarrow> wrap64 x = x"
  by (simp add: in64_def min_int64_def max_int64_def wrap64_def)

lemma wrap64_range [simp]: "in64 (wrap64 x)"
proof -
  have "0 \<le> (x + 9223372036854775808) mod 18446744073709551616"
    and "(x + 9223372036854775808) mod 18446744073709551616 < 18446744073709551616"
    by simp_all
  then show ?thesis
    by (simp add: in64_def min_int64_def max_int64_def wrap64_def)
qed

lemma wrap64_idem [simp]: "wrap64 (wrap64 x) = wrap64 x"
  by simp

lemma quot_nonneg: "0 \<le> a \<Longrightarrow> 0 < b \<Longrightarrow> quot a b = a div b"
  by (cases "a = 0") (simp_all add: quot_def)

lemma dur_seconds_id: "\<bar>n\<bar> \<le> 9223372036 \<Longrightarrow> dur_seconds n = n * second"
  unfolding dur_seconds_def by (rule wrap64_id) (unfold in64_def min_int64_def max_int64_def, linarith)

section \<open>Decimal text\<close>

text \<open>\<^verbatim>\<open>strconv.Itoa\<close> and the \<^verbatim>\<open>%d\<close> of \<^verbatim>\<open>fmt.Sprintf\<close>.\<close>

definition digit :: "nat \<Rightarrow> char" where
  "digit n = char_of (48 + n)"

fun dec_nat :: "nat \<Rightarrow> string" where
  "dec_nat n = (if n < 10 then [digit n] else dec_nat (n div 10) @ [digit (n mod 10)])"

definition dec :: "int \<Rightarrow> string" where
  "dec n = (if n < 0 then CHR ''-'' # dec_nat (nat (- n)) else dec_nat (nat n))"

declare dec_nat.simps [simp del]

text \<open>
  \<^verbatim>\<open>time.Duration.String\<close>: hours, minutes and seconds with a fraction, or a smaller unit
  below one second.
\<close>

definition pad_dec :: "nat \<Rightarrow> nat \<Rightarrow> string" where
  "pad_dec w n = (let s = dec_nat n in replicate (w - length s) (CHR ''0'') @ s)"

definition frac_text :: "nat \<Rightarrow> nat \<Rightarrow> string" where
  "frac_text w n =
     (let ds = rev (dropWhile (\<lambda>c. c = CHR ''0'') (rev (pad_dec w n)))
      in if ds = [] then [] else CHR ''.'' # ds)"

definition duration_string :: "duration \<Rightarrow> string" where
  "duration_string d =
     (let u = nat \<bar>d\<bar>;
          t = (if u = 0 then ''0s''
               else if u < 1000 then dec_nat u @ ''ns''
               else if u < 1000000 then dec_nat (u div 1000) @ frac_text 3 (u mod 1000) @ [CHR 0xC2, CHR 0xB5, CHR ''s'']
               else if u < 1000000000 then dec_nat (u div 1000000) @ frac_text 6 (u mod 1000000) @ ''ms''
               else let secs = u div 1000000000;
                        st = dec_nat (secs mod 60) @ frac_text 9 (u mod 1000000000) @ ''s'';
                        mins = secs div 60
                    in if mins = 0 then st
                       else let mt = dec_nat (mins mod 60) @ ''m'' @ st; hrs = mins div 60
                            in if hrs = 0 then mt else dec_nat hrs @ ''h'' @ mt)
      in if d < 0 then CHR ''-'' # t else t)"


section \<open>Instants as database columns\<close>

text \<open>
  \<^verbatim>\<open>nullTime\<close> and \<^verbatim>\<open>parseTime\<close> of \<^verbatim>\<open>internal/store/sqlite.go\<close>: a zero time is
  stored as NULL, and NULL is read back as the zero time. Timestamps are stored as
  fixed-width UTC text, whose order is the order of the instants, so a stored timestamp
  is modelled by the instant itself.
\<close>

definition nullTime :: "gotime \<Rightarrow> gotime option" where
  "nullTime t = (if t = 0 then None else Some t)"

definition parseTime :: "gotime option \<Rightarrow> gotime" where
  "parseTime c = (case c of None \<Rightarrow> 0 | Some t \<Rightarrow> t)"

lemma parseTime_nullTime [simp]: "parseTime (nullTime t) = t"
  by (simp add: parseTime_def nullTime_def)

lemma nullTime_inject [simp]: "nullTime t = nullTime u \<longleftrightarrow> t = u"
  by (auto simp: nullTime_def)

section \<open>Lists\<close>

text \<open>The first element satisfying a predicate and the elements of a list after an index.\<close>

lemma find_Some_iff_set: "List.find P xs = Some x \<Longrightarrow> x \<in> set xs \<and> P x"
  by (auto simp: find_Some_iff in_set_conv_nth)

lemma dropWhile_suffix: "suffix (dropWhile P xs) xs"
  by (metis suffix_def takeWhile_dropWhile_id)

lemma drop_suffix [simp]: "suffix (drop n xs) xs"
  by (rule suffix_drop)

lemma suffix_shorter:
  "suffix xs zs \<Longrightarrow> suffix ys zs \<Longrightarrow> length xs \<le> length ys \<Longrightarrow> suffix xs ys"
  by (rule suffix_length_suffix)

lemma suffix_same_length: "suffix xs zs \<Longrightarrow> suffix ys zs \<Longrightarrow> length xs = length ys \<Longrightarrow> xs = ys"
  by (metis append_eq_append_conv suffix_def)

lemma suffix_drop_length: "suffix xs ys \<Longrightarrow> drop (length ys - length xs) ys = xs"
  by (auto simp: suffix_def)

end
