(* ===== verification/Core_Tail.thy ===== *)
theory Core_Tail
  imports Tend_Prelude
begin

text \<open>
  UTF-8 as Go's \<^verbatim>\<open>unicode/utf8\<close> and \<^verbatim>\<open>strings\<close> packages read it, and the alert
  excerpts of \<^verbatim>\<open>internal/core/tail.go\<close>: \<open>TailLines\<close>, \<open>OutputTail\<close> and
  \<open>HeadLines\<close>. The main result is that cutting an excerpt again to fewer lines gives
  what cutting the whole output would have given, which is what lets an event keep the
  longest excerpt and every reader cut it to its own length.
\<close>

section \<open>UTF-8\<close>

abbreviation byte :: "char \<Rightarrow> nat" where "byte c \<equiv> of_char c"

text \<open>\<^verbatim>\<open>utf8.RuneStart\<close>: the byte is not a continuation byte 10xxxxxx.\<close>

definition rune_start :: "char \<Rightarrow> bool" where
  "rune_start c \<longleftrightarrow> \<not> (128 \<le> byte c \<and> byte c < 192)"

text \<open>
  The table of first bytes: the length of the sequence a first byte begins and the range
  its second byte must lie in. An invalid first byte has length 1 and an empty range.
\<close>

definition first_size :: "char \<Rightarrow> nat" where
  "first_size c =
     (let n = byte c in
      if n < 128 then 1
      else if n < 194 then 1
      else if n < 224 then 2
      else if n < 240 then 3
      else if n < 245 then 4
      else 1)"

definition invalid_first :: "char \<Rightarrow> bool" where
  "invalid_first c \<longleftrightarrow> (let n = byte c in 128 \<le> n \<and> n < 194 \<or> 245 \<le> n)"

definition accept_second :: "char \<Rightarrow> char \<Rightarrow> bool" where
  "accept_second c d =
     (let n = byte c; m = byte d;
          lo = (if n = 224 then 160 else if n = 240 then 144 else 128);
          hi = (if n = 237 then 159 else if n = 244 then 143 else 191)
      in lo \<le> m \<and> m \<le> hi)"

definition continuation :: "char \<Rightarrow> bool" where
  "continuation c \<longleftrightarrow> 128 \<le> byte c \<and> byte c \<le> 191"

text \<open>The size of the well-formed character at the head of a string, 0 when there is none.\<close>

fun rune_size :: "string \<Rightarrow> nat" where
  "rune_size [] = 0"
| "rune_size (c # s) =
     (if invalid_first c then 0
      else if first_size c = 1 then 1
      else if first_size c = 2 then
        (case s of d # _ \<Rightarrow> if accept_second c d then 2 else 0 | _ \<Rightarrow> 0)
      else if first_size c = 3 then
        (case s of d # e # _ \<Rightarrow> if accept_second c d \<and> continuation e then 3 else 0 | _ \<Rightarrow> 0)
      else
        (case s of d # e # f # _ \<Rightarrow>
           if accept_second c d \<and> continuation e \<and> continuation f then 4 else 0 | _ \<Rightarrow> 0))"

text \<open>\<^verbatim>\<open>utf8.ValidString\<close>.\<close>

function valid_utf8 :: "string \<Rightarrow> bool" where
  "valid_utf8 s =
     (if s = [] then True
      else if rune_size s = 0 then False
      else valid_utf8 (drop (rune_size s) s))"
  by pat_completeness auto
termination
  by (relation "measure length") auto

text \<open>
  \<^verbatim>\<open>utf8.FullRune\<close>: the bytes begin with a whole encoding; an invalid one counts as whole,
  since it reads as one error character.
\<close>

fun full_rune :: "string \<Rightarrow> bool" where
  "full_rune [] = False"
| "full_rune (c # s) =
     (first_size c \<le> Suc (length s)
      \<or> (case s of [] \<Rightarrow> False
         | d # s' \<Rightarrow> \<not> accept_second c d
                   \<or> (case s' of [] \<Rightarrow> False | e # _ \<Rightarrow> \<not> continuation e)))"

text \<open>
  \<^verbatim>\<open>strings.ToValidUTF8\<close>: each maximal run of bytes that do not decode becomes one
  replacement. The flag says that the byte before was already replaced.
\<close>

function to_valid_utf8_from :: "bool \<Rightarrow> string \<Rightarrow> string \<Rightarrow> string" where
  "to_valid_utf8_from bad r s =
     (if s = [] then []
      else if rune_size s = 0
      then (if bad then [] else r) @ to_valid_utf8_from True r (tl s)
      else take (rune_size s) s @ to_valid_utf8_from False r (drop (rune_size s) s))"
  by pat_completeness auto
termination
  by (relation "measure (\<lambda>(_, _, s). length s)") auto

definition to_valid_utf8 :: "string \<Rightarrow> string \<Rightarrow> string" where
  "to_valid_utf8 r s = to_valid_utf8_from False r s"

declare valid_utf8.simps [simp del] to_valid_utf8_from.simps [simp del]

section \<open>Excerpts\<close>

text \<open>\<^verbatim>\<open>strings.TrimRight\<close>, \<^verbatim>\<open>TrimLeft\<close> and \<^verbatim>\<open>Trim\<close> with an ASCII cutset.\<close>

definition trim_right :: "string \<Rightarrow> string \<Rightarrow> string" where
  "trim_right cs s = rev (dropWhile (\<lambda>c. c \<in> set cs) (rev s))"

definition trim_left :: "string \<Rightarrow> string \<Rightarrow> string" where
  "trim_left cs s = dropWhile (\<lambda>c. c \<in> set cs) s"

definition trim_both :: "string \<Rightarrow> string \<Rightarrow> string" where
  "trim_both cs s = trim_right cs (trim_left cs s)"

definition newline :: char where "newline = CHR 0x0A"

definition blanks :: string where "blanks = [CHR '' '', CHR 0x09, CHR 0x0D, CHR 0x0A]"

text \<open>\<^verbatim>\<open>strings.Split\<close> and \<^verbatim>\<open>strings.Join\<close> with a one-byte separator.\<close>

fun split_on :: "char \<Rightarrow> string \<Rightarrow> string list" where
  "split_on d [] = [[]]"
| "split_on d (c # s) =
     (if c = d then [] # split_on d s
      else (case split_on d s of l # ls \<Rightarrow> (c # l) # ls | [] \<Rightarrow> [[c]]))"

fun join_with :: "char \<Rightarrow> string list \<Rightarrow> string" where
  "join_with d [] = []"
| "join_with d [l] = l"
| "join_with d (l # ls) = l @ d # join_with d ls"

text \<open>\<^verbatim>\<open>strings.SplitN\<close> with a positive count: at most that many parts, the last unsplit.\<close>

fun split_n_on :: "char \<Rightarrow> nat \<Rightarrow> string \<Rightarrow> string list" where
  "split_n_on d n s =
     (let ls = split_on d s in
      if length ls \<le> n then ls
      else take (n - 1) ls @ [join_with d (drop (n - 1) ls)])"

definition OutputTailLines :: int where "OutputTailLines = 10"
definition MaxOutputTailLines :: int where "MaxOutputTailLines = 50"
definition OutputTailBytes :: nat where "OutputTailBytes = 1000"

text \<open>The loop that drops bytes until a character starts.\<close>

fun skip_to_rune :: "string \<Rightarrow> string" where
  "skip_to_rune [] = []"
| "skip_to_rune (c # s) = (if rune_start c then c # s else skip_to_rune s)"

definition TailLines :: "string \<Rightarrow> int \<Rightarrow> string" where
  "TailLines s0 n =
     (let s = trim_right blanks s0 in
      if s = [] \<or> n \<le> 0 then []
      else
        let parts = split_on newline s;
            parts' = (if int (length parts) > n then drop (length parts - nat n) parts else parts);
            tail = join_with newline parts'
        in if length tail > OutputTailBytes
           then skip_to_rune (drop (length tail - OutputTailBytes) tail)
           else tail)"

definition OutputTail :: "string \<Rightarrow> string" where
  "OutputTail s = TailLines s OutputTailLines"

text \<open>The loop that moves a cut back to the start of a character.\<close>

fun cut_back :: "string \<Rightarrow> nat \<Rightarrow> nat" where
  "cut_back s 0 = 0"
| "cut_back s (Suc k) = (if rune_start (s ! Suc k) then Suc k else cut_back s k)"

definition HeadLines :: "string \<Rightarrow> int \<Rightarrow> string" where
  "HeadLines s0 n =
     (let s = trim_both blanks s0 in
      if s = [] \<or> n \<le> 0 then []
      else
        let parts = split_n_on newline (nat n + 1) s;
            parts' = (if int (length parts) > n then take (nat n) parts else parts);
            head = join_with newline parts'
        in if length head > OutputTailBytes then take (cut_back head OutputTailBytes) head
           else head)"

section \<open>Splitting and joining\<close>

lemma split_on_nonempty [simp]: "split_on d s \<noteq> []"
  by (induction s) (auto split: list.splits)

lemma join_split [simp]: "join_with d (split_on d s) = s"
proof (induction s)
  case Nil
  show ?case by simp
next
  case (Cons c s)
  obtain l ls where ls: "split_on d s = l # ls"
    by (meson neq_Nil_conv split_on_nonempty)
  with Cons show ?case by (cases ls) auto
qed

lemma split_on_append_sep: "split_on d (a @ d # b) = split_on d a @ split_on d b"
proof (induction a)
  case Nil
  show ?case by simp
next
  case (Cons c a)
  obtain l ls where "split_on d a = l # ls"
    by (meson neq_Nil_conv split_on_nonempty)
  with Cons show ?case by simp
qed

lemma split_on_no_sep: "d \<notin> set a \<Longrightarrow> split_on d a = [a]"
  by (induction a) auto

lemma parts_no_sep: "l \<in> set (split_on d s) \<Longrightarrow> d \<notin> set l"
proof (induction s arbitrary: l)
  case Nil
  then show ?case by simp
next
  case (Cons c s)
  obtain k ks where "split_on d s = k # ks"
    by (meson neq_Nil_conv split_on_nonempty)
  with Cons show ?case by (auto split: if_splits)
qed

lemma split_join:
  "ls \<noteq> [] \<Longrightarrow> \<forall>l \<in> set ls. d \<notin> set l \<Longrightarrow> split_on d (join_with d ls) = ls"
proof (induction d ls rule: join_with.induct)
  case (3 d l k ks)
  then show ?case by (simp add: split_on_append_sep split_on_no_sep)
qed (simp_all add: split_on_no_sep)

lemma join_append:
  "xs \<noteq> [] \<Longrightarrow> ys \<noteq> [] \<Longrightarrow> join_with d (xs @ ys) = join_with d xs @ d # join_with d ys"
proof (induction d xs rule: join_with.induct)
  case (2 d l)
  then show ?case by (cases ys) simp_all
qed simp_all

section \<open>The last lines of a text\<close>

text \<open>The last \<open>n\<close> lines of a text, the step of \<^const>\<open>TailLines\<close> before the byte limit.\<close>

definition last_lines :: "nat \<Rightarrow> string \<Rightarrow> string" where
  "last_lines n s = join_with newline (drop (length (split_on newline s) - n) (split_on newline s))"

definition cut_tail :: "string \<Rightarrow> string" where
  "cut_tail t =
     (if length t > OutputTailBytes then skip_to_rune (drop (length t - OutputTailBytes) t) else t)"

lemma TailLines_eq:
  "TailLines s n =
     (if trim_right blanks s = [] \<or> n \<le> 0 then []
      else cut_tail (last_lines (nat n) (trim_right blanks s)))"
  by (simp add: TailLines_def Let_def last_lines_def cut_tail_def)

lemma length_split: "length (split_on d s) = Suc (count_list s d)"
proof (induction s)
  case Nil
  show ?case by simp
next
  case (Cons c s)
  obtain k ks where "split_on d s = k # ks"
    by (meson neq_Nil_conv split_on_nonempty)
  with Cons show ?case by auto
qed

lemma split_last_lines:
  "0 < n \<Longrightarrow>
   split_on newline (last_lines n s) = drop (length (split_on newline s) - n) (split_on newline s)"
  unfolding last_lines_def
  by (intro split_join) (auto simp: length_split dest!: in_set_dropD parts_no_sep)

lemma last_lines_split:
  assumes "0 < n"
  obtains "last_lines n s = s" "length (split_on newline s) \<le> n"
  | x where "s = x @ newline # last_lines n s" "length (split_on newline (last_lines n s)) = n"
proof (cases "length (split_on newline s) \<le> n")
  case True
  then show thesis by (intro that(1)) (simp_all add: last_lines_def)
next
  case False
  let ?ls = "split_on newline s"
  let ?k = "length ?ls - n"
  have ne: "take ?k ?ls \<noteq> []" "drop ?k ?ls \<noteq> []"
    using False assms by auto
  have "s = join_with newline (take ?k ?ls @ drop ?k ?ls)" by simp
  also have "\<dots> = join_with newline (take ?k ?ls) @ newline # last_lines n s"
    unfolding last_lines_def by (rule join_append [OF ne])
  finally have "s = join_with newline (take ?k ?ls) @ newline # last_lines n s" .
  moreover have "length (split_on newline (last_lines n s)) = n"
    using False assms by (simp add: split_last_lines)
  ultimately show thesis by (rule that(2))
qed

lemma last_lines_append:
  assumes "length (split_on newline b) = n" "0 < n"
  shows "last_lines n (a @ newline # b) = b"
  using assms by (simp add: last_lines_def split_on_append_sep)

lemma last_lines_few: "length (split_on newline s) \<le> n \<Longrightarrow> last_lines n s = s"
  by (simp add: last_lines_def)

lemma length_split_suffix:
  "suffix t s \<Longrightarrow> length (split_on d t) \<le> length (split_on d s)"
  by (auto simp: suffix_def length_split)

lemma last_lines_suffix: "0 < n \<Longrightarrow> suffix (last_lines n s) s"
  by (rule last_lines_split [of n s]) (auto simp: suffix_def intro: exI [of _ "_ @ [newline]"])

lemma length_last_lines: "0 < n \<Longrightarrow> length (split_on newline (last_lines n s)) \<le> n"
  by (simp add: split_last_lines)

lemma last_lines_mono:
  assumes "0 < m" "m \<le> n"
  shows "last_lines m (last_lines n s) = last_lines m s"
proof -
  let ?l = "length (split_on newline s)"
  have "0 < n" using assms by simp
  have "?l - (?l - n + m) + (?l - n) = ?l - m"
    using assms by arith
  with \<open>0 < n\<close> show ?thesis
    by (simp add: last_lines_def [of m] split_last_lines)
qed

section \<open>The byte limit\<close>

lemma skip_to_rune_suffix: "suffix (skip_to_rune s) s"
  by (induction s) (auto simp: suffix_Cons)

lemma skip_to_rune_id: "s = [] \<or> rune_start (hd s) \<Longrightarrow> skip_to_rune s = s"
  by (cases s) auto

lemma skip_to_rune_append:
  "rune_start c \<Longrightarrow> \<exists>x'. skip_to_rune (x @ c # y) = x' @ c # y"
  by (induction x) auto

lemma rune_start_newline [simp]: "rune_start newline"
  by (simp add: rune_start_def newline_def)

lemma cut_tail_suffix: "suffix (cut_tail t) t"
  by (auto simp: cut_tail_def intro: suffix_order.trans [OF skip_to_rune_suffix])

lemma cut_tail_length: "length (cut_tail t) \<le> OutputTailBytes"
proof (cases "length t > OutputTailBytes")
  case True
  have "length (skip_to_rune (drop (length t - OutputTailBytes) t))
      \<le> length (drop (length t - OutputTailBytes) t)"
    by (rule suffix_length_le [OF skip_to_rune_suffix])
  with True show ?thesis by (simp add: cut_tail_def)
qed (simp add: cut_tail_def)

lemma cut_tail_id: "length t \<le> OutputTailBytes \<Longrightarrow> cut_tail t = t"
  by (simp add: cut_tail_def)

text \<open>Two texts that end alike over the byte limit are cut alike.\<close>

lemma cut_tail_common:
  assumes "suffix p q" "length p > OutputTailBytes"
  shows "cut_tail q = cut_tail p"
proof -
  from assms(1) obtain x where q: "q = x @ p" by (auto simp: suffix_def)
  then have "drop (length q - OutputTailBytes) q = drop (length p - OutputTailBytes) p"
    using assms(2) by simp
  with q assms(2) show ?thesis by (simp add: cut_tail_def)
qed

lemma trim_right_last: "trim_right cs s \<noteq> [] \<Longrightarrow> last (trim_right cs s) \<notin> set cs"
  using hd_dropWhile [of "\<lambda>c. c \<in> set cs" "rev s"] by (simp add: trim_right_def last_rev)

lemma trim_right_id: "s = [] \<or> last s \<notin> set cs \<Longrightarrow> trim_right cs s = s"
  unfolding trim_right_def
  by (cases s rule: rev_cases) auto

lemma trim_right_suffix:
  assumes "suffix t (trim_right cs s)"
  shows "trim_right cs t = t"
proof (cases "t = []")
  case False
  with assms have "trim_right cs s \<noteq> []" and "last t = last (trim_right cs s)"
    by (auto simp: suffix_def)
  then show ?thesis by (metis trim_right_id trim_right_last)
qed (simp add: trim_right_def)

section \<open>Characters in well-formed text\<close>

lemma rune_size_le: "rune_size s \<le> length s"
  by (cases s) (auto split: list.splits)

lemma rune_size_start: "0 < rune_size (c # s) \<Longrightarrow> rune_start c"
  by (auto simp: rune_start_def invalid_first_def Let_def split: if_splits)

lemma rune_size_one: "rune_size (c # s) \<noteq> 1 \<Longrightarrow> 128 \<le> byte c"
  by (auto simp: invalid_first_def first_size_def Let_def split: if_splits)

text \<open>A byte below 128 is a character of its own.\<close>

lemma accept_second_high: "accept_second c d \<Longrightarrow> 128 \<le> byte d"
  by (auto simp: accept_second_def Let_def split: if_splits)

lemma rune_bytes_high:
  "rune_size (c # t) \<noteq> 1 \<Longrightarrow> b \<in> set (take (rune_size (c # t)) (c # t)) \<Longrightarrow> 128 \<le> byte b"
  using rune_size_one [of c t]
  by (auto simp: take_Cons' continuation_def dest: accept_second_high
           split: if_splits list.splits)

lemma ascii_alone:
  assumes "i < rune_size s" "byte (s ! i) < 128"
  shows "rune_size s = 1 \<and> i = 0"
proof -
  from assms(1) obtain c t where s: "s = c # t" by (cases s) auto
  have "i < length s" using assms(1) rune_size_le [of s] by simp
  with assms(1) have "s ! i \<in> set (take (rune_size s) s)"
    by (auto simp: in_set_conv_nth)
  with s assms(2) rune_bytes_high [of c t] have "rune_size s = 1"
    by (metis not_le)
  with assms(1) show ?thesis by simp
qed

lemma valid_utf8_Nil [simp]: "valid_utf8 []"
  by (simp add: valid_utf8.simps)

lemma valid_utf8_start: "valid_utf8 s \<Longrightarrow> s = [] \<or> rune_start (hd s)"
proof (cases s)
  case (Cons c t)
  moreover assume "valid_utf8 s"
  ultimately have "0 < rune_size (c # t)"
    by (subst (asm) valid_utf8.simps) (simp del: rune_size.simps split: if_splits)
  then have "rune_start c" by (rule rune_size_start)
  with Cons show ?thesis by simp
qed simp

lemma valid_utf8_after_ascii:
  "valid_utf8 s \<Longrightarrow> s = a @ c # b \<Longrightarrow> byte c < 128 \<Longrightarrow> valid_utf8 b"
proof (induction s arbitrary: a rule: valid_utf8.induct)
  case (1 s)
  let ?k = "rune_size s"
  from "1.prems" have ne: "s \<noteq> []" and k: "0 < ?k" and rest: "valid_utf8 (drop ?k s)"
    by (simp, (subst (asm) valid_utf8.simps, simp split: if_splits)+)
  show ?case
  proof (cases "length a < ?k")
    case True
    have "byte (s ! length a) < 128" using "1.prems" by simp
    with ascii_alone [OF True] have "?k = 1" "a = []" by auto
    with rest "1.prems"(2) show ?thesis by simp
  next
    case False
    then have "drop ?k s = drop ?k a @ c # b" using "1.prems"(2) by simp
    with "1.IH" ne k rest "1.prems"(3) show ?thesis by auto
  qed
qed

text \<open>
  In well-formed text a byte that can start a character does start one, and what starts
  there is whole.
\<close>

lemma accept_second_continuation: "accept_second c d \<Longrightarrow> \<not> rune_start d"
  by (auto simp: accept_second_def rune_start_def Let_def split: if_splits)

lemma continuation_not_start: "continuation c \<Longrightarrow> \<not> rune_start c"
  by (auto simp: continuation_def rune_start_def)

lemma rune_inner:
  assumes "0 < i" "i < rune_size s"
  shows "\<not> rune_start (s ! i)"
proof -
  have "i = 1 \<or> i = 2 \<or> i = 3"
    using assms by (cases s) (auto split: if_splits list.splits)
  with assms show ?thesis
    by (cases s) (auto split: if_splits list.splits
        dest: accept_second_continuation continuation_not_start simp: numeral_2_eq_2 numeral_3_eq_3)
qed

lemma valid_utf8_drop:
  "valid_utf8 v \<Longrightarrow> j < length v \<Longrightarrow> rune_start (v ! j) \<Longrightarrow> valid_utf8 (drop j v)"
proof (induction v arbitrary: j rule: valid_utf8.induct)
  case (1 v)
  let ?k = "rune_size v"
  from "1.prems" have ne: "v \<noteq> []" and k: "0 < ?k" and rest: "valid_utf8 (drop ?k v)"
    by (auto, (subst (asm) valid_utf8.simps, simp split: if_splits)+)
  show ?case
  proof (cases "j < ?k")
    case True
    then have "j = 0" using rune_inner [of j v] "1.prems"(3) by auto
    with "1.prems" show ?thesis by simp
  next
    case False
    with "1.prems" ne k rest have "valid_utf8 (drop (j - ?k) (drop ?k v))"
      by (intro "1.IH") auto
    with False show ?thesis by simp
  qed
qed

lemma first_size_le: "first_size c \<le> 4"
  by (simp add: first_size_def Let_def)

lemma rune_size_full: "0 < rune_size s \<Longrightarrow> full_rune s"
  by (cases s) (auto intro: order_trans [OF first_size_le] split: if_splits list.splits)

lemma full_rune_append: "full_rune s \<Longrightarrow> full_rune (s @ t)"
  by (cases s) (auto split: list.splits)

lemma valid_utf8_full: "valid_utf8 s \<Longrightarrow> s \<noteq> [] \<Longrightarrow> full_rune s"
  by (subst (asm) valid_utf8.simps) (auto intro: rune_size_full split: if_splits)

text \<open>Every line of a well-formed text starts with a whole character.\<close>

lemma last_lines_start:
  assumes "valid_utf8 s" "prefix t s" "0 < n"
  shows "last_lines n t = [] \<or> rune_start (hd (last_lines n t))"
proof (rule last_lines_split [OF assms(3), of t])
  assume "last_lines n t = t"
  with valid_utf8_start [OF assms(1)] assms(2) show ?thesis
    by (cases t) (auto simp: prefix_def)
next
  fix x assume t: "t = x @ newline # last_lines n t"
  from assms(2) obtain y where "s = t @ y" by (auto simp: prefix_def)
  then have "s = x @ newline # (last_lines n t @ y)"
    by (metis t append.assoc append_Cons)
  then have "valid_utf8 (last_lines n t @ y)"
    by (rule valid_utf8_after_ascii [OF assms(1)]) (simp add: newline_def)
  then show ?thesis
    using valid_utf8_start by (cases "last_lines n t") fastforce+
qed

lemma trim_right_prefix: "prefix (trim_right cs s) s"
  unfolding trim_right_def
  by (metis dropWhile_suffix rev_rev_ident suffix_to_prefix)

section \<open>Cutting an excerpt again\<close>

text \<open>
  The text kept of \<open>s\<close> (\<open>q\<close>, its last lines) and a shorter tail \<open>p\<close> of whole lines:
  the tail is still there once \<open>q\<close> is held to the byte limit, on a line boundary, unless
  it is itself over the limit.
\<close>

lemma cut_tail_keeps_lines:
  assumes q: "q = x @ newline # p" and p: "length p \<le> OutputTailBytes"
    and start: "p = [] \<or> rune_start (hd p)"
  shows "cut_tail q = p \<or> (\<exists>x'. cut_tail q = x' @ newline # p)"
proof (cases "length q \<le> OutputTailBytes")
  case True
  with q show ?thesis by (simp add: cut_tail_id)
next
  case False
  let ?d = "drop (length q - OutputTailBytes) q"
  have cut: "cut_tail q = skip_to_rune ?d" using False by (simp add: cut_tail_def)
  show ?thesis
  proof (cases "length p = OutputTailBytes")
    case True
    with q have "?d = p" by simp
    with cut start show ?thesis by (simp add: skip_to_rune_id)
  next
    case False
    with q p have "?d = drop (length q - OutputTailBytes) x @ newline # p" by simp
    with cut skip_to_rune_append [of newline] show ?thesis by simp
  qed
qed

lemma cut_tail_recut:
  assumes mn: "0 < m" "m \<le> n" and s: "valid_utf8 s0" "prefix s s0"
  shows "cut_tail (last_lines m (cut_tail (last_lines n s))) = cut_tail (last_lines m s)"
proof -
  let ?q = "last_lines n s" and ?p = "last_lines m s"
  have p: "?p = last_lines m ?q" by (simp add: last_lines_mono mn)
  show ?thesis
  proof (cases "length ?p > OutputTailBytes")
    case True
    have "suffix ?p ?q" unfolding p by (rule last_lines_suffix [OF mn(1)])
    then have cut: "cut_tail ?q = cut_tail ?p" by (rule cut_tail_common [OF _ True])
    have "length (split_on newline (cut_tail ?p)) \<le> m"
      using length_split_suffix [OF cut_tail_suffix] length_last_lines [OF mn(1)] le_trans by blast
    with cut show ?thesis by (simp add: last_lines_few cut_tail_id cut_tail_length)
  next
    case False
    have "last_lines m (cut_tail ?q) = ?p"
    proof (rule last_lines_split [OF mn(1), of ?q])
      assume "last_lines m ?q = ?q"
      with p False show ?thesis by (simp add: cut_tail_id)
    next
      fix x
      assume "?q = x @ newline # last_lines m ?q"
        and l: "length (split_on newline (last_lines m ?q)) = m"
      then have "cut_tail ?q = ?p \<or> (\<exists>x'. cut_tail ?q = x' @ newline # ?p)"
        using False p last_lines_start [OF s mn(1)] by (intro cut_tail_keeps_lines) auto
      with l p mn(1) show ?thesis
        by (metis last_lines_append last_lines_few order_refl)
    qed
    then show ?thesis by simp
  qed
qed

lemma last_lines_Nil [simp]: "0 < n \<Longrightarrow> last_lines n [] = []"
  by (simp add: last_lines_def)

lemma cut_tail_Nil [simp]: "cut_tail [] = []"
  by (simp add: cut_tail_def)

lemma skip_to_rune_start: "skip_to_rune s = [] \<or> rune_start (hd (skip_to_rune s))"
  by (induction s) auto

lemma cut_tail_start: "t = [] \<or> rune_start (hd t) \<Longrightarrow> cut_tail t = [] \<or> rune_start (hd (cut_tail t))"
  using skip_to_rune_start by (auto simp: cut_tail_def)

text \<open>
  Cutting an excerpt again to fewer lines gives what cutting the whole output to that
  many lines would have given, for every well-formed UTF-8 output.
\<close>

theorem TailLines_recut:
  assumes "valid_utf8 s" "m \<le> n"
  shows "TailLines (TailLines s n) m = TailLines s m"
proof (cases "m \<le> 0 \<or> trim_right blanks s = []")
  case True
  have "trim_right blanks [] = []" by (simp add: trim_right_def)
  with True show ?thesis by (auto simp: TailLines_eq)
next
  case False
  let ?t = "trim_right blanks s"
  let ?c = "cut_tail (last_lines (nat n) ?t)"
  have m: "0 < nat m" "nat m \<le> nat n" using False assms by auto
  have "suffix ?c ?t"
    using m by (intro suffix_order.trans [OF cut_tail_suffix last_lines_suffix]) simp
  then have "trim_right blanks ?c = ?c" by (rule trim_right_suffix)
  moreover have recut: "cut_tail (last_lines (nat m) ?c) = cut_tail (last_lines (nat m) ?t)"
    using m assms(1) trim_right_prefix by (rule cut_tail_recut)
  moreover have "?c = [] \<Longrightarrow> cut_tail (last_lines (nat m) ?t) = []"
    using recut m(1) by simp
  ultimately show ?thesis
    using False m assms(2) by (simp add: TailLines_eq)
qed

theorem TailLines_recut_witness:
  "TailLines (TailLines (''one'' @ [newline] @ ''two'' @ [newline] @ ''three'' @ [newline]) 2) 1
     = ''three''"
proof -
  have v: "valid_utf8 (''one'' @ [newline] @ ''two'' @ [newline] @ ''three'' @ [newline])"
    by code_simp
  have "TailLines (''one'' @ [newline] @ ''two'' @ [newline] @ ''three'' @ [newline]) 1 = ''three''"
    by code_simp
  then show ?thesis using TailLines_recut [OF v, of 1 2] by simp
qed

text \<open>
  An excerpt is the end of the output without its trailing blank space: at most the
  asked number of lines and at most 1000 bytes, and, for well-formed output, it does not
  start inside a character.
\<close>

theorem TailLines_bounds:
  "suffix (TailLines s n) (trim_right blanks s)
   \<and> length (TailLines s n) \<le> OutputTailBytes
   \<and> (0 < n \<longrightarrow> int (length (split_on newline (TailLines s n))) \<le> n)
   \<and> (valid_utf8 s \<longrightarrow> TailLines s n = [] \<or> rune_start (hd (TailLines s n)))"
proof (cases "trim_right blanks s = [] \<or> n \<le> 0")
  case True
  then show ?thesis by (auto simp: TailLines_eq)
next
  case False
  let ?t = "trim_right blanks s"
  let ?q = "last_lines (nat n) ?t"
  have eq: "TailLines s n = cut_tail ?q" using False by (simp add: TailLines_eq)
  have n: "0 < nat n" using False by simp
  have "suffix (cut_tail ?q) ?t"
    using cut_tail_suffix last_lines_suffix [OF n] by (rule suffix_order.trans)
  moreover have "length (split_on newline (cut_tail ?q)) \<le> nat n"
    using length_split_suffix [OF cut_tail_suffix] length_last_lines [OF n] by (rule le_trans)
  then have "int (length (split_on newline (cut_tail ?q))) \<le> n"
    using False by linarith
  moreover have "valid_utf8 s \<Longrightarrow> cut_tail ?q = [] \<or> rune_start (hd (cut_tail ?q))"
    using last_lines_start [OF _ trim_right_prefix n] by (rule cut_tail_start)
  ultimately show ?thesis using eq cut_tail_length [of ?q] False by simp
qed

theorem TailLines_bounds_witness:
  "int (length (split_on newline (TailLines (''a'' @ [newline] @ ''b'') 1))) \<le> 1"
  using TailLines_bounds [of "''a'' @ [newline] @ ''b''" 1] by simp

end
