(* ===== verification/Go_Text.thy ===== *)
theory Go_Text
  imports Core_Tail
begin

text \<open>
  What the sources use of Go's \<^verbatim>\<open>strings\<close> and \<^verbatim>\<open>strconv\<close> packages, over byte strings: trimming
  white space and suffixes, letter case, decimal numbers and fields.
\<close>

section \<open>Bytes\<close>

definition is_digit :: "char \<Rightarrow> bool" where
  "is_digit c \<longleftrightarrow> 48 \<le> byte c \<and> byte c \<le> 57"

definition lower :: "char \<Rightarrow> char" where
  "lower c = (if 65 \<le> byte c \<and> byte c \<le> 90 then char_of (byte c + 32) else c)"

text \<open>\<^verbatim>\<open>strings.HasPrefix\<close>.\<close>

definition has_prefix :: "string \<Rightarrow> string \<Rightarrow> bool" where
  "has_prefix s p \<longleftrightarrow> take (length p) s = p"

text \<open>\<^verbatim>\<open>strings.TrimSuffix\<close>.\<close>

definition trim_suffix :: "string \<Rightarrow> string \<Rightarrow> string" where
  "trim_suffix s suf =
     (if length suf \<le> length s \<and> drop (length s - length suf) s = suf
      then take (length s - length suf) s else s)"

text \<open>
  \<^verbatim>\<open>strings.TrimSpace\<close>: the white space of Unicode, as the byte sequences that encode it.
\<close>

definition space_codes :: "string list" where
  "space_codes =
     map (\<lambda>n. [char_of n]) [9, 10, 11, 12, 13, 32 :: nat]
     @ [[CHR 0xC2, CHR 0x85], [CHR 0xC2, CHR 0xA0], [CHR 0xE1, CHR 0x9A, CHR 0x80]]
     @ map (\<lambda>n. [CHR 0xE2, CHR 0x80, char_of n]) ([128..<139] @ [168, 169, 175 :: nat])
     @ [[CHR 0xE2, CHR 0x81, CHR 0x9F], [CHR 0xE3, CHR 0x80, CHR 0x80]]"

lemma space_codes_nonempty: "c \<in> set space_codes \<Longrightarrow> c \<noteq> []"
  by (auto simp: space_codes_def)

function trim_codes :: "string list \<Rightarrow> string \<Rightarrow> string" where
  "trim_codes cs s =
     (case List.find (\<lambda>c. c \<noteq> [] \<and> take (length c) s = c) cs of
        None \<Rightarrow> s
      | Some c \<Rightarrow> trim_codes cs (drop (length c) s))"
  by pat_completeness auto
termination
proof (relation "measure (\<lambda>(_, s). length s)", goal_cases)
  case (2 cs s c)
  then have "c \<noteq> [] \<and> take (length c) s = c" by (auto simp: find_Some_iff)
  then show ?case by (cases s) auto
qed simp

declare trim_codes.simps [simp del]

definition trim_space :: "string \<Rightarrow> string" where
  "trim_space s = rev (trim_codes (map rev space_codes) (rev (trim_codes space_codes s)))"

text \<open>\<^verbatim>\<open>strings.Join\<close>, with the separator first.\<close>

fun joined :: "string \<Rightarrow> string list \<Rightarrow> string" where
  "joined sep [] = []"
| "joined sep [x] = x"
| "joined sep (x # y # xs) = x @ sep @ joined sep (y # xs)"

text \<open>\<^verbatim>\<open>strings.Fields\<close>: the parts of a text between runs of white space.\<close>

function until_space :: "string \<Rightarrow> string" where
  "until_space s =
     (if s = [] \<or> list_ex (\<lambda>c. c \<noteq> [] \<and> has_prefix s c) space_codes then []
      else hd s # until_space (tl s))"
  by pat_completeness auto
termination
  by (relation "measure length") auto

declare until_space.simps [simp del]

text \<open>The first of the fields, empty when there is none.\<close>

definition first_field :: "string \<Rightarrow> string" where
  "first_field s = until_space (trim_codes space_codes s)"

section \<open>Letter case beyond ASCII\<close>

text \<open>
  Two letters outside ASCII have an ASCII lower case: the dotted capital I (U+0130) and the
  Kelvin sign (U+212A). \<open>lower_ascii\<close> is \<^verbatim>\<open>strings.ToLower\<close> where its result is ASCII, and
  nothing where it is not. Two letters outside ASCII fold to an ASCII one: the long s
  (U+017F) and the Kelvin sign; \<open>fold_ascii\<close> is the folding of \<^verbatim>\<open>strings.EqualFold\<close> likewise.
\<close>

fun lower_ascii :: "string \<Rightarrow> string option" where
  "lower_ascii [] = Some []"
| "lower_ascii (c # s) =
     (if byte c < 128 then map_option (Cons (lower c)) (lower_ascii s)
      else if has_prefix (c # s) [CHR 0xC4, CHR 0xB0] then map_option (Cons (CHR ''i'')) (lower_ascii (drop 1 s))
      else if has_prefix (c # s) [CHR 0xE2, CHR 0x84, CHR 0xAA] then map_option (Cons (CHR ''k'')) (lower_ascii (drop 2 s))
      else None)"

fun fold_ascii :: "string \<Rightarrow> string option" where
  "fold_ascii [] = Some []"
| "fold_ascii (c # s) =
     (if byte c < 128 then map_option (Cons (lower c)) (fold_ascii s)
      else if has_prefix (c # s) [CHR 0xC5, CHR 0xBF] then map_option (Cons (CHR ''s'')) (fold_ascii (drop 1 s))
      else if has_prefix (c # s) [CHR 0xE2, CHR 0x84, CHR 0xAA] then map_option (Cons (CHR ''k'')) (fold_ascii (drop 2 s))
      else None)"

text \<open>\<^verbatim>\<open>strings.EqualFold\<close> with an ASCII text.\<close>

definition equal_fold :: "string \<Rightarrow> string \<Rightarrow> bool" where
  "equal_fold s ascii \<longleftrightarrow> fold_ascii s = Some (map lower ascii)"

section \<open>Decimal numbers\<close>

definition decimal :: "string \<Rightarrow> int" where
  "decimal s = foldl (\<lambda>n c. 10 * n + int (byte c - 48)) 0 s"

text \<open>\<^verbatim>\<open>strconv.Atoi\<close>: an optional sign and digits, in the range of an \<^verbatim>\<open>int\<close>.\<close>

definition atoi :: "string \<Rightarrow> int option" where
  "atoi s =
     (let ds = (if s \<noteq> [] \<and> (hd s = CHR ''-'' \<or> hd s = CHR ''+'') then tl s else s);
          n = (if s \<noteq> [] \<and> hd s = CHR ''-'' then - decimal ds else decimal ds)
      in if ds \<noteq> [] \<and> list_all is_digit ds \<and> in64 n then Some n else None)"

section \<open>Properties of the text functions\<close>

lemma lower_idem: "lower (lower c) = lower c"
  by (simp add: lower_def)

lemma digit_byte [simp]: "n < 10 \<Longrightarrow> byte (digit n) = 48 + n"
  by (simp add: digit_def)

lemma is_digit_digit [simp]: "n < 10 \<Longrightarrow> is_digit (digit n)"
  by (simp add: is_digit_def)

lemma decimal_append: "decimal (s @ [c]) = 10 * decimal s + int (byte c - 48)"
  by (simp add: decimal_def)

lemma decimal_dec_nat [simp]: "decimal (dec_nat n) = int n"
proof (induction n rule: dec_nat.induct)
  case (1 n)
  show ?case
  proof (cases "n < 10")
    case True
    then show ?thesis by (simp add: dec_nat.simps [of n] decimal_def)
  next
    case False
    with 1 show ?thesis by (simp add: dec_nat.simps [of n] decimal_append zdiv_int zmod_int)
  qed
qed

lemma dec_nat_digits [simp]: "list_all is_digit (dec_nat n)"
proof (induction n rule: dec_nat.induct)
  case (1 n)
  then show ?case by (cases "n < 10") (simp_all add: dec_nat.simps [of n])
qed

lemma dec_nat_nonempty [simp]: "dec_nat n \<noteq> []"
  by (simp add: dec_nat.simps [of n])

text \<open>A number that was printed is read back.\<close>

lemma atoi_dec: "in64 n \<Longrightarrow> atoi (dec n) = Some n"
proof -
  assume n: "in64 n"
  have "hd (dec_nat k) \<noteq> CHR ''-'' \<and> hd (dec_nat k) \<noteq> CHR ''+''" for k
  proof -
    have "is_digit (hd (dec_nat k))"
      using dec_nat_digits [of k] by (metis dec_nat_nonempty list.pred_set hd_in_set)
    then show ?thesis by (auto simp: is_digit_def)
  qed
  with n show ?thesis by (cases "n < 0") (simp_all add: atoi_def dec_def Let_def)
qed

lemma decimal_nonneg: "0 \<le> decimal s"
proof -
  have "0 \<le> n \<Longrightarrow> 0 \<le> foldl (\<lambda>n c. 10 * n + int (byte c - 48)) n s" for n
    by (induction s arbitrary: n) auto
  then show ?thesis by (simp add: decimal_def)
qed

text \<open>Characters that are no white space; a text that begins and ends with them is trimmed already.\<close>

definition visible :: "char \<Rightarrow> bool" where
  "visible c \<longleftrightarrow> 32 < byte c \<and> byte c < 128"

lemma space_codes_invisible: "c \<in> set space_codes \<Longrightarrow> \<not> visible (hd c) \<and> \<not> visible (hd (rev c)) \<and> c \<noteq> []"
proof -
  have "list_all (\<lambda>c. \<not> visible (hd c) \<and> \<not> visible (hd (rev c)) \<and> c \<noteq> []) space_codes" by code_simp
  then show "c \<in> set space_codes \<Longrightarrow> \<not> visible (hd c) \<and> \<not> visible (hd (rev c)) \<and> c \<noteq> []"
    by (simp add: list.pred_set)
qed

lemma trim_codes_visible:
  assumes "\<forall>c \<in> set cs. \<not> visible (hd c)" "s \<noteq> []" "visible (hd s)"
  shows "trim_codes cs s = s"
proof -
  have "List.find (\<lambda>c. c \<noteq> [] \<and> take (length c) s = c) cs = None"
    unfolding find_None_iff
  proof clarify
    fix c assume c: "c \<in> set cs" "c \<noteq> []" "take (length c) s = c"
    then have "hd c = hd s" using assms(2) by (metis hd_take length_greater_0_conv)
    with assms c(1) show False by auto
  qed
  then show ?thesis by (simp add: trim_codes.simps [of cs s])
qed

lemma trim_space_visible: "s \<noteq> [] \<Longrightarrow> visible (hd s) \<Longrightarrow> visible (last s) \<Longrightarrow> trim_space s = s"
  using trim_codes_visible [of space_codes s] trim_codes_visible [of "map rev space_codes" "rev s"] space_codes_invisible
  by (simp add: trim_space_def hd_rev)

lemma trim_space_Nil [simp]: "trim_space [] = []"
  by code_simp

end
