(* ===== verification/Go_Duration.thy ===== *)
theory Go_Duration
  imports Complex_Main Go_Text "HOL-Library.Monad_Syntax"
begin

text \<open>
  Durations as text (Go's \<^verbatim>\<open>time.ParseDuration\<close> and \<^verbatim>\<open>Duration.Round\<close>) and the floating point
  arithmetic they and the certificate check use: a finite \<^verbatim>\<open>float64\<close> is a rational, and an
  operation rounds its exact result to 53 bits, to nearest, ties to even. The results here
  are far inside the exponent range.
\<close>

section \<open>Floating point\<close>

function bit_count :: "int \<Rightarrow> int" where
  "bit_count n = (if n \<le> 0 then 0 else 1 + bit_count (n div 2))"
  by pat_completeness auto
termination
  by (relation "measure nat") auto

declare bit_count.simps [simp del]

text \<open>The exponent \<open>e\<close> with \<open>2^e \<le> x < 2^(e+1)\<close>, for a positive \<open>x\<close>.\<close>

definition binary_exponent :: "rat \<Rightarrow> int" where
  "binary_exponent x =
     (let (n, d) = quotient_of x;
          e = bit_count n - bit_count d
      in if 2 powi e \<le> x then e else e - 1)"

definition round_even :: "rat \<Rightarrow> int" where
  "round_even x =
     (let n = \<lfloor>x\<rfloor>; r = x - of_int n
      in if r < 1 / 2 \<or> r = 1 / 2 \<and> even n then n else n + 1)"

definition float64 :: "rat \<Rightarrow> rat" where
  "float64 x =
     (if x = 0 then 0
      else let u = 2 powi (binary_exponent \<bar>x\<bar> - 52) in of_int (round_even (x / u)) * u)"

text \<open>The conversion of a float to an integer drops the fraction.\<close>

definition truncate_rat :: "rat \<Rightarrow> int" where
  "truncate_rat x = (if x < 0 then - \<lfloor>- x\<rfloor> else \<lfloor>x\<rfloor>)"

section \<open>time.ParseDuration\<close>

definition leading_int :: "string \<Rightarrow> (int \<times> string) option" where
  "leading_int s =
     (let n = decimal (takeWhile is_digit s)
      in if n > 2 ^ 63 then None else Some (n, dropWhile is_digit s))"

text \<open>The digits of a fraction as a number and its scale; digits that do not fit are dropped.\<close>

fun leading_fraction :: "int \<Rightarrow> int \<Rightarrow> string \<Rightarrow> int \<times> int" where
  "leading_fraction x scale [] = (x, scale)"
| "leading_fraction x scale (c # ds) =
     (if x > (2 ^ 63 - 1) div 10 then (x, scale)
      else let y = x * 10 + int (byte c - 48)
           in if y > 2 ^ 63 then (x, scale) else leading_fraction y (scale * 10) ds)"

definition unit_of :: "string \<Rightarrow> int option" where
  "unit_of u =
     (if u = ''ns'' then Some 1
      else if u = ''us'' \<or> u = [CHR 0xC2, CHR 0xB5, CHR ''s''] \<or> u = [CHR 0xCE, CHR 0xBC, CHR ''s''] then Some 1000
      else if u = ''ms'' then Some 1000000
      else if u = ''s'' then Some second
      else if u = ''m'' then Some minute
      else if u = ''h'' then Some hour
      else None)"

definition unit_char :: "char \<Rightarrow> bool" where
  "unit_char c \<longleftrightarrow> \<not> (c = CHR ''.'' \<or> is_digit c)"

text \<open>A number with its fraction: the whole part, the fraction and its scale, and the rest.\<close>

definition number_text :: "string \<Rightarrow> (int \<times> int \<times> int \<times> string) option" where
  "number_text s =
     (if s = [] \<or> unit_char (hd s) then None
      else case leading_int s of
        None \<Rightarrow> None
      | Some (v, s1) \<Rightarrow>
          let point = (s1 \<noteq> [] \<and> hd s1 = CHR ''.'');
              ds = (if point then takeWhile is_digit (tl s1) else []);
              (f, scale) = leading_fraction 0 1 ds;
              s2 = (if point then dropWhile is_digit (tl s1) else s1)
          in if length s1 \<noteq> length s \<or> ds \<noteq> [] then Some (v, f, scale, s2) else None)"

text \<open>The nanoseconds of a fraction of a unit, in floating point.\<close>

definition fraction_of :: "int \<Rightarrow> int \<Rightarrow> int \<Rightarrow> int" where
  "fraction_of f scale unit =
     truncate_rat (float64 (float64 (of_int f) * float64 (float64 (of_int unit) / of_int scale)))"

text \<open>One number and its unit: its nanoseconds and the rest of the text.\<close>

definition parse_term :: "string \<Rightarrow> (int \<times> string) option" where
  "parse_term s =
     (case number_text s of
        None \<Rightarrow> None
      | Some (v, f, scale, r) \<Rightarrow>
          (case unit_of (takeWhile unit_char r) of
             None \<Rightarrow> None
           | Some unit \<Rightarrow>
               let n = v * unit + (if f > 0 then fraction_of f scale unit else 0)
               in if v > 2 ^ 63 div unit \<or> f > 0 \<and> n > 2 ^ 63 then None
                  else Some (n, dropWhile unit_char r)))"

lemma parse_term_shorter: "parse_term s = Some (n, r) \<Longrightarrow> length r < length s"
proof -
  assume p: "parse_term s = Some (n, r)"
  obtain v f scale s2 where t1: "number_text s = Some (v, f, scale, s2)"
    using p by (auto simp: parse_term_def split: option.splits)
  have "unit_of [] = None" by (simp add: unit_of_def)
  with p have t: "r = dropWhile unit_char s2" "takeWhile unit_char s2 \<noteq> []"
    by (auto simp: parse_term_def t1 Let_def split: option.splits if_splits)
  from t(1) have "length s2 = length (takeWhile unit_char s2) + length r"
    by (simp flip: length_append)
  with t(2) have "length r < length s2" by simp
  moreover have "length s2 \<le> length s"
  proof -
    have "s2 = dropWhile is_digit s \<or> s2 = dropWhile is_digit (tl (dropWhile is_digit s))"
      using t1 by (auto simp: number_text_def leading_int_def Let_def split: option.splits if_splits prod.splits)
    then show ?thesis
      using length_dropWhile_le [of is_digit s] length_dropWhile_le [of is_digit "tl (dropWhile is_digit s)"] by auto
  qed
  ultimately show ?thesis by simp
qed

function parse_terms :: "int \<Rightarrow> string \<Rightarrow> int option" where
  "parse_terms d s =
     (if s = [] then Some d
      else case parse_term s of
        None \<Rightarrow> None
      | Some (v, r) \<Rightarrow> let d' = (d + v) mod 2 ^ 64 in if d' > 2 ^ 63 then None else parse_terms d' r)"
  by pat_completeness auto
termination
  by (relation "measure (\<lambda>(_, s). length s)") (auto dest: parse_term_shorter)

declare parse_terms.simps [simp del]

definition ParseDuration :: "string \<Rightarrow> duration option" where
  "ParseDuration s0 =
     (let signed = s0 \<noteq> [] \<and> (hd s0 = CHR ''-'' \<or> hd s0 = CHR ''+'');
          neg = (s0 \<noteq> [] \<and> hd s0 = CHR ''-'');
          s = (if signed then tl s0 else s0)
      in if s = ''0'' then Some 0
         else if s = [] then None
         else do { d \<leftarrow> parse_terms 0 s;
                   if neg then Some (- d) else if d > 2 ^ 63 - 1 then None else Some d })"

text \<open>\<^verbatim>\<open>Duration.Round\<close> to a positive multiple \<open>m\<close>: half away from zero, saturating.\<close>

definition dur_round :: "duration \<Rightarrow> duration \<Rightarrow> duration" where
  "dur_round d m =
     (let r = \<bar>d\<bar> mod m in
      if d < 0 then (if r + r < m then d + r else max min_int64 (d - m + r))
      else (if r + r < m then d - r else min max_int64 (d + m - r)))"


section \<open>Whole numbers are exact\<close>

lemma bit_count_bound: "0 \<le> n \<Longrightarrow> n < 2 ^ k \<Longrightarrow> bit_count n \<le> int k"
proof (induction k arbitrary: n)
  case 0
  then show ?case by (simp add: bit_count.simps)
next
  case (Suc k)
  then show ?case using Suc.IH [of "n div 2"] by (simp add: bit_count.simps [of n])
qed

lemma round_even_int [simp]: "round_even (of_int n) = n"
  by (simp add: round_even_def)

lemma float64_int: "0 \<le> n \<Longrightarrow> n < 2 ^ 53 \<Longrightarrow> float64 (of_int n) = of_int n"
proof (cases "n = 0")
  case False
  assume n: "0 \<le> n" "n < 2 ^ 53"
  let ?e = "binary_exponent (of_int n)"
  have "bit_count 1 = 1" by (simp add: bit_count.simps)
  then have e: "?e \<le> 52"
    using bit_count_bound [OF n] by (simp add: binary_exponent_def quotient_of_int Let_def)
  define k where "k = nat (52 - ?e)"
  have u: "(2 :: rat) powi (?e - 52) = 1 / of_int (2 ^ k)"
    using e by (simp add: k_def power_int_def field_simps)
  have "of_int n / (1 / of_int (2 ^ k)) = (of_int (n * 2 ^ k) :: rat)" by simp
  then have "round_even (of_int n / (1 / of_int (2 ^ k))) = n * 2 ^ k" by (simp only: round_even_int)
  with n False show ?thesis unfolding float64_def Let_def u by (simp add: u)
qed (simp add: float64_def)

lemma truncate_int [simp]: "truncate_rat (of_int n) = n"
  by (simp add: truncate_rat_def)

lemma fraction_exact:
  assumes "0 \<le> f" "f * q < 2 ^ 53" "0 < q" "unit < 2 ^ 53" "unit = scale * q" "0 < scale"
  shows "fraction_of f scale unit = f * q"
proof -
  have "f \<le> f * q" using assms(1,3) by (simp add: mult_le_cancel_left1)
  then have f: "float64 (of_int f) = of_int f" using assms by (intro float64_int) simp_all
  have "q \<le> unit" using assms by (simp add: mult_le_cancel_right1)
  then have "float64 (of_int q) = of_int q" using assms(3,4) by (intro float64_int) simp_all
  moreover have "(of_int unit :: rat) / of_int scale = of_int q" using assms(5,6) by simp
  ultimately have "float64 (float64 (of_int unit) / of_int scale) = of_int q"
    using assms float64_int [of unit] by simp
  with f show ?thesis
    using assms float64_int [of "f * q"] by (simp add: fraction_of_def flip: of_int_mult)
qed

section \<open>Printed durations are read back\<close>

lemma while_append:
  assumes "list_all P xs" "ys = [] \<or> \<not> P (hd ys)"
  shows "takeWhile P (xs @ ys) = xs" "dropWhile P (xs @ ys) = ys"
proof -
  have "takeWhile P ys = [] \<and> dropWhile P ys = ys" using assms(2) by (cases ys) simp_all
  then show "takeWhile P (xs @ ys) = xs" "dropWhile P (xs @ ys) = ys"
    using assms(1) by (simp_all add: list.pred_set)
qed

lemma dec_nat_length: "n < 10 ^ k \<Longrightarrow> 0 < k \<Longrightarrow> length (dec_nat n) \<le> k"
proof (induction n arbitrary: k rule: dec_nat.induct)
  case (1 n)
  show ?case
  proof (cases "n < 10")
    case True
    with "1.prems" show ?thesis by (simp add: dec_nat.simps [of n])
  next
    case False
    then obtain j where j: "k = Suc j" "0 < j" using "1.prems" by (cases k; cases "k - 1") auto
    then have "n div 10 < 10 ^ j" using "1.prems" by (simp add: less_mult_imp_div_less mult.commute)
    with "1.IH" [OF False this j(2)] False j(1) show ?thesis by (simp add: dec_nat.simps [of n])
  qed
qed

lemma decimal_zeros: "decimal (replicate k (CHR ''0'') @ s) = decimal s"
  by (induction k) (simp_all add: decimal_def)

lemma pad_dec_reads:
  assumes "n < 10 ^ w" "0 < w"
  shows "length (pad_dec w n) = w \<and> list_all is_digit (pad_dec w n) \<and> decimal (pad_dec w n) = int n"
proof -
  have "list_all is_digit (replicate k (CHR ''0''))" for k by (induction k) (simp_all add: is_digit_def)
  with dec_nat_length [OF assms] show ?thesis by (simp add: pad_dec_def Let_def decimal_zeros)
qed

lemma hd_dec_nat: "is_digit (hd (dec_nat n))"
  using dec_nat_digits [of n] by (metis dec_nat_nonempty hd_in_set list.pred_set)

lemma leading_fraction_digits:
  assumes "list_all is_digit ds" "0 \<le> x" "x < 10 ^ k" "k + length ds \<le> 9"
  shows "leading_fraction x scale ds = (foldl (\<lambda>n c. 10 * n + int (byte c - 48)) x ds, scale * 10 ^ length ds)"
  using assms
proof (induction ds arbitrary: x scale k)
  case (Cons c ds)
  let ?y = "x * 10 + int (byte c - 48)"
  have c: "byte c - 48 \<le> 9" using Cons.prems(1) by (auto simp: is_digit_def)
  have "(10 :: int) ^ k \<le> 10 ^ 8" using Cons.prems(4) by (intro power_increasing) auto
  then have x: "x < 10 ^ 8" using Cons.prems(3) by linarith
  have "?y < 10 ^ Suc k" using c Cons.prems(3) by (simp add: of_nat_diff)
  then show ?case
    using Cons.IH [of ?y "Suc k" "scale * 10"] Cons.prems x c by (simp add: Let_def mult.commute)
qed simp

lemma parse_term_whole:
  assumes "unit_of u = Some unit" "list_all unit_char u" "s = [] \<or> is_digit (hd s)" "int v \<le> 2 ^ 63 div unit" "int v \<le> 2 ^ 63"
  shows "parse_term (dec_nat v @ u @ s) = Some (int v * unit, s)"
proof -
  have u: "u \<noteq> []" "\<not> is_digit (hd u)" "hd u \<noteq> CHR ''.''"
    using assms(1,2) by (cases u; auto simp: unit_of_def unit_char_def)+
  note d = while_append [of is_digit "dec_nat v" "u @ s"] and w = while_append [of unit_char u s]
  have "number_text (dec_nat v @ u @ s) = Some (int v, 0, 1, u @ s)"
    using u assms(5) hd_dec_nat [of v] by (simp add: number_text_def leading_int_def Let_def d unit_char_def)
  moreover have "s = [] \<or> \<not> unit_char (hd s)" using assms(3) by (auto simp: unit_char_def)
  ultimately show ?thesis using assms w by (simp add: parse_term_def)
qed

text \<open>The nine-digit fraction of a second is printed without its trailing zeros.\<close>

lemma decimal_times_ten: "decimal (s @ replicate k (CHR ''0'')) = decimal s * 10 ^ k"
proof (induction k)
  case (Suc k)
  have "s @ replicate (Suc k) (CHR ''0'') = (s @ replicate k (CHR ''0'')) @ [CHR ''0'']"
    by (simp add: replicate_append_same)
  then show ?case using Suc by (simp only: decimal_append) simp
qed simp

lemma frac_text_digits:
  assumes "n < 10 ^ w" "0 < w" "0 < n"
  obtains ds where "frac_text w n = CHR ''.'' # ds" "list_all is_digit ds" "ds \<noteq> []" "length ds \<le> w"
    "decimal ds * 10 ^ (w - length ds) = int n"
proof -
  let ?z = "\<lambda>c. c = CHR ''0''" and ?p = "pad_dec w n"
  note p = pad_dec_reads [OF assms(1,2)]
  define ds where "ds = rev (dropWhile ?z (rev ?p))"
  define k where "k = length (takeWhile ?z (rev ?p))"
  have "takeWhile ?z (rev ?p) = replicate k (CHR ''0'')"
    unfolding k_def by (intro replicate_eqI) (auto dest: set_takeWhileD)
  then have split: "?p = ds @ replicate k (CHR ''0'')"
    unfolding ds_def by (metis rev_append rev_replicate rev_rev_ident takeWhile_dropWhile_id)
  then have d: "decimal ds * 10 ^ k = int n" "length ds + k = w" "list_all is_digit ds"
    using p by (simp_all add: decimal_times_ten)
  then have ne: "ds \<noteq> []" using assms(3) by (auto simp: decimal_def)
  show thesis
  proof (rule that [of ds])
    show "frac_text w n = CHR ''.'' # ds" using ne by (simp add: frac_text_def ds_def Let_def)
    show "decimal ds * 10 ^ (w - length ds) = int n" "length ds \<le> w" using d by auto
  qed (use d ne in auto)
qed

lemma parse_term_seconds:
  assumes "n < 1000000000" "v < 60"
  shows "parse_term (dec_nat v @ frac_text 9 n @ ''s'') = Some (int v * second + int n, [])"
proof (cases "n = 0")
  case True
  have "frac_text 9 0 = []" by code_simp
  with True assms(2) show ?thesis using parse_term_whole [of "''s''" second "[]" v] by (simp add: unit_of_def unit_char_def is_digit_def)
next
  case False
  then obtain ds where ds: "frac_text 9 n = CHR ''.'' # ds" "list_all is_digit ds" "ds \<noteq> []" "length ds \<le> 9"
    "decimal ds * 10 ^ (9 - length ds) = int n"
    using frac_text_digits [of n 9] assms(1) by auto
  let ?r = "CHR ''.'' # ds @ ''s''"
  have dot: "\<not> is_digit (CHR ''.'')" "\<not> is_digit (CHR ''s'')" "unit_char (CHR ''s'')" by (simp_all add: is_digit_def unit_char_def)
  note d = while_append [of is_digit "dec_nat v" ?r] and f = while_append [of is_digit ds "''s''"]
  have "leading_fraction 0 1 ds = (decimal ds, 10 ^ length ds)"
    using leading_fraction_digits [of ds 0 0 1] ds by (simp add: decimal_def)
  then have "number_text (dec_nat v @ ?r) = Some (int v, decimal ds, 10 ^ length ds, ''s'')"
    using hd_dec_nat [of v] assms(2) dot ds(2,3) by (simp add: number_text_def leading_int_def Let_def d f unit_char_def)
  moreover have "fraction_of (decimal ds) (10 ^ length ds) second = int n"
  proof -
    have "(10 :: int) ^ length ds * 10 ^ (9 - length ds) = second" using ds(4) by (simp flip: power_add)
    then have "fraction_of (decimal ds) (10 ^ length ds) second = decimal ds * 10 ^ (9 - length ds)"
      by (intro fraction_exact decimal_nonneg) (use ds(5) assms(1) in \<open>simp_all only: ds(5), simp_all\<close>)
    then show ?thesis by (simp only: ds(5))
  qed
  moreover have "0 < decimal ds"
    using ds(5) False decimal_nonneg [of ds] by (cases "decimal ds = 0") auto
  ultimately show ?thesis
    using assms dot(3) by (simp add: ds(1) parse_term_def unit_of_def Let_def)
qed

end
