(* ===== verification/Go_Time.thy ===== *)
theory Go_Time
  imports Go_Duration
begin

text \<open>
  Dates as text: the part of Go's \<^verbatim>\<open>time\<close> package that \<^verbatim>\<open>internal/jobs\<close> prints and reads
  dates with. An instant is split into its civil date in the proleptic Gregorian calendar,
  \<open>dateText\<close> (\<^verbatim>\<open>probe.go\<close>) prints it, and \<open>ParseExpiryDate\<close> (\<^verbatim>\<open>probe_expiry.go\<close>) and
  \<open>parseRDAPDate\<close> (\<^verbatim>\<open>probe_domain.go\<close>) read it with the layouts they name, as leniently as
  \<^verbatim>\<open>time.Parse\<close> does (an hour of one digit, a fraction behind a comma, an offset of 24 hours).
\<close>

section \<open>The calendar\<close>

definition leap :: "int \<Rightarrow> bool" where
  "leap y \<longleftrightarrow> y mod 4 = 0 \<and> (y mod 100 \<noteq> 0 \<or> y mod 400 = 0)"

definition days_in :: "int \<Rightarrow> int \<Rightarrow> int" where
  "days_in m y =
     (if m = 2 then if leap y then 29 else 28
      else if m = 4 \<or> m = 6 \<or> m = 9 \<or> m = 11 then 30 else 31)"

text \<open>Days from January 1 of year 1 to January 1 of year \<open>y\<close>, and within a year to a month.\<close>

definition days_before_year :: "int \<Rightarrow> int" where
  "days_before_year y = (let n = y - 1 in 365 * n + n div 4 - n div 100 + n div 400)"

definition days_before_month :: "int \<Rightarrow> int \<Rightarrow> int" where
  "days_before_month y m = sum_list (map (\<lambda>k. days_in k y) [1..m - 1])"

definition days_of_civil :: "int \<Rightarrow> int \<Rightarrow> int \<Rightarrow> int" where
  "days_of_civil y m d = days_before_year y + days_before_month y m + (d - 1)"

text \<open>
  The year a day falls in: the average length of a year gives it or the one before it.
\<close>

definition year_of_day :: "int \<Rightarrow> int" where
  "year_of_day n =
     (let y = n * 400 div 146097 + 1
      in if n < days_before_year y then y - 1
         else if days_before_year (y + 1) \<le> n then y + 1 else y)"

fun month_from :: "nat \<Rightarrow> int \<Rightarrow> int \<Rightarrow> int \<Rightarrow> int \<times> int" where
  "month_from 0 y m n = (m, n)"
| "month_from (Suc k) y m n =
     (if n < days_in m y then (m, n) else month_from k y (m + 1) (n - days_in m y))"

definition civil_of_day :: "int \<Rightarrow> int \<times> int \<times> int" where
  "civil_of_day n =
     (let y = year_of_day n; (m, r) = month_from 11 y 1 (n - days_before_year y)
      in (y, m, r + 1))"

section \<open>Printing a date\<close>

definition day_of :: "gotime \<Rightarrow> int" where "day_of t = t div (24 * hour)"
definition second_of_day :: "gotime \<Rightarrow> int" where "second_of_day t = t mod (24 * hour) div second"

text \<open>A number with at least \<open>w\<close> digits, as \<^verbatim>\<open>time.Format\<close> writes years, months and hours.\<close>

definition pad_int :: "nat \<Rightarrow> int \<Rightarrow> string" where
  "pad_int w n = (if n < 0 then CHR ''-'' # pad_dec w (nat (- n)) else pad_dec w (nat n))"

text \<open>\<^verbatim>\<open>dateText\<close>: RFC 3339 in UTC, without fractions of a second.\<close>

definition dateText :: "gotime \<Rightarrow> string" where
  "dateText t =
     (let (y, m, d) = civil_of_day (day_of t); s = second_of_day t
      in pad_int 4 y @ ''-'' @ pad_int 2 m @ ''-'' @ pad_int 2 d @ ''T''
         @ pad_int 2 (s div 3600) @ '':'' @ pad_int 2 (s mod 3600 div 60) @ '':'' @ pad_int 2 (s mod 60) @ ''Z'')"

section \<open>Reading a date\<close>

text \<open>A number of two digits, or of one where the layout does not fix the width.\<close>

fun getnum :: "bool \<Rightarrow> string \<Rightarrow> (int \<times> string) option" where
  "getnum fixed [] = None"
| "getnum fixed (c # s) =
     (if \<not> is_digit c then None
      else case s of
        d # s' \<Rightarrow> if is_digit d then Some (decimal [c, d], s') else if fixed then None else Some (decimal [c], s)
      | [] \<Rightarrow> if fixed then None else Some (decimal [c], s))"

definition number_below :: "bool \<Rightarrow> int \<Rightarrow> int \<Rightarrow> string \<Rightarrow> (int \<times> string) option" where
  "number_below fixed lo hi s =
     do { (n, r) \<leftarrow> getnum fixed s; if lo \<le> n \<and> n \<le> hi then Some (n, r) else None }"

definition skip_char :: "char \<Rightarrow> string \<Rightarrow> string option" where
  "skip_char c s = (case s of d # r \<Rightarrow> if d = c then Some r else None | [] \<Rightarrow> None)"

definition year_digits :: "string \<Rightarrow> (int \<times> string) option" where
  "year_digits s =
     (if length s < 4 \<or> \<not> list_all is_digit (take 4 s) then None else Some (decimal (take 4 s), drop 4 s))"

text \<open>\<^verbatim>\<open>2006-01-02\<close>: the day of the month is held to its month once all is read.\<close>

definition read_date :: "string \<Rightarrow> ((int \<times> int \<times> int) \<times> string) option" where
  "read_date s =
     do { (y, s) \<leftarrow> year_digits s; s \<leftarrow> skip_char (CHR ''-'') s;
          (m, s) \<leftarrow> number_below True 1 12 s; s \<leftarrow> skip_char (CHR ''-'') s;
          (d, s) \<leftarrow> getnum True s;
          Some ((y, m, d), s) }"

text \<open>A fraction of a second, which a layout need not have: nine digits of it count.\<close>

definition read_fraction :: "string \<Rightarrow> int \<times> string" where
  "read_fraction s =
     (if 2 \<le> length s \<and> (hd s = CHR ''.'' \<or> hd s = CHR '','') \<and> is_digit (s ! 1)
      then let ds = takeWhile is_digit (tl s); kept = take 9 ds
           in (decimal kept * 10 ^ (9 - length kept), dropWhile is_digit (tl s))
      else (0, s))"

text \<open>\<^verbatim>\<open>T15:04:05\<close>, as nanoseconds.\<close>

definition read_clock :: "string \<Rightarrow> (int \<times> string) option" where
  "read_clock s =
     do { s \<leftarrow> skip_char (CHR ''T'') s;
          (h, s) \<leftarrow> number_below False 0 23 s; s \<leftarrow> skip_char (CHR '':'') s;
          (m, s) \<leftarrow> number_below True 0 59 s; s \<leftarrow> skip_char (CHR '':'') s;
          (c, s) \<leftarrow> number_below True 0 59 s;
          let (ns, s) = read_fraction s;
          Some (h * hour + m * minute + c * second + ns, s) }"

text \<open>\<^verbatim>\<open>Z07:00\<close>: the offset in nanoseconds; 24 hours and 60 minutes are let through.\<close>

definition read_zone :: "string \<Rightarrow> (int \<times> string) option" where
  "read_zone s =
     (if s \<noteq> [] \<and> hd s = CHR ''Z'' then Some (0, tl s)
      else if length s < 6 \<or> s ! 3 \<noteq> CHR '':'' then None
      else do { (h, _) \<leftarrow> number_below True 0 24 (take 2 (drop 1 s));
                (m, _) \<leftarrow> number_below True 0 60 (take 2 (drop 4 s));
                if hd s = CHR ''+'' then Some (h * hour + m * minute, drop 6 s)
                else if hd s = CHR ''-'' then Some (- (h * hour + m * minute), drop 6 s)
                else None })"

datatype layout = RFC3339 | DateTime | DateOnly

definition time_Parse :: "layout \<Rightarrow> string \<Rightarrow> gotime option" where
  "time_Parse l s =
     do { ((y, m, d), s) \<leftarrow> read_date s;
          (clock, s) \<leftarrow> (if l = DateOnly then Some (0, s) else read_clock s);
          (offset, s) \<leftarrow> (if l = RFC3339 then read_zone s else Some (0, s));
          if s = [] \<and> 1 \<le> d \<and> d \<le> days_in m y
          then Some (days_of_civil y m d * (24 * hour) + clock - offset) else None }"

datatype date_error = NotADate string | ZeroDate string

definition ParseExpiryDate :: "string \<Rightarrow> date_error + gotime" where
  "ParseExpiryDate s =
     (case (case time_Parse RFC3339 s of Some t \<Rightarrow> Some t | None \<Rightarrow> time_Parse DateOnly s) of
        None \<Rightarrow> Inl (NotADate s)
      | Some t \<Rightarrow> if t = 0 then Inl (ZeroDate s) else Inr t)"

definition parseRDAPDate :: "string \<Rightarrow> date_error + gotime" where
  "parseRDAPDate s =
     (case List.find (\<lambda>l. time_Parse l s \<noteq> None) [RFC3339, DateTime, DateOnly] of
        Some l \<Rightarrow> (case time_Parse l s of Some t \<Rightarrow> Inr t | None \<Rightarrow> Inl (NotADate s))
      | None \<Rightarrow> Inl (NotADate s))"

section \<open>A day has one civil date\<close>

lemma div_step: "0 < k \<Longrightarrow> n div k = (n - 1) div k + (if n mod k = 0 then 1 else 0)" for n k :: int
proof -
  assume k: "0 < k"
  show ?thesis
  proof (cases "n mod k = 0")
    case True
    then obtain q where n: "n = k * q" by auto
    have "(k * q - 1) div k = q - 1" using k by (intro int_div_pos_eq [of _ _ _ "k - 1"]) (auto simp: algebra_simps)
    with k n show ?thesis by simp
  next
    case False
    have "n = k * (n div k) + n mod k" "0 \<le> n mod k" "n mod k < k" using k by simp_all
    with False have "(n - 1) div k = n div k" by (intro int_div_pos_eq [of _ _ _ "n mod k - 1"]) auto
    with False show ?thesis by simp
  qed
qed

lemma days_before_year_Suc: "days_before_year (y + 1) = days_before_year y + (if leap y then 366 else 365)"
proof -
  have "(100::int) dvd 400" "(4::int) dvd 100" by simp_all
  then have m: "y mod 400 = 0 \<Longrightarrow> y mod 100 = 0" "y mod 100 = 0 \<Longrightarrow> y mod 4 = 0"
    by (metis mod_eq_0_iff_dvd dvd_trans)+
  have "days_before_year (y + 1) = 365 * y + y div 4 - y div 100 + y div 400"
    by (simp add: days_before_year_def Let_def)
  also have "\<dots> = days_before_year y + 365 + (if y mod 4 = 0 then 1 else 0)
      - (if y mod 100 = 0 then 1 else 0) + (if y mod 400 = 0 then 1 else 0)"
    unfolding days_before_year_def Let_def
    unfolding div_step [of 4 y, simplified] div_step [of 100 y, simplified] div_step [of 400 y, simplified]
    by (simp only: algebra_simps)
  finally show ?thesis
    unfolding leap_def using m by (cases "y mod 4 = 0"; cases "y mod 100 = 0"; cases "y mod 400 = 0") (simp_all only: if_True if_False simp_thms diff_0_right add_0_right)
qed

lemma days_before_year_mono: "y \<le> z \<Longrightarrow> days_before_year y \<le> days_before_year z"
  by (induction rule: int_ge_induct) (simp_all add: days_before_year_Suc)

text \<open>The estimate is off by at most one year.\<close>

lemma div_bounds: "0 < k \<Longrightarrow> k * (n div k) \<le> n \<and> n < k * (n div k) + k" for n k :: int
  using mult_div_mod_eq [of k n] pos_mod_bound [of k n] pos_mod_sign [of k n] by linarith

lemma days_before_year_average:
  "146097 * (y - 1) - 700 \<le> 400 * days_before_year y \<and> 400 * days_before_year y \<le> 146097 * (y - 1) + 400"
proof -
  obtain n where n: "y = n + 1" by (metis add.commute diff_add_cancel)
  show ?thesis
    using div_bounds [of 4 n] div_bounds [of 100 n] div_bounds [of 400 n]
    unfolding n days_before_year_def Let_def by simp
qed

lemma year_of_day_bounds:
  "days_before_year (year_of_day n) \<le> n \<and> n < days_before_year (year_of_day n + 1)"
proof -
  let ?y = "n * 400 div 146097 + 1"
  have "days_before_year (?y - 1) \<le> n" "n < days_before_year (?y + 2)"
    using div_bounds [of 146097 "n * 400"] days_before_year_average [of "?y - 1"]
      days_before_year_average [of "?y + 2"] by simp_all
  then show ?thesis by (simp add: year_of_day_def Let_def)
qed

lemma year_of_day_unique:
  "days_before_year y \<le> n \<Longrightarrow> n < days_before_year (y + 1) \<Longrightarrow> year_of_day n = y"
  using year_of_day_bounds [of n] days_before_year_mono [of "y + 1" "year_of_day n"]
    days_before_year_mono [of "year_of_day n + 1" y] by linarith

text \<open>The months of a year add up to it, so the walk ends at the month of the day.\<close>

lemma months_add_up: "days_before_month y 13 = (if leap y then 366 else 365)"
  by (simp add: days_before_month_def days_in_def upto_rec1)

lemma days_before_month_Suc: "1 \<le> m \<Longrightarrow> days_before_month y (m + 1) = days_before_month y m + days_in m y"
  by (simp add: days_before_month_def upto_rec2)

lemma days_in_pos: "28 \<le> days_in m y" "days_in m y \<le> 31"
  by (simp_all add: days_in_def)

lemma month_from_bounds:
  assumes "1 \<le> m" "m + int k = 12" "0 \<le> n" "days_before_month y m + n < days_before_month y 13"
    and "month_from k y m n = (m', r)"
  shows "m \<le> m' \<and> m' \<le> 12 \<and> 0 \<le> r \<and> r < days_in m' y
    \<and> days_before_month y m' + r = days_before_month y m + n"
  using assms
proof (induction k y m n rule: month_from.induct)
  case (1 y m n)
  then have "m = 12" by simp
  with 1 days_before_month_Suc [of 12 y] show ?case by simp
next
  case (2 k y m n)
  show ?case
  proof (cases "n < days_in m y")
    case True
    with 2 show ?thesis by simp
  next
    case False
    with 2 days_before_month_Suc [of m y] show ?thesis by simp
  qed
qed

lemma civil_of_day_valid:
  assumes "civil_of_day n = (y, m, d)"
  shows "1 \<le> m \<and> m \<le> 12 \<and> 1 \<le> d \<and> d \<le> days_in m y \<and> days_of_civil y m d = n"
proof -
  obtain r where y: "y = year_of_day n" and r: "month_from 11 y 1 (n - days_before_year y) = (m, r)" "d = r + 1"
    using assms by (auto simp: civil_of_day_def Let_def split: prod.splits)
  have "0 \<le> n - days_before_year y" "n - days_before_year y < days_before_month y 13"
    using year_of_day_bounds [of n] days_before_year_Suc [of y] by (simp_all add: y months_add_up)
  with month_from_bounds [OF _ _ _ _ r(1)] r(2) show ?thesis
    by (auto simp: days_of_civil_def days_before_month_def)
qed

section \<open>What is printed is read back\<close>

lemma getnum_pad [simp]: "0 \<le> n \<Longrightarrow> n < 100 \<Longrightarrow> getnum fixed (pad_int 2 n @ s) = Some (n, s)"
proof -
  assume n: "0 \<le> n" "n < 100"
  from n have "nat n < 10\<^sup>2" by simp
  from pad_dec_reads [OF this] n
  obtain c d where p: "pad_dec 2 (nat n) = [c, d]" "is_digit c" "is_digit d" "decimal [c, d] = n"
    by (cases "pad_dec 2 (nat n)"; cases "tl (pad_dec 2 (nat n))") auto
  with n show ?thesis by (simp add: pad_int_def)
qed

lemma number_below_pad [simp]:
  "0 \<le> n \<Longrightarrow> lo \<le> n \<Longrightarrow> n \<le> hi \<Longrightarrow> hi < 100 \<Longrightarrow> number_below fixed lo hi (pad_int 2 n @ s) = Some (n, s)"
  by (simp add: number_below_def)

lemma year_digits_pad [simp]: "0 \<le> y \<Longrightarrow> y \<le> 9999 \<Longrightarrow> year_digits (pad_int 4 y @ s) = Some (y, s)"
  using pad_dec_reads [of "nat y" 4] by (simp add: year_digits_def pad_int_def)

lemma skip_char_Cons [simp]: "skip_char c (c # s) = Some s"
  by (simp add: skip_char_def)

lemma civil_year_range:
  assumes "civil_of_day n = (y, m, d)" "0 \<le> n" "n < days_before_year 10000"
  shows "1 \<le> y \<and> y \<le> 9999"
proof -
  have y: "y = year_of_day n" using assms(1) by (auto simp: civil_of_day_def Let_def split: prod.splits)
  have "days_before_year 1 = 0" by (simp add: days_before_year_def)
  with year_of_day_bounds [of n] days_before_year_mono [of "y + 1" 1] days_before_year_mono [of 10000 y] assms(2,3)
  show ?thesis unfolding y by force
qed

text \<open>The first instant of the year 10000, whose dates no longer have four digits for the year.\<close>

definition year_10000 :: gotime where "year_10000 = days_before_year 10000 * (24 * hour)"

lemma day_of_seconds: "day_of t = t div second div 86400"
  using zdiv_zmult2_eq [of 86400 t second] by (simp add: day_of_def)

lemma second_of_day_seconds: "second_of_day t = t div second mod 86400"
  using zmod_zmult2_eq [of 86400 t second] by (simp add: second_of_day_def)

lemma clock_parts: "s = 3600 * (s div 3600) + 60 * (s mod 3600 div 60) + s mod 60" for s :: int
proof -
  have "s mod 3600 = 60 * (s mod 3600 div 60) + s mod 60"
    using mult_div_mod_eq [of 60 "s mod 3600"] mod_mod_cancel [of 60 3600 s] by simp
  then have "3600 * (s div 3600) + s mod 3600 = 3600 * (s div 3600) + 60 * (s mod 3600 div 60) + s mod 60"
    by (simp only: add.assoc)
  then show ?thesis by (simp only: mult_div_mod_eq)
qed

lemma whole_seconds: "t - t mod second = day_of t * (24 * hour) + (second_of_day t div 3600 * hour
    + second_of_day t mod 3600 div 60 * minute + second_of_day t mod 60 * second)"
proof -
  have "t - t mod second = second * (day_of t * 86400 + second_of_day t)"
    by (simp add: day_of_seconds second_of_day_seconds minus_mod_eq_mult_div)
  moreover obtain h m c where "second_of_day t div 3600 = h" "second_of_day t mod 3600 div 60 = m"
    "second_of_day t mod 60 = c" by blast
  ultimately show ?thesis using clock_parts [of "second_of_day t"] by simp
qed

lemma read_clock_pad:
  assumes "0 \<le> h" "h \<le> 23" "0 \<le> m" "m \<le> 59" "0 \<le> c" "c \<le> 59"
  shows "read_clock (CHR ''T'' # pad_int 2 h @ CHR '':'' # pad_int 2 m @ CHR '':'' # pad_int 2 c @ ''Z'')
    = Some (h * hour + m * minute + c * second, ''Z'')"
  using assms by (simp add: read_clock_def read_fraction_def)

lemma time_Parse_dateText:
  assumes "0 \<le> t" "t < year_10000"
  shows "time_Parse RFC3339 (dateText t) = Some (t - t mod second)"
proof -
  let ?s = "second_of_day t"
  let ?rest = "CHR ''T'' # pad_int 2 (?s div 3600) @ CHR '':'' # pad_int 2 (?s mod 3600 div 60) @ CHR '':'' # pad_int 2 (?s mod 60) @ ''Z''"
  obtain y m d where c: "civil_of_day (day_of t) = (y, m, d)" using prod_cases3 by blast
  note v = civil_of_day_valid [OF c]
  have "0 \<le> day_of t" "day_of t < days_before_year 10000"
    using assms by (auto simp: day_of_def year_10000_def div_less_iff_less_mult)
  from civil_year_range [OF c this] have y: "0 \<le> y" "y \<le> 9999" by simp_all
  have d: "0 \<le> d" "d < 100" using v days_in_pos(2) [of m y] by simp_all
  have s: "0 \<le> ?s" "?s < 86400" by (simp_all add: second_of_day_seconds)
  have 1: "read_date (dateText t) = Some ((y, m, d), ?rest)"
    using y v d by (simp add: read_date_def dateText_def c Let_def)
  have "0 \<le> ?s div 3600" "?s div 3600 \<le> 23" "0 \<le> ?s mod 3600 div 60" "?s mod 3600 div 60 \<le> 59"
    "0 \<le> ?s mod 60" "?s mod 60 \<le> 59" using s by simp_all
  note 2 = read_clock_pad [OF this]
  have 3: "read_zone ''Z'' = Some (0, [])" by (simp add: read_zone_def)
  show ?thesis
    unfolding time_Parse_def whole_seconds 1 Option.bind.bind_lunit prod.case if_False if_True simp_thms layout.distinct 2 3
    using v by (simp add: 3)
qed

text \<open>
  The dates the probes print are dates an expiry job reads: from the first second of
  year 1 to the end of year 9999, \<^verbatim>\<open>ParseExpiryDate\<close> gives back the instant \<^verbatim>\<open>dateText\<close>
  printed, to the second, through the calendar's leap years and the lengths of its months.
\<close>

theorem expiry_date_roundtrip:
  assumes "second \<le> t" "t < year_10000"
  shows "ParseExpiryDate (dateText t) = Inr (t - t mod second)"
proof -
  have "t mod second < second" by simp
  then have "t - t mod second \<noteq> 0" using assms(1) by linarith
  with assms time_Parse_dateText [of t] show ?thesis by (simp add: ParseExpiryDate_def)
qed

theorem expiry_date_roundtrip_witness:
  "ParseExpiryDate (dateText 63936950400000000007) = Inr 63936950400000000000
   \<and> dateText 63936950400000000007 = ''2027-01-31T00:00:00Z''"
proof -
  have "63936950400000000007 < year_10000" by code_simp
  with expiry_date_roundtrip [of 63936950400000000007]
  have "ParseExpiryDate (dateText 63936950400000000007) = Inr 63936950400000000000" by simp
  moreover have "dateText 63936950400000000007 = ''2027-01-31T00:00:00Z''" by code_simp
  ultimately show ?thesis ..
qed

end
