(* ===== verification/Jobs_Model.thy ===== *)
theory Jobs_Model
  imports Core_Tail
begin

text \<open>
  Jobs, runs and schedules: \<^verbatim>\<open>internal/jobs/job.go\<close>, the settings of
  \<^verbatim>\<open>spec.go\<close> that the executor and the store read, and \<^verbatim>\<open>schedule.go\<close>. The cron
  parser is a third-party package, so it is an argument of the definitions that use it:
  it maps an expression to the schedule's \<^verbatim>\<open>Next\<close>, or to nothing when it does not parse.
\<close>

section \<open>Data\<close>

text \<open>
  A job type is stored as text; any text other than the six known ones is kept as it is
  and runs as a shell job.
\<close>

datatype job_type = Shell | HTTP | TLS | Domain | Expiry | Drill | OtherType string

datatype run_status = StatusPending | StatusRunning | StatusSucceeded | StatusFailed | StatusTimedOut

definition HasSpec :: "job_type \<Rightarrow> bool" where
  "HasSpec t = (t = TLS \<or> t = Domain \<or> t = Expiry \<or> t = Drill)"

record job =
  j_id :: int
  j_org :: int
  j_name :: string
  j_type :: job_type
  j_command :: string
  j_http_url :: string
  j_http_method :: string
  j_http_body :: string
  j_cron :: string
  j_interval :: int
  j_run_at :: gotime
  j_timeout :: int
  j_max_retries :: int
  j_enabled :: bool
  j_env :: "(string \<times> string) list"
  j_spec :: "string option"   \<comment> \<open>the settings of a probe or a drill, as encoded\<close>
  j_next_run :: gotime
  j_created :: gotime
  j_updated :: gotime

record run =
  r_id :: int
  r_org :: int
  r_job :: int
  r_status :: run_status
  r_attempt :: int
  r_exit :: int
  r_output :: string
  r_claimed_by :: string
  r_started :: gotime
  r_ended :: gotime
  r_created :: gotime

definition terminal :: "run_status \<Rightarrow> bool" where
  "terminal s = (s = StatusSucceeded \<or> s = StatusFailed \<or> s = StatusTimedOut)"

section \<open>Schedules\<close>

text \<open>The documented behaviour of a parsed schedule: strictly later, or zero for never.\<close>

type_synonym cron_parser = "string \<Rightarrow> (gotime \<Rightarrow> gotime) option"

definition cron_next_later :: "cron_parser \<Rightarrow> bool" where
  "cron_next_later parse \<longleftrightarrow>
     (\<forall>e nxt t. parse e = Some nxt \<longrightarrow> nxt t = 0 \<or> t < nxt t)"

definition ValidateCron :: "cron_parser \<Rightarrow> string \<Rightarrow> bool" where
  "ValidateCron parse expr = (case parse expr of None \<Rightarrow> False | Some _ \<Rightarrow> True)"

datatype schedule_error = BadCron | NoSchedule

definition NextRun :: "cron_parser \<Rightarrow> job \<Rightarrow> gotime \<Rightarrow> schedule_error + gotime" where
  "NextRun parse j now =
     (if j_cron j \<noteq> [] then
        (case parse (j_cron j) of
           None \<Rightarrow> Inl BadCron
         | Some nxt \<Rightarrow> Inr (nxt now))
      else if j_interval j > 0 then Inr (now + dur_seconds (j_interval j))
      else if j_run_at j \<noteq> 0 then
        (if j_run_at j > now then Inr (j_run_at j) else Inr 0)
      else Inl NoSchedule)"

text \<open>
  A schedule always moves on: the next run of a job is strictly after now, or zero for
  never again, for every interval up to 9223372036 seconds (292 years).
\<close>

theorem NextRun_later:
  assumes "cron_next_later parse" and "j_interval j \<le> 9223372036"
    and "NextRun parse j now = Inr t"
  shows "t = 0 \<or> now < t"
proof -
  have "dur_seconds (j_interval j) = j_interval j * second" if "0 < j_interval j"
    using that assms(2) by (intro dur_seconds_id) simp
  with assms(1,3) show ?thesis
    by (auto simp: NextRun_def cron_next_later_def split: if_splits option.splits)
qed

theorem NextRun_later_witness:
  "NextRun (\<lambda>e. if e = ''* * * * *'' then Some (\<lambda>t. (t div minute + 1) * minute) else None)
     \<lparr>j_id = 1, j_org = 1, j_name = ''a'', j_type = Shell, j_command = ''true'',
      j_http_url = [], j_http_method = [], j_http_body = [], j_cron = [],
      j_interval = 60, j_run_at = 0, j_timeout = 0, j_max_retries = 0, j_enabled = True,
      j_env = [], j_spec = None, j_next_run = 0, j_created = 0, j_updated = 0\<rparr> 5 = Inr (5 + 60 * second)
   \<and> (5 + 60 * second = 0 \<or> 5 < 5 + 60 * second)"
proof -
  let ?parse = "\<lambda>e. if e = ''* * * * *'' then Some (\<lambda>t. (t div minute + 1) * minute) else None"
  let ?j = "\<lparr>j_id = 1, j_org = 1, j_name = ''a'', j_type = Shell, j_command = ''true'',
      j_http_url = [], j_http_method = [], j_http_body = [], j_cron = [],
      j_interval = 60, j_run_at = 0, j_timeout = 0, j_max_retries = 0, j_enabled = True,
      j_env = [], j_spec = None, j_next_run = 0, j_created = 0, j_updated = 0\<rparr>"
  have later: "t < (t div minute + 1) * minute" for t :: int
    using minus_mod_eq_div_mult [of t minute] pos_mod_bound [of minute t] by (simp add: algebra_simps)
  have p: "cron_next_later ?parse" unfolding cron_next_later_def using later by (auto split: if_splits)
  have "dur_seconds 60 = 60 * second" by (rule dur_seconds_id) simp
  then have n: "NextRun ?parse ?j 5 = Inr (5 + 60 * second)" by (simp add: NextRun_def)
  with NextRun_later [OF p _ n] show ?thesis by simp
qed

text \<open>
  A larger interval wraps around in \<^verbatim>\<open>time.Duration(j.IntervalSeconds) * time.Second\<close>, and
  the next run then lies in the past.
\<close>

theorem NextRun_interval_wraps:
  assumes "j_cron j = []" "j_interval j = 9223372037"
  shows "\<exists>t. NextRun parse j now = Inr t \<and> t < now"
  using assms by (simp add: NextRun_def dur_seconds_def wrap64_def)

theorem NextRun_interval_wraps_witness:
  "\<exists>t. NextRun (\<lambda>_. None)
     \<lparr>j_id = 1, j_org = 1, j_name = ''a'', j_type = Shell, j_command = ''true'',
      j_http_url = [], j_http_method = [], j_http_body = [], j_cron = [],
      j_interval = 9223372037, j_run_at = 0, j_timeout = 0, j_max_retries = 0, j_enabled = True,
      j_env = [], j_spec = None, j_next_run = 0, j_created = 0, j_updated = 0\<rparr> 5 = Inr t \<and> t < 5"
  by (rule NextRun_interval_wraps) simp_all

end
