(* ===== verification/Jobs_Redact.thy ===== *)
theory Jobs_Redact
  imports Go_Text
begin

text \<open>
  The text a run stores (\<^verbatim>\<open>internal/jobs/runner.go\<close>): dropping NUL bytes, cleaning,
  redacting secret values and holding the result to the output cap. The main result is
  that \<open>redact\<close>, which collects, sorts and merges spans, computes the specification
  \<open>redact_spec\<close>: every byte some secret covers goes, and each run of covered bytes
  becomes one \<^verbatim>\<open>***\<close>.
\<close>

section \<open>Cleaning\<close>

definition dropNULs :: "string \<Rightarrow> string" where
  "dropNULs s = filter (\<lambda>c. c \<noteq> CHR 0x00) s"

text \<open>U+FFFD in UTF-8.\<close>

definition replacement :: string where
  "replacement = [CHR 0xEF, CHR 0xBF, CHR 0xBD]"

definition cleanOutput :: "string \<Rightarrow> string" where
  "cleanOutput s =
     (if valid_utf8 s \<and> CHR 0x00 \<notin> set s then s
      else to_valid_utf8 replacement (dropNULs s))"

definition maxOutputBytes :: nat where
  "maxOutputBytes = 1048576"

definition truncationMarker :: string where
  "truncationMarker = newline # ''... [output truncated at 1MiB]''"

definition capOutput :: "string \<Rightarrow> bool \<Rightarrow> string" where
  "capOutput s truncated =
     (if length s > maxOutputBytes
      then take (cut_back s maxOutputBytes) s @ truncationMarker
      else if truncated then s @ truncationMarker
      else s)"

section \<open>Redaction\<close>

text \<open>\<^verbatim>\<open>strings.Index\<close>: the offset of the first occurrence.\<close>

fun str_index :: "string \<Rightarrow> string \<Rightarrow> nat option" where
  "str_index [] v = (if v = [] then Some 0 else None)"
| "str_index (c # s) v =
     (if take (length v) (c # s) = v then Some 0 else map_option Suc (str_index s v))"

text \<open>
  A match is joined to the last span when it starts inside it or right at its end,
  otherwise it is a new span.
\<close>

definition add_span :: "(nat \<times> nat) list \<Rightarrow> nat \<Rightarrow> nat \<Rightarrow> (nat \<times> nat) list" where
  "add_span spans a b =
     (if spans \<noteq> [] \<and> snd (last spans) \<ge> a \<and> fst (last spans) \<le> a
      then butlast spans @ [(fst (last spans), max (snd (last spans)) b)]
      else spans @ [(a, b)])"

text \<open>
  The loop over the matches of one secret. The next search starts one byte after the last
  match, so it never starts past the end of the text: the first branch is not reached.
\<close>

function find_spans :: "string \<Rightarrow> string \<Rightarrow> nat \<Rightarrow> (nat \<times> nat) list \<Rightarrow> (nat \<times> nat) list" where
  "find_spans s v i spans =
     (if length s < i then spans
      else case str_index (drop i s) v of
        None \<Rightarrow> spans
      | Some j \<Rightarrow> find_spans s v (i + j + 1) (add_span spans (i + j) (i + j + length v)))"
  by pat_completeness auto
termination
  by (relation "measure (\<lambda>(s, v, i, spans). Suc (length s) - i)") auto

declare find_spans.simps [simp del]

definition secret_spans :: "string \<Rightarrow> (nat \<times> nat) list \<Rightarrow> string \<Rightarrow> (nat \<times> nat) list" where
  "secret_spans s spans v = (if v = [] then spans else find_spans s v 0 spans)"

definition stars :: string where "stars = ''***''"

text \<open>The loop over the sorted spans; \<open>done\<close> is the end of the text already written.\<close>

fun write_spans :: "string \<Rightarrow> nat \<Rightarrow> nat \<times> nat \<Rightarrow> (nat \<times> nat) list \<Rightarrow> string" where
  "write_spans s done (a, b) [] = take (a - done) (drop done s) @ stars @ drop b s"
| "write_spans s done (a, b) ((a', b') # sps) =
     (if a' \<le> b then write_spans s done (a, max b b') sps
      else take (a - done) (drop done s) @ stars @ write_spans s b (a', b') sps)"

definition redact :: "string \<Rightarrow> string list \<Rightarrow> string" where
  "redact s secretValues =
     (let spans = foldl (secret_spans s) [] secretValues in
      case sort_key fst spans of
        [] \<Rightarrow> s
      | cur # sps \<Rightarrow> write_spans s 0 cur sps)"

text \<open>
  \<^verbatim>\<open>strings.Trim(c, "\uFFFD") == ""\<close> for clean text: nothing but replacement characters.
\<close>

function only_replacement :: "string \<Rightarrow> bool" where
  "only_replacement c =
     (if c = [] then True
      else if take 3 c = replacement then only_replacement (drop 3 c)
      else False)"
  by pat_completeness auto
termination
  by (relation "measure length") auto

declare only_replacement.simps [simp del]

definition storedOutput :: "string \<Rightarrow> string list \<Rightarrow> bool \<Rightarrow> string" where
  "storedOutput raw secretValues truncated =
     (let bytewise = filter (\<lambda>b. cleanOutput b \<noteq> b) (map dropNULs secretValues);
          cleaned = filter (\<lambda>c. \<not> only_replacement c)
                      (map (\<lambda>v. cleanOutput (dropNULs v)) secretValues);
          raw' = (if truncated then trim_suffix raw truncationMarker else raw)
      in capOutput (redact (cleanOutput (redact (dropNULs raw') bytewise)) cleaned) truncated)"

section \<open>What redaction should do\<close>

text \<open>Secret \<open>v\<close> occurs in \<open>s\<close> at \<open>p\<close>; byte \<open>i\<close> of \<open>s\<close> is covered by a secret.\<close>

definition occurs_at :: "string \<Rightarrow> string \<Rightarrow> nat \<Rightarrow> bool" where
  "occurs_at s v p \<longleftrightarrow> p + length v \<le> length s \<and> take (length v) (drop p s) = v"

definition covered :: "string \<Rightarrow> string list \<Rightarrow> nat \<Rightarrow> bool" where
  "covered s vs i \<longleftrightarrow>
     list_ex (\<lambda>v. list_ex (\<lambda>p. i < p + length v \<and> occurs_at s v p) [0..<Suc i]) vs"

fun mark :: "(nat \<Rightarrow> bool) \<Rightarrow> nat \<Rightarrow> bool \<Rightarrow> string \<Rightarrow> string" where
  "mark C i prev [] = []"
| "mark C i prev (c # s) =
     (if C i then (if prev then [] else stars) @ mark C (Suc i) True s
      else c # mark C (Suc i) False s)"

definition redact_spec :: "string \<Rightarrow> string list \<Rightarrow> string" where
  "redact_spec s vs = mark (covered s vs) 0 False s"

lemma covered_iff:
  "covered s vs i \<longleftrightarrow> (\<exists>v \<in> set vs. \<exists>p. p \<le> i \<and> i < p + length v \<and> occurs_at s v p)"
  unfolding covered_def list_ex_iff set_upt by (simp add: Bex_def less_Suc_eq_le)

lemma covered_bound: "covered s vs i \<Longrightarrow> i < length s"
  by (auto simp: covered_iff occurs_at_def)

section \<open>The search\<close>

lemma str_index_Some:
  "str_index s v = Some j \<Longrightarrow> occurs_at s v j \<and> (\<forall>k < j. \<not> occurs_at s v k)"
proof (induction s v arbitrary: j rule: str_index.induct)
  case (1 v)
  then show ?case by (auto simp: occurs_at_def split: if_splits)
next
  case (2 c s v)
  show ?case
  proof (cases "take (length v) (c # s) = v")
    case True
    then have "length v \<le> Suc (length s)" by (metis length_Cons length_take min_def nle_le)
    with True "2.prems" show ?thesis by (simp add: occurs_at_def)
  next
    case False
    with "2.prems" obtain j' where j: "j = Suc j'" "str_index s v = Some j'" by auto
    with "2.IH" False have "occurs_at s v j'" "\<forall>k < j'. \<not> occurs_at s v k" by auto
    with j(1) False show ?thesis by (auto simp: occurs_at_def less_Suc_eq_0_disj)
  qed
qed

lemma str_index_None: "str_index s v = None \<Longrightarrow> \<not> occurs_at s v k"
proof (induction s v arbitrary: k rule: str_index.induct)
  case (2 c s v)
  then show ?case by (cases k) (auto simp: occurs_at_def split: if_splits)
qed (auto simp: occurs_at_def split: if_splits)

lemma occurs_at_drop: "i \<le> length s \<Longrightarrow> occurs_at (drop i s) v k \<longleftrightarrow> occurs_at s v (i + k)"
  by (auto simp: occurs_at_def add.commute add.left_commute)

section \<open>The spans\<close>

definition span_bytes :: "(nat \<times> nat) list \<Rightarrow> nat set" where
  "span_bytes spans = (\<Union>(a, b) \<in> set spans. {a..<b})"

definition match_bytes :: "string \<Rightarrow> string \<Rightarrow> nat \<Rightarrow> nat set" where
  "match_bytes s v i = {q. \<exists>p. i \<le> p \<and> p \<le> q \<and> q < p + length v \<and> occurs_at s v p}"

definition good_spans :: "string \<Rightarrow> (nat \<times> nat) list \<Rightarrow> bool" where
  "good_spans s spans \<longleftrightarrow> (\<forall>(a, b) \<in> set spans. a < b \<and> b \<le> length s)"

lemma span_bytes_simps [simp]:
  "span_bytes [] = {}"
  "span_bytes ((a, b) # sps) = {a..<b} \<union> span_bytes sps"
  "span_bytes (sps @ sps') = span_bytes sps \<union> span_bytes sps'"
  by (auto simp: span_bytes_def)

lemma add_span_last:
  obtains "spans \<noteq> []" "snd (last spans) \<ge> a" "fst (last spans) \<le> a"
    "add_span spans a b = butlast spans @ [(fst (last spans), max (snd (last spans)) b)]"
    "spans = butlast spans @ [(fst (last spans), snd (last spans))]"
  | "add_span spans a b = spans @ [(a, b)]"
  by (cases "spans \<noteq> [] \<and> snd (last spans) \<ge> a \<and> fst (last spans) \<le> a")
     (auto simp: add_span_def)

lemma span_bytes_add: "span_bytes (add_span spans a b) = span_bytes spans \<union> {a..<b}"
proof (rule add_span_last [of spans a b])
  assume h: "snd (last spans) \<ge> a" "fst (last spans) \<le> a"
    and eq: "add_span spans a b = butlast spans @ [(fst (last spans), max (snd (last spans)) b)]"
    and sp: "spans = butlast spans @ [(fst (last spans), snd (last spans))]"
  have "span_bytes spans = span_bytes (butlast spans) \<union> {fst (last spans)..<snd (last spans)}"
    by (subst sp) (simp add: span_bytes_def case_prod_beta Un_commute)
  moreover have "{fst (last spans)..<max (snd (last spans)) b} = {fst (last spans)..<snd (last spans)} \<union> {a..<b}"
    using h by auto
  ultimately show ?thesis by (simp add: eq Un_assoc)
qed auto

lemma good_spans_add:
  assumes "good_spans s spans" "a < b" "b \<le> length s"
  shows "good_spans s (add_span spans a b)"
proof (rule add_span_last [of spans a b])
  assume eq: "add_span spans a b = butlast spans @ [(fst (last spans), max (snd (last spans)) b)]"
    and ne: "spans \<noteq> []"
  have "\<forall>(c, d) \<in> set spans. c < d \<and> d \<le> length s"
    using assms(1) by (simp add: good_spans_def)
  then have "fst (last spans) < snd (last spans)" "snd (last spans) \<le> length s"
    using last_in_set [OF ne] by (auto simp: case_prod_beta)
  with assms show ?thesis
    unfolding eq good_spans_def by (auto dest: in_set_butlastD)
qed (use assms in \<open>auto simp: good_spans_def\<close>)

lemma match_bytes_step:
  assumes "occurs_at s v j" "i \<le> j" "\<And>k. i \<le> k \<Longrightarrow> k < j \<Longrightarrow> \<not> occurs_at s v k"
  shows "match_bytes s v i = {j..<j + length v} \<union> match_bytes s v (Suc j)"
proof -
  have "{p. i \<le> p \<and> occurs_at s v p} = insert j {p. Suc j \<le> p \<and> occurs_at s v p}"
  proof (intro set_eqI iffI)
    fix p assume "p \<in> {p. i \<le> p \<and> occurs_at s v p}"
    then show "p \<in> insert j {p. Suc j \<le> p \<and> occurs_at s v p}"
      using assms(3) [of p] by (cases "p < j") auto
  qed (use assms in auto)
  moreover have "match_bytes s v k = (\<Union>p \<in> {p. k \<le> p \<and> occurs_at s v p}. {p..<p + length v})" for k
    by (auto simp: match_bytes_def)
  ultimately show ?thesis by simp
qed

lemma find_spans_bytes:
  "v \<noteq> [] \<Longrightarrow> i \<le> length s \<Longrightarrow> good_spans s spans \<Longrightarrow>
   span_bytes (find_spans s v i spans) = span_bytes spans \<union> match_bytes s v i
   \<and> good_spans s (find_spans s v i spans)"
proof (induction s v i spans rule: find_spans.induct)
  case (1 s v i spans)
  show ?case
  proof (cases "str_index (drop i s) v")
    case None
    with "1.prems"(2) have "\<not> occurs_at s v p" if "i \<le> p" for p
      using str_index_None [OF None, of "p - i"] occurs_at_drop [of i s v "p - i"] that by simp
    then have "match_bytes s v i = {}" by (auto simp: match_bytes_def)
    with None "1.prems" show ?thesis by (simp add: find_spans.simps [of s v i spans])
  next
    case (Some j)
    let ?sp = "add_span spans (i + j) (i + j + length v)"
    have occ: "occurs_at s v (i + j)"
      and first: "\<And>k. i \<le> k \<Longrightarrow> k < i + j \<Longrightarrow> \<not> occurs_at s v k"
      using str_index_Some [OF Some] occurs_at_drop [OF "1.prems"(2), of v]
      by (auto simp: le_iff_add)
    have bound: "i + j + length v \<le> length s" "0 < length v"
      using occ "1.prems"(1) by (simp_all add: occurs_at_def)
    then have "good_spans s ?sp" using "1.prems"(3) by (intro good_spans_add) auto
    with Some "1.IH" "1.prems" bound
    have IH: "span_bytes (find_spans s v (i + j + 1) ?sp) = span_bytes ?sp \<union> match_bytes s v (i + j + 1)
        \<and> good_spans s (find_spans s v (i + j + 1) ?sp)"
      by simp
    have "match_bytes s v i = {i + j..<i + j + length v} \<union> match_bytes s v (i + j + 1)"
      using match_bytes_step [OF occ _ first] by simp
    with IH Some "1.prems"(2) show ?thesis
      by (auto simp: find_spans.simps [of s v i spans] span_bytes_add)
  qed
qed

lemma fold_spans:
  "good_spans s spans \<Longrightarrow>
   span_bytes (foldl (secret_spans s) spans vs)
     = span_bytes spans \<union> (\<Union>v \<in> set vs. match_bytes s v 0)
   \<and> good_spans s (foldl (secret_spans s) spans vs)"
proof (induction vs arbitrary: spans)
  case Nil
  then show ?case by simp
next
  case (Cons v vs)
  let ?sp = "secret_spans s spans v"
  have "span_bytes ?sp = span_bytes spans \<union> match_bytes s v 0 \<and> good_spans s ?sp"
    using find_spans_bytes [of v 0 s spans] Cons.prems
    by (auto simp: secret_spans_def match_bytes_def)
  with Cons.IH [of ?sp] show ?case by auto
qed

lemma all_spans:
  "span_bytes (foldl (secret_spans s) [] vs) = {i. covered s vs i}"
  "good_spans s (foldl (secret_spans s) [] vs)"
  using fold_spans [of s "[]" vs] by (auto simp: good_spans_def match_bytes_def covered_iff)

section \<open>Writing\<close>

lemma mark_uncovered:
  "(\<And>j. i \<le> j \<Longrightarrow> j < i + k \<Longrightarrow> \<not> C j) \<Longrightarrow> k \<le> length s \<Longrightarrow>
   mark C i False s = take k s @ mark C (i + k) False (drop k s)"
proof (induction k arbitrary: i s)
  case (Suc k)
  then obtain c t where "s = c # t" by (cases s) auto
  with Suc show ?case by simp
qed simp

lemma mark_covered_run:
  "(\<And>j. i \<le> j \<Longrightarrow> j < i + k \<Longrightarrow> C j) \<Longrightarrow> k \<le> length s \<Longrightarrow>
   mark C i True s = mark C (i + k) True (drop k s)"
proof (induction k arbitrary: i s)
  case (Suc k)
  then obtain c t where "s = c # t" by (cases s) auto
  with Suc show ?case by simp
qed simp

lemma mark_covered:
  assumes "\<And>j. i \<le> j \<Longrightarrow> j < i + k \<Longrightarrow> C j" "0 < k" "k \<le> length s"
  shows "mark C i False s = stars @ mark C (i + k) True (drop k s)"
proof -
  from assms(2,3) obtain c t where s: "s = c # t" by (cases s) auto
  from assms(2) obtain k' where k: "k = Suc k'" by (cases k) auto
  have "mark C (Suc i) True t = mark C (Suc i + k') True (drop k' t)"
    by (rule mark_covered_run) (use assms s k in auto)
  with assms(1) [of i] s k show ?thesis by simp
qed

lemma mark_flag: "s = [] \<or> \<not> C i \<Longrightarrow> mark C i True s = mark C i False s"
  by (cases s) auto

lemma mark_none: "(\<And>j. i \<le> j \<Longrightarrow> j < i + length s \<Longrightarrow> \<not> C j) \<Longrightarrow> mark C i False s = s"
  using mark_uncovered [of i "length s" C s] by simp

text \<open>One span of covered bytes after uncovered ones.\<close>

lemma mark_span:
  assumes "d \<le> a" "a < b" "b \<le> length s"
    and "\<And>j. d \<le> j \<Longrightarrow> j < a \<Longrightarrow> \<not> C j" "\<And>j. a \<le> j \<Longrightarrow> j < b \<Longrightarrow> C j" "\<not> C b"
  shows "mark C d False (drop d s) = take (a - d) (drop d s) @ stars @ mark C b False (drop b s)"
proof -
  have "mark C d False (drop d s)
      = take (a - d) (drop d s) @ mark C (d + (a - d)) False (drop (a - d) (drop d s))"
    by (rule mark_uncovered) (use assms in auto)
  moreover have "mark C a False (drop a s) = stars @ mark C (a + (b - a)) True (drop (b - a) (drop a s))"
    by (rule mark_covered) (use assms in auto)
  moreover have "mark C b True (drop b s) = mark C b False (drop b s)"
    by (rule mark_flag) (use assms in auto)
  ultimately show ?thesis using assms(1,2) by simp
qed

lemma write_spans_mark:
  "sorted (map fst ((a, b) # sps)) \<Longrightarrow> good_spans s ((a, b) # sps) \<Longrightarrow> d \<le> a \<Longrightarrow>
   (\<And>j. d \<le> j \<Longrightarrow> C j \<longleftrightarrow> j \<in> span_bytes ((a, b) # sps)) \<Longrightarrow>
   write_spans s d (a, b) sps = mark C d False (drop d s)"
proof (induction s d "(a, b)" sps arbitrary: a b rule: write_spans.induct)
  case (1 s d a b)
  have "mark C b False (drop b s) = drop b s"
    by (rule mark_none) (use "1.prems" in \<open>auto simp: good_spans_def\<close>)
  moreover have "mark C d False (drop d s) = take (a - d) (drop d s) @ stars @ mark C b False (drop b s)"
    by (rule mark_span) (use "1.prems" in \<open>auto simp: good_spans_def\<close>)
  ultimately show ?case by simp
next
  case (2 s d a b a' b' sps)
  have starts: "a \<le> a'" "\<And>c e. (c, e) \<in> set sps \<Longrightarrow> a' \<le> c"
    using "2.prems"(1) by auto
  show ?case
  proof (cases "a' \<le> b")
    case True
    have "{a..<b} \<union> {a'..<b'} = {a..<max b b'}" using starts(1) True by auto
    then have "span_bytes ((a, max b b') # sps) = span_bytes ((a, b) # (a', b') # sps)" by auto
    moreover have "sorted (map fst ((a, max b b') # sps))"
      using "2.prems"(1) starts by auto
    moreover have "good_spans s ((a, max b b') # sps)"
      using "2.prems"(2) by (auto simp: good_spans_def)
    ultimately have "write_spans s d (a, max b b') sps = mark C d False (drop d s)"
      using "2.hyps"(1) [OF True] "2.prems"(3,4) by blast
    with True show ?thesis by simp
  next
    case False
    have rest: "span_bytes ((a', b') # sps) \<subseteq> {a'..}"
      using starts(2) by (fastforce simp: span_bytes_def)
    have C: "C j \<longleftrightarrow> j \<in> {a..<b} \<or> j \<in> span_bytes ((a', b') # sps)" if "d \<le> j" for j
      using "2.prems"(4) [OF that] by simp
    have ab: "a < b" "b \<le> length s" "d \<le> b"
      using "2.prems"(2,3) by (auto simp: good_spans_def)
    have "write_spans s b (a', b') sps = mark C b False (drop b s)"
    proof (rule "2.hyps"(2) [OF False])
      show "C j \<longleftrightarrow> j \<in> span_bytes ((a', b') # sps)" if "b \<le> j" for j
        using C [of j] that ab by auto
    qed (use "2.prems"(1,2) False in \<open>auto simp: good_spans_def\<close>)
    moreover have "mark C d False (drop d s) = take (a - d) (drop d s) @ stars @ mark C b False (drop b s)"
    proof (rule mark_span)
      show "\<not> C j" if "d \<le> j" "j < a" for j
        using C [OF that(1)] that(2) rest starts(1) by force
      show "\<not> C b" using C [OF ab(3)] rest False by force
    qed (use "2.prems"(3) ab C in auto)
    ultimately show ?thesis using False by simp
  qed
qed

lemma redact_eq_spec: "redact s vs = redact_spec s vs"
proof -
  let ?spans = "foldl (secret_spans s) [] vs"
  let ?sorted = "sort_key fst ?spans"
  have bytes: "span_bytes ?sorted = {i. covered s vs i}"
    using all_spans(1) [of s vs] by (simp add: span_bytes_def)
  have good: "good_spans s ?sorted"
    using all_spans(2) [of s vs] by (simp add: good_spans_def)
  show ?thesis
  proof (cases ?sorted)
    case Nil
    with bytes have "\<And>i. \<not> covered s vs i" by simp
    with Nil show ?thesis by (simp add: redact_def redact_spec_def mark_none)
  next
    case (Cons cur sps)
    obtain a b where cur: "cur = (a, b)" by (cases cur)
    have "sorted (map fst ((a, b) # sps))"
      using sorted_sort_key [of fst ?spans] Cons cur by simp
    then have "write_spans s 0 (a, b) sps = mark (covered s vs) 0 False (drop 0 s)"
      by (rule write_spans_mark) (use good bytes Cons cur in auto)
    with Cons cur show ?thesis by (simp add: redact_def redact_spec_def)
  qed
qed

text \<open>
  C22: Redaction by sorted and merged spans computes its specification: every byte covered
  by an occurrence of some secret is removed, and each run of covered bytes becomes one
  \<^verbatim>\<open>***\<close>; every other byte is kept.
\<close>

theorem redact_correct: "redact s vs = redact_spec s vs"
  by (rule redact_eq_spec)

text \<open>
  The result of redaction does not depend on the order or the repetition of the
  secrets, which come from a map and so arrive in any order.
\<close>

theorem redact_order_irrelevant:
  assumes "set vs = set ws"
  shows "redact s vs = redact s ws"
proof -
  have "covered s vs = covered s ws"
    using assms by (auto simp: covered_iff fun_eq_iff)
  then show ?thesis by (simp add: redact_eq_spec redact_spec_def)
qed

theorem redact_order_irrelevant_witness:
  "redact ''xabcdx'' [''abc'', ''cd''] = ''x***x''"
proof -
  have e: "set [''abc'', ''cd''] = set [''cd'', ''abc'']" by auto
  have "redact ''xabcdx'' [''cd'', ''abc''] = ''x***x''" by code_simp
  then show ?thesis by (rule trans [OF redact_order_irrelevant [OF e]])
qed

end
