(* ===== verification/Jobs_Capture.thy ===== *)
theory Jobs_Capture
  imports Jobs_Redact
begin

text \<open>
  Captures of a step's output: \<^verbatim>\<open>internal/jobs/capture.go\<close>, the capped buffer of
  \<^verbatim>\<open>executor.go\<close> and the head-and-tail buffer of \<^verbatim>\<open>drill.go\<close>. The results: a capped
  buffer keeps the first bytes of the NUL-free concatenation of what was written, however
  it was split into writes; the ring buffer of a drill step keeps exactly the first and
  the last bytes; and the cut \<open>headOf\<close> makes never splits a secret, so that redacting
  what it keeps hides every byte that redacting the whole capture would have hidden.
\<close>

section \<open>Cuts\<close>

text \<open>The search back through at most three bytes for the start of the last character.\<close>

fun trim_partial_from :: "nat \<Rightarrow> nat \<Rightarrow> string \<Rightarrow> string" where
  "trim_partial_from 0 i b = b"
| "trim_partial_from (Suc n) i b =
     (if i \<le> length b then
        (if rune_start (b ! (length b - i))
         then (if full_rune (drop (length b - i) b) then b else take (length b - i) b)
         else trim_partial_from n (Suc i) b)
      else b)"

definition trimPartialRune :: "string \<Rightarrow> string" where
  "trimPartialRune b = trim_partial_from 3 1 b"

text \<open>
  The loop of \<^verbatim>\<open>headOf\<close> over the matches of one secret that start before \<open>n\<close>, in the
  window \<open>b[i:hi]\<close>.
\<close>

function head_end :: "string \<Rightarrow> nat \<Rightarrow> string \<Rightarrow> nat \<Rightarrow> nat \<Rightarrow> nat \<Rightarrow> nat" where
  "head_end b n v hi i end =
     (if i < n then
        (case str_index (drop i (take hi b)) v of
           None \<Rightarrow> end
         | Some at \<Rightarrow>
             if n \<le> i + at then end
             else head_end b n v hi (i + at + 1) (max end (i + at + length v)))
      else end)"
  by pat_completeness auto
termination
  by (relation "measure (\<lambda>(b, n, v, hi, i, end). n - i)") auto

declare head_end.simps [simp del]

definition head_secret :: "string \<Rightarrow> nat \<Rightarrow> nat \<Rightarrow> string \<Rightarrow> nat" where
  "head_secret b n end v =
     (if length v < 2 then end
      else head_end b n v (min (length b) (n + length v - 1)) (n + 1 - length v) end)"

definition headOf :: "string \<Rightarrow> nat \<Rightarrow> string list \<Rightarrow> bool \<Rightarrow> string \<times> bool" where
  "headOf b n secrets lost =
     (if length b \<le> n then
        (if lost then (trimPartialRune b, True) else (b, False))
      else
        let end = foldl (head_secret b n) n secrets in
        if end = n then (trimPartialRune (take end b), True)
        else (take end b, True))"

function tail_start :: "string \<Rightarrow> nat \<Rightarrow> string \<Rightarrow> nat \<Rightarrow> nat \<Rightarrow> nat \<Rightarrow> nat" where
  "tail_start b at v hi i start =
     (if i < at then
        (case str_index (drop i (take hi b)) v of
           None \<Rightarrow> start
         | Some j \<Rightarrow>
             if at \<le> i + j then start
             else tail_start b at v hi (i + j + 1) (min start (i + j)))
      else start)"
  by pat_completeness auto
termination
  by (relation "measure (\<lambda>(b, at, v, hi, i, start). at - i)") auto

declare tail_start.simps [simp del]

definition tail_secret :: "string \<Rightarrow> nat \<Rightarrow> nat \<Rightarrow> string \<Rightarrow> nat" where
  "tail_secret b at start v =
     (if length v < 2 then start
      else tail_start b at v (min (length b) (at + length v - 1)) (at + 1 - length v) start)"

definition tailOf :: "string \<Rightarrow> nat \<Rightarrow> string list \<Rightarrow> bool \<Rightarrow> string \<times> bool" where
  "tailOf b n secrets lost =
     (if length b \<le> n then
        (if lost then (skip_to_rune b, True) else (b, False))
      else
        let at = length b - n;
            start = foldl (tail_secret b at) at secrets;
            tail = drop start b
        in (if start = at then skip_to_rune tail else tail, True))"

definition firstBytes :: "string \<Rightarrow> nat \<Rightarrow> string" where
  "firstBytes s n = (if length s \<le> n then s else trimPartialRune (take n s))"

definition lastBytes :: "string \<Rightarrow> nat \<Rightarrow> string" where
  "lastBytes s n = (if length s \<le> n then s else skip_to_rune (drop (length s - n) s))"

definition secretMargin :: "string list \<Rightarrow> nat" where
  "secretMargin secrets = foldl (\<lambda>m v. max m (length v)) 0 secrets"

definition cutRedacted :: "string \<Rightarrow> bool \<Rightarrow> nat \<Rightarrow> string list \<Rightarrow> string \<Rightarrow> string" where
  "cutRedacted b truncated mx secrets marker =
     (let (head, cut) = headOf b mx secrets truncated;
          s = redact head secrets;
          (s', cut') = (if length s > mx then (firstBytes s mx, True) else (s, cut))
      in if cut' \<or> truncated then s' @ marker else s')"

section \<open>The capped buffer\<close>

record capped_buffer =
  cb_buf :: string
  cb_max :: int
  cb_truncated :: bool

definition withoutNULs :: "string \<Rightarrow> string" where
  "withoutNULs p = (if CHR 0x00 \<notin> set p then p else filter (\<lambda>c. c \<noteq> CHR 0x00) p)"

definition cb_Write :: "capped_buffer \<Rightarrow> string \<Rightarrow> nat \<times> capped_buffer" where
  "cb_Write c p0 =
     (let n = length p0; p = withoutNULs p0; room = cb_max c - int (length (cb_buf c)) in
      (n, if room > 0 then
            (if int (length p) > room
             then c\<lparr>cb_buf := cb_buf c @ take (nat room) p, cb_truncated := True\<rparr>
             else c\<lparr>cb_buf := cb_buf c @ p\<rparr>)
          else if length p > 0 then c\<lparr>cb_truncated := True\<rparr>
          else c))"

definition cb_String :: "capped_buffer \<Rightarrow> string" where
  "cb_String c =
     (if cb_truncated c then trimPartialRune (cb_buf c) @ truncationMarker else cb_buf c)"

definition shellOutput :: "capped_buffer \<Rightarrow> string list \<Rightarrow> string" where
  "shellOutput c secrets =
     (if \<not> cb_truncated c then cb_buf c
      else fst (headOf (cb_buf c) maxOutputBytes secrets True) @ truncationMarker)"

section \<open>The head-and-tail buffer\<close>

record head_tail =
  ht_max :: nat
  ht_margin :: nat
  ht_head :: string
  ht_ring :: string
  ht_pos :: nat
  ht_rest :: nat

text \<open>
  \<^verbatim>\<open>copy(dst[at:], src)\<close>: overwrites bytes from \<open>at\<close> on, as many as fit, and returns how
  many. The ring is nil until the head is full.
\<close>

definition copy_at :: "string \<Rightarrow> nat \<Rightarrow> string \<Rightarrow> nat \<times> string" where
  "copy_at dst at src =
     (let k = min (length dst - at) (length src)
      in (k, take at dst @ take k src @ drop (at + k) dst))"

definition ht_Write :: "head_tail \<Rightarrow> string \<Rightarrow> nat \<times> head_tail" where
  "ht_Write h p0 =
     (let n = length p0; p = withoutNULs p0;
          keep = ht_max h + ht_margin h;
          k = (if keep > length (ht_head h) then min (keep - length (ht_head h)) (length p) else 0);
          h1 = h\<lparr>ht_head := ht_head h @ take k p\<rparr>;
          p1 = drop k p
      in if p1 = [] then (n, h1)
         else
           let ring = (if ht_ring h1 = [] then replicate keep (CHR 0x00) else ht_ring h1);
               h2 = h1\<lparr>ht_ring := ring, ht_rest := ht_rest h1 + length p1\<rparr>
           in if keep \<le> length p1
              then (n, h2\<lparr>ht_ring := snd (copy_at ring 0 (drop (length p1 - keep) p1)), ht_pos := 0\<rparr>)
              else
                let (k1, r1) = copy_at ring (ht_pos h2) p1;
                    r2 = snd (copy_at r1 0 (drop k1 p1))
                in (n, h2\<lparr>ht_ring := r2, ht_pos := (ht_pos h2 + length p1) mod keep\<rparr>))"

text \<open>The bytes kept at the end, in the order they were written.\<close>

definition ht_tail :: "head_tail \<Rightarrow> string" where
  "ht_tail h =
     (let keep = ht_max h + ht_margin h in
      if ht_rest h \<le> keep then take (ht_rest h) (ht_ring h)
      else drop (ht_pos h) (ht_ring h) @ take (ht_pos h) (ht_ring h))"

text \<open>\<^verbatim>\<open>cutMiddle\<close> and \<^verbatim>\<open>headTail.text\<close>. The marker is the text around the count of bytes.\<close>

definition cutMiddle :: "string \<Rightarrow> string \<Rightarrow> int \<Rightarrow> string" where
  "cutMiddle head tail skipped =
     trimPartialRune head
     @ newline # ''... ['' @ dec skipped @ '' bytes skipped] ...'' @ [newline]
     @ skip_to_rune tail"

definition ht_text :: "head_tail \<Rightarrow> string list \<Rightarrow> string" where
  "ht_text h secrets =
     (let keep = ht_max h + ht_margin h; tail = ht_tail h in
      if ht_rest h \<le> keep then
        let whole = redact (ht_head h @ tail) secrets in
        if length whole \<le> 2 * ht_max h then whole
        else cutMiddle (take (ht_max h) whole) (drop (length whole - ht_max h) whole)
               (int (length whole - 2 * ht_max h))
      else
        let rawHead = fst (headOf (ht_head h) (ht_max h) secrets True);
            rawTail = fst (tailOf tail (ht_max h) secrets True);
            skipped = int (ht_rest h) + int (length (ht_head h)) - int (length rawHead) - int (length rawTail)
        in cutMiddle (firstBytes (redact rawHead secrets) (ht_max h))
             (lastBytes (redact rawTail secrets) (ht_max h)) skipped)"

section \<open>Where a cut falls\<close>

lemma occurs_at_window:
  assumes "i \<le> hi" "hi \<le> length b"
  shows "occurs_at (drop i (take hi b)) v k \<longleftrightarrow> occurs_at b v (i + k) \<and> i + k + length v \<le> hi"
proof -
  have "take (length v) (drop k (drop i (take hi b))) = take (length v) (drop (i + k) b)"
    if "i + k + length v \<le> hi"
    using that by (simp add: take_drop add.commute add.left_commute min_def)
  with assms show ?thesis by (auto simp: occurs_at_def)
qed

text \<open>
  The first match in a window, read as the first occurrence in the whole capture.
\<close>

lemma window_None:
  assumes "str_index (drop i (take hi b)) v = None" "i \<le> p" "hi \<le> length b" "p + length v \<le> hi"
  shows "\<not> occurs_at b v p"
  using str_index_None [OF assms(1), of "p - i"] occurs_at_window [of i hi b v "p - i"] assms by auto

lemma window_Some:
  assumes "str_index (drop i (take hi b)) v = Some j" "i \<le> hi" "hi \<le> length b"
  shows "occurs_at b v (i + j)" "i + j + length v \<le> hi"
    and "\<And>p. i \<le> p \<Longrightarrow> p + length v \<le> hi \<Longrightarrow> occurs_at b v p \<Longrightarrow> i + j \<le> p"
proof -
  note w = occurs_at_window [OF assms(2,3), of v]
  show "occurs_at b v (i + j)" "i + j + length v \<le> hi"
    using str_index_Some [OF assms(1)] w by auto
  fix p assume p: "i \<le> p" "p + length v \<le> hi" "occurs_at b v p"
  show "i + j \<le> p"
  proof (rule ccontr)
    assume "\<not> i + j \<le> p"
    with p(1) have "p - i < j" by simp
    with str_index_Some [OF assms(1)] w [of "p - i"] p show False by auto
  qed
qed

lemma head_end_spec:
  assumes "n \<le> hi" "hi \<le> length b"
  shows "e \<le> head_end b n v hi i e
    \<and> (\<forall>p. i \<le> p \<longrightarrow> p < n \<longrightarrow> p + length v \<le> hi \<longrightarrow> occurs_at b v p \<longrightarrow>
           p + length v \<le> head_end b n v hi i e)
    \<and> (head_end b n v hi i e = e
       \<or> (\<exists>p < n. occurs_at b v p \<and> head_end b n v hi i e = p + length v))"
  using assms
proof (induction b n v hi i e rule: head_end.induct)
  case (1 b n v hi i e)
  note unfold = head_end.simps [of b n v hi i e]
  show ?case
  proof (cases "i < n")
    case False
    then show ?thesis by (simp add: unfold)
  next
    case i: True
    show ?thesis
    proof (cases "str_index (drop i (take hi b)) v")
      case None
      then have "\<not> occurs_at b v p" if "i \<le> p" "p + length v \<le> hi" for p
        using window_None that "1.prems" by blast
      with None show ?thesis by (auto simp: unfold)
    next
      case (Some j)
      have "i \<le> hi" using i "1.prems" by simp
      note w = window_Some [OF Some this "1.prems"(2)]
      show ?thesis
      proof (cases "n \<le> i + j")
        case True
        with Some i have "head_end b n v hi i e = e" by (simp add: unfold)
        with True w(3) show ?thesis by fastforce
      next
        case False
        let ?e = "head_end b n v hi (i + j + 1) (max e (i + j + length v))"
        have eq: "head_end b n v hi i e = ?e" using Some i False by (simp add: unfold)
        have IH: "max e (i + j + length v) \<le> ?e"
          "\<And>p. i + j + 1 \<le> p \<Longrightarrow> p < n \<Longrightarrow> p + length v \<le> hi \<Longrightarrow> occurs_at b v p
            \<Longrightarrow> p + length v \<le> ?e"
          "?e = max e (i + j + length v)
            \<or> (\<exists>p < n. occurs_at b v p \<and> ?e = p + length v)"
          using "1.IH" [OF i Some False "1.prems"] by auto
        have "p + length v \<le> ?e"
          if "i \<le> p" "p < n" "p + length v \<le> hi" "occurs_at b v p" for p
          using w(3) [OF that(1,3,4)] IH(1) IH(2) [OF _ that(2-4)] by (cases "p = i + j") auto
        moreover have "?e = e \<or> (\<exists>p < n. occurs_at b v p \<and> ?e = p + length v)"
          using IH(3) w(1) False by (auto simp: max_def split: if_splits)
        ultimately show ?thesis using IH(1) unfolding eq by auto
      qed
    qed
  qed
qed

lemma head_secret_spec:
  assumes "n \<le> e" "n < length b"
  shows "e \<le> head_secret b n e v"
    and "occurs_at b v p \<Longrightarrow> p < n \<Longrightarrow> p + length v \<le> head_secret b n e v"
    and "head_secret b n e v = e \<or> (\<exists>p < n. occurs_at b v p \<and> head_secret b n e v = p + length v)"
proof -
  let ?hi = "min (length b) (n + length v - 1)" and ?lo = "n + 1 - length v"
  have hi: "?hi \<le> length b" "2 \<le> length v \<Longrightarrow> n \<le> ?hi" using assms(2) by auto
  note s = head_end_spec [of n ?hi b e v ?lo]
  show "e \<le> head_secret b n e v"
    "head_secret b n e v = e \<or> (\<exists>p < n. occurs_at b v p \<and> head_secret b n e v = p + length v)"
    using s hi by (auto simp: head_secret_def)
  assume p: "occurs_at b v p" "p < n"
  show "p + length v \<le> head_secret b n e v"
  proof (cases "2 \<le> length v \<and> n < p + length v")
    case True
    then have "?lo \<le> p" "p + length v \<le> ?hi" using p by (auto simp: occurs_at_def)
    with True s hi p show ?thesis by (auto simp: head_secret_def)
  next
    case False
    with p assms(1) have "p + length v \<le> e" by auto
    with \<open>e \<le> head_secret b n e v\<close> show ?thesis by simp
  qed
qed

text \<open>Where the head ends: past every secret that starts before the cut, and no further.\<close>

lemma head_fold_spec:
  assumes "n \<le> e" "n < length b"
  shows "e \<le> foldl (head_secret b n) e vs
    \<and> (\<forall>v \<in> set vs. \<forall>p < n. occurs_at b v p \<longrightarrow> p + length v \<le> foldl (head_secret b n) e vs)
    \<and> (foldl (head_secret b n) e vs = e
       \<or> (\<exists>v \<in> set vs. \<exists>p < n. occurs_at b v p \<and> foldl (head_secret b n) e vs = p + length v))"
  using assms
proof (induction vs arbitrary: e)
  case (Cons v vs)
  note h = head_secret_spec [OF Cons.prems, of v]
  have "n \<le> head_secret b n e v" using h(1) Cons.prems(1) by simp
  note IH = Cons.IH [OF this Cons.prems(2)]
  have "p + length v \<le> foldl (head_secret b n) e (v # vs)" if "occurs_at b v p" "p < n" for p
    using h(2) [OF that] IH by simp
  with IH h(1,3) show ?case by auto
qed simp

section \<open>Cutting between characters\<close>

lemma trim_partial_from_cases:
  "trim_partial_from m i b = b
   \<or> (\<exists>k < length b. trim_partial_from m i b = take k b \<and> rune_start (b ! k)
        \<and> \<not> full_rune (drop k b))" if "0 < i"
  using that by (induction m i b rule: trim_partial_from.induct) auto

lemma trimPartialRune_cases:
  obtains "trimPartialRune b = b"
  | k where "k < length b" "trimPartialRune b = take k b" "rune_start (b ! k)"
      "\<not> full_rune (drop k b)"
  using trim_partial_from_cases [of 1 3 b] by (auto simp: trimPartialRune_def)

lemma trimPartialRune_prefix: "prefix (trimPartialRune b) b"
  by (rule trimPartialRune_cases [of b]) (auto simp: take_is_prefix)

text \<open>An occurrence of a well-formed text never straddles the place of the cut.\<close>

lemma trim_not_inside:
  assumes occ: "occurs_at b v p" and v: "valid_utf8 v"
    and p: "p < length (trimPartialRune b)"
  shows "p + length v \<le> length (trimPartialRune b)"
proof (rule trimPartialRune_cases [of b])
  assume "trimPartialRune b = b"
  with occ show ?thesis by (simp add: occurs_at_def)
next
  fix k
  assume k: "k < length b" "trimPartialRune b = take k b" "rune_start (b ! k)"
    "\<not> full_rune (drop k b)"
  show ?thesis
  proof (rule ccontr)
    assume "\<not> p + length v \<le> length (trimPartialRune b)"
    with k p have j: "p < k" "k - p < length v" by auto
    have vb: "v = take (length v) (drop p b)" using occ by (simp add: occurs_at_def)
    have "v ! (k - p) = b ! k" using j k(1) by (subst vb) simp
    with k(3) j v have val: "valid_utf8 (drop (k - p) v)" by (intro valid_utf8_drop) auto
    have "drop (k - p) v = take (length v - (k - p)) (drop k b)"
      using j by (subst vb) (simp add: drop_take)
    then have "prefix (drop (k - p) v) (drop k b)" by (metis take_is_prefix)
    moreover have "full_rune (drop (k - p) v)" using val j by (intro valid_utf8_full) auto
    ultimately show False using k(4) by (auto simp: prefix_def dest: full_rune_append)
  qed
qed

lemma occurs_at_take: "occurs_at (take k b) v p \<longleftrightarrow> occurs_at b v p \<and> p + length v \<le> min k (length b)"
proof -
  have "take (min k (length b)) b = take k b" by (simp add: min_def)
  then show ?thesis using occurs_at_window [of 0 "min k (length b)" b v p] by (auto simp: occurs_at_def)
qed

lemma occurs_at_prefix:
  assumes "prefix h b"
  shows "occurs_at h v p \<longleftrightarrow> occurs_at b v p \<and> p + length v \<le> length h"
proof -
  have "h = take (length h) b" using assms by (auto simp: prefix_def)
  then show ?thesis
    using occurs_at_take [of "length h" b v p] prefix_length_le [OF assms] by (metis min.absorb1)
qed

lemma covered_prefix:
  assumes "prefix h b" "\<And>v p. v \<in> set vs \<Longrightarrow> occurs_at b v p \<Longrightarrow> p < length h \<Longrightarrow>
      p + length v \<le> length h \<or> (\<forall>i. p \<le> i \<longrightarrow> i < length h \<longrightarrow> covered h vs i)"
    and "i < length h"
  shows "covered h vs i \<longleftrightarrow> covered b vs i"
proof
  show "covered h vs i \<Longrightarrow> covered b vs i"
    by (auto simp: covered_iff occurs_at_prefix [OF assms(1)])
  assume "covered b vs i"
  then obtain v p where v: "v \<in> set vs" "p \<le> i" "i < p + length v" "occurs_at b v p"
    by (auto simp: covered_iff)
  with assms(2) [OF v(1,4)] assms(3) show "covered h vs i"
    by (auto simp: covered_iff occurs_at_prefix [OF assms(1)])
qed

lemma headOf_prefix: "prefix (fst (headOf b n vs lost)) b"
  using prefix_order.trans [OF trimPartialRune_prefix take_is_prefix] trimPartialRune_prefix
  by (auto simp: headOf_def Let_def take_is_prefix)

lemma headOf_covered_eq:
  assumes valid: "\<forall>v \<in> set vs. valid_utf8 v" and i: "i < length (fst (headOf b n vs lost))"
  shows "covered (fst (headOf b n vs lost)) vs i \<longleftrightarrow> covered b vs i"
proof (rule covered_prefix [OF headOf_prefix _ i])
  fix v p
  let ?h = "fst (headOf b n vs lost)" and ?e = "foldl (head_secret b n) n vs"
  assume v: "v \<in> set vs" "occurs_at b v p" and p: "p < length ?h"
  have vv: "valid_utf8 v" using valid v(1) by blast
  show "p + length v \<le> length ?h \<or> (\<forall>i. p \<le> i \<longrightarrow> i < length ?h \<longrightarrow> covered ?h vs i)"
  proof (cases "length b \<le> n")
    case True
    then show ?thesis using v(2) p trim_not_inside [OF v(2) vv]
      by (auto simp: headOf_def occurs_at_def)
  next
    case False
    then have f: "n \<le> ?e" "\<And>w q. w \<in> set vs \<Longrightarrow> q < n \<Longrightarrow> occurs_at b w q \<Longrightarrow> q + length w \<le> ?e"
      "?e = n \<or> (\<exists>w \<in> set vs. \<exists>q < n. occurs_at b w q \<and> ?e = q + length w)"
      using head_fold_spec [of n n b vs] by auto
    show ?thesis
    proof (cases "?e = n")
      case True
      then have h: "?h = trimPartialRune (take n b)" using False by (simp add: headOf_def Let_def)
      have "p < n" using p h prefix_length_le [OF trimPartialRune_prefix, of "take n b"] by auto
      with f(2) [OF v(1) _ v(2)] True v(2) False have "occurs_at (take n b) v p"
        by (simp add: occurs_at_take)
      with trim_not_inside [OF _ vv] p h show ?thesis by simp
    next
      case ext: False
      then obtain w q where w: "w \<in> set vs" "q < n" "occurs_at b w q" "?e = q + length w"
        using f(3) by blast
      have h: "?h = take ?e b" using False ext by (simp add: headOf_def Let_def)
      have "?e \<le> length b" using w by (simp add: occurs_at_def)
      then have len: "length ?h = ?e" by (simp add: h)
      have "covered ?h vs j" if "n \<le> j" "j < ?e" for j
        unfolding covered_iff using w len that occurs_at_prefix [OF headOf_prefix]
        by (intro bexI [OF _ w(1)] exI [of _ q]) auto
      moreover have "p < n \<Longrightarrow> p + length v \<le> length ?h" using f(2) [OF v(1) _ v(2)] len by simp
      ultimately show ?thesis using len by force
    qed
  qed
qed

section \<open>The cut at the start of a tail\<close>

lemma tail_start_spec:
  assumes "at \<le> hi" "hi \<le> length b"
  shows "tail_start b at v hi i st \<le> st
    \<and> (\<forall>p. i \<le> p \<longrightarrow> p < at \<longrightarrow> p + length v \<le> hi \<longrightarrow> occurs_at b v p \<longrightarrow>
           tail_start b at v hi i st \<le> p)
    \<and> (tail_start b at v hi i st = st
       \<or> (\<exists>p \<ge> i. p < at \<and> occurs_at b v p \<and> tail_start b at v hi i st = p))"
  using assms
proof (induction b at v hi i st rule: tail_start.induct)
  case (1 b at v hi i st)
  note unfold = tail_start.simps [of b at v hi i st]
  show ?case
  proof (cases "i < at")
    case False
    then show ?thesis by (simp add: unfold)
  next
    case i: True
    show ?thesis
    proof (cases "str_index (drop i (take hi b)) v")
      case None
      then have "\<not> occurs_at b v p" if "i \<le> p" "p + length v \<le> hi" for p
        using window_None that "1.prems" by blast
      with None show ?thesis by (auto simp: unfold)
    next
      case (Some j)
      have "i \<le> hi" using i "1.prems" by simp
      note w = window_Some [OF Some this "1.prems"(2)]
      show ?thesis
      proof (cases "at \<le> i + j")
        case True
        with Some i have "tail_start b at v hi i st = st" by (simp add: unfold)
        with True w(3) show ?thesis by fastforce
      next
        case False
        let ?s = "tail_start b at v hi (i + j + 1) (min st (i + j))"
        have eq: "tail_start b at v hi i st = ?s" using Some i False by (simp add: unfold)
        have IH: "?s \<le> min st (i + j)"
          "?s = min st (i + j)
            \<or> (\<exists>p \<ge> i + j + 1. p < at \<and> occurs_at b v p \<and> ?s = p)"
          using "1.IH" [OF i Some False "1.prems"] by blast+
        have "?s \<le> p" if "i \<le> p" "p + length v \<le> hi" "occurs_at b v p" for p
          using w(3) [OF that] IH(1) by simp
        moreover have "?s = st \<or> (\<exists>p \<ge> i. p < at \<and> occurs_at b v p \<and> ?s = p)"
          using IH(2) w(1) False by (auto simp: min_def split: if_splits)
        ultimately show ?thesis using IH(1) unfolding eq by auto
      qed
    qed
  qed
qed

lemma tail_secret_spec:
  assumes "at \<le> length b"
  shows "tail_secret b at st v \<le> st"
    and "occurs_at b v p \<Longrightarrow> p < at \<Longrightarrow> at < p + length v \<Longrightarrow> tail_secret b at st v \<le> p"
    and "tail_secret b at st v = st
      \<or> (\<exists>p < at. at < p + length v \<and> occurs_at b v p \<and> tail_secret b at st v = p)"
proof -
  let ?hi = "min (length b) (at + length v - 1)" and ?lo = "at + 1 - length v"
  have hi: "?hi \<le> length b" "2 \<le> length v \<Longrightarrow> at \<le> ?hi" using assms by auto
  note s = tail_start_spec [of at ?hi b v ?lo st]
  have up: "at < p + length v" if "?lo \<le> p" "2 \<le> length v" for p using that by linarith
  show "tail_secret b at st v \<le> st" using s hi by (simp add: tail_secret_def)
  show "tail_secret b at st v = st
      \<or> (\<exists>p < at. at < p + length v \<and> occurs_at b v p \<and> tail_secret b at st v = p)"
  proof (cases "length v < 2")
    case False
    with s hi up show ?thesis by (simp add: tail_secret_def) (metis not_le)
  qed (simp add: tail_secret_def)
  assume p: "occurs_at b v p" "p < at" "at < p + length v"
  then have "2 \<le> length v" "?lo \<le> p" "p + length v \<le> ?hi" by (auto simp: occurs_at_def)
  with s hi p show "tail_secret b at st v \<le> p" by (simp add: tail_secret_def)
qed

lemma tail_fold_spec:
  assumes "at \<le> length b"
  shows "foldl (tail_secret b at) st vs \<le> st
    \<and> (\<forall>v \<in> set vs. \<forall>p < at. at < p + length v \<longrightarrow> occurs_at b v p \<longrightarrow>
          foldl (tail_secret b at) st vs \<le> p)
    \<and> (foldl (tail_secret b at) st vs = st
       \<or> (\<exists>v \<in> set vs. \<exists>p < at. at < p + length v \<and> occurs_at b v p
            \<and> foldl (tail_secret b at) st vs = p))"
proof (induction vs arbitrary: st)
  case (Cons v vs)
  note t = tail_secret_spec [OF assms, where st = st and v = v]
  note IH = Cons.IH [of "tail_secret b at st v"]
  have "foldl (tail_secret b at) st (v # vs) \<le> p" if "occurs_at b v p" "p < at" "at < p + length v" for p
    using t(2) [OF that] IH by simp
  with IH t(1,3) show ?case by auto
qed simp

text \<open>Dropping the continuation bytes at the start of a text never enters a well-formed one.\<close>

lemma skip_to_rune_drop: "skip_to_rune b = drop (length b - length (skip_to_rune b)) b"
  using suffix_drop_length [OF skip_to_rune_suffix] by metis

lemma skip_to_rune_skipped: "i < length b - length (skip_to_rune b) \<Longrightarrow> \<not> rune_start (b ! i)"
proof (induction b arbitrary: i)
  case (Cons c b)
  have "length (skip_to_rune b) \<le> length b" by (rule suffix_length_le [OF skip_to_rune_suffix])
  with Cons show ?case by (cases i) (auto split: if_splits)
qed simp

lemma skip_not_inside:
  assumes "occurs_at b v p" "valid_utf8 v" "v \<noteq> []"
  shows "length b - length (skip_to_rune b) \<le> p"
proof (rule ccontr)
  assume "\<not> ?thesis"
  then have "\<not> rune_start (b ! p)" by (intro skip_to_rune_skipped) simp
  moreover have "hd v = b ! p"
  proof -
    have "p < length b" "hd v = hd (take (length v) (drop p b))"
      using assms(1) length_greater_0_conv [of v] assms(3) unfolding occurs_at_def by (linarith, simp)
    with assms(3) show ?thesis by (simp add: hd_drop_conv_nth)
  qed
  ultimately show False using valid_utf8_start [OF assms(2)] assms(3) by simp
qed

lemma covered_drop:
  assumes "k \<le> length b" "\<And>v p. v \<in> set vs \<Longrightarrow> v \<noteq> [] \<Longrightarrow> occurs_at b v p \<Longrightarrow> k < p + length v \<Longrightarrow>
      k \<le> p \<or> (\<forall>i. k + i < p + length v \<longrightarrow> covered (drop k b) vs i)"
  shows "covered (drop k b) vs i \<longleftrightarrow> covered b vs (k + i)"
proof
  assume "covered (drop k b) vs i"
  then obtain v p where "v \<in> set vs" "p \<le> i" "i < p + length v" "occurs_at b v (k + p)"
    by (auto simp: covered_iff occurs_at_drop [OF assms(1)])
  then show "covered b vs (k + i)"
    unfolding covered_iff by (intro bexI [of _ v] exI [of _ "k + p"]) auto
next
  assume "covered b vs (k + i)"
  then obtain v p where v: "v \<in> set vs" "p \<le> k + i" "k + i < p + length v" "occurs_at b v p"
    by (auto simp: covered_iff)
  show "covered (drop k b) vs i"
  proof (cases "k \<le> p")
    case True
    with v show ?thesis
      unfolding covered_iff occurs_at_drop [OF assms(1)]
      by (intro bexI [of _ v] exI [of _ "p - k"]) auto
  next
    case False
    with assms(2) [OF v(1) _ v(4)] v(3) show ?thesis by force
  qed
qed

lemma tailOf_suffix: "suffix (fst (tailOf b n vs lost)) b"
  using suffix_order.trans [OF skip_to_rune_suffix suffix_drop] skip_to_rune_suffix
  by (auto simp: tailOf_def Let_def suffix_drop)

text \<open>The place a tail starts at, and what its cut leaves out.\<close>

lemma tailOf_covered_eq:
  assumes valid: "\<forall>v \<in> set vs. valid_utf8 v"
  shows "covered (fst (tailOf b n vs lost)) vs i
     \<longleftrightarrow> covered b vs (length b - length (fst (tailOf b n vs lost)) + i)"
proof -
  let ?t = "fst (tailOf b n vs lost)" and ?at = "length b - n"
  let ?st = "foldl (tail_secret b ?at) ?at vs"
  let ?k = "length b - length ?t"
  have t: "?t = drop ?k b" by (rule suffix_drop_length [OF tailOf_suffix, symmetric])
  have "covered (drop ?k b) vs i \<longleftrightarrow> covered b vs (?k + i)"
  proof (rule covered_drop)
    fix v p
    assume v: "v \<in> set vs" "v \<noteq> []" "occurs_at b v p" "?k < p + length v"
    have vv: "valid_utf8 v" using valid v(1) by blast
    show "?k \<le> p \<or> (\<forall>i. ?k + i < p + length v \<longrightarrow> covered (drop ?k b) vs i)"
    proof (cases "length b \<le> n")
      case True
      then show ?thesis using skip_not_inside [OF v(3) vv v(2)] by (simp add: tailOf_def)
    next
      case False
      have f: "?st \<le> ?at"
        "p < ?at \<Longrightarrow> ?at < p + length v \<Longrightarrow> ?st \<le> p"
        "?st = ?at \<or> (\<exists>w \<in> set vs. \<exists>q < ?at. ?at < q + length w \<and> occurs_at b w q \<and> ?st = q)"
        using tail_fold_spec [of ?at b ?at vs] v(1,3) by auto
      show ?thesis
      proof (cases "?st = ?at")
        case True
        then have t': "?t = skip_to_rune (drop ?at b)" using False by (simp add: tailOf_def Let_def)
        have "length ?t \<le> n"
          unfolding t' using suffix_length_le [OF skip_to_rune_suffix, of "drop ?at b"] False by simp
        then have "?at \<le> ?k" by simp
        then have p: "?at \<le> p" using f(2) True v(4) by linarith
        then have "occurs_at (drop ?at b) v (p - ?at)"
          using v(3) by (simp add: occurs_at_drop)
        from skip_not_inside [OF this vv v(2)] p t' False show ?thesis by auto
      next
        case ext: False
        then obtain w q where w: "w \<in> set vs" "q < ?at" "?at < q + length w" "occurs_at b w q" "?st = q"
          using f(3) by blast
        have "?t = drop ?st b" using False ext by (simp add: tailOf_def Let_def)
        then have k: "?k = q" using w by simp
        have occ: "occurs_at (drop q b) w 0" using w by (simp add: occurs_at_drop)
        have "covered (drop q b) vs j" if "q + j < ?at" for j
          unfolding covered_iff using w that occ by (intro bexI [OF _ w(1)] exI [of _ 0]) auto
        moreover have "p + length v \<le> ?at" if "p < q" using f(2) w(2,5) that by linarith
        ultimately show ?thesis unfolding k by force
      qed
    qed
  qed simp
  then show ?thesis using t by metis
qed

section \<open>Buffers\<close>

lemma withoutNULs_eq: "withoutNULs p = dropNULs p"
  by (auto simp: withoutNULs_def dropNULs_def intro!: filter_True [symmetric])

lemma dropNULs_append [simp]: "dropNULs (a @ b) = dropNULs a @ dropNULs b"
  by (simp add: dropNULs_def)

lemma dropNULs_Nil [simp]: "dropNULs [] = []"
  by (simp add: dropNULs_def)

text \<open>What a capped buffer holds after the text \<open>all\<close> was written to it.\<close>

definition cb_holds :: "capped_buffer \<Rightarrow> string \<Rightarrow> bool" where
  "cb_holds c all \<longleftrightarrow>
     cb_buf c = take (nat (cb_max c)) all \<and> (cb_truncated c \<longleftrightarrow> nat (cb_max c) < length all)"

lemma cb_Write_holds:
  assumes "cb_holds c all" "0 \<le> cb_max c"
  shows "cb_holds (snd (cb_Write c p)) (all @ dropNULs p)"
    and "cb_max (snd (cb_Write c p)) = cb_max c" and "fst (cb_Write c p) = length p"
  using assms
  by (auto simp: cb_holds_def cb_Write_def Let_def withoutNULs_eq nat_diff_distrib'
      simp flip: length_greater_0_conv)

lemma cb_writes_hold:
  "cb_holds c all \<Longrightarrow> 0 \<le> cb_max c \<Longrightarrow>
   cb_holds (foldl (\<lambda>c p. snd (cb_Write c p)) c ps) (all @ dropNULs (concat ps))
   \<and> cb_max (foldl (\<lambda>c p. snd (cb_Write c p)) c ps) = cb_max c"
proof (induction ps arbitrary: c all)
  case (Cons p ps)
  note w = cb_Write_holds [OF Cons.prems, of p]
  from Cons.IH [OF w(1)] w(2) Cons.prems(2) show ?case by simp
qed simp

text \<open>A write into the ring moves its oldest bytes out and the new ones in at the end.\<close>

definition unrolled :: "nat \<Rightarrow> string \<Rightarrow> string" where
  "unrolled pos ring = drop pos ring @ take pos ring"

lemma ring_write:
  assumes "pos < length ring" "length p < length ring"
    and "copy_at ring pos p = (k, r1)" "r2 = snd (copy_at r1 0 (drop k p))"
  shows "unrolled ((pos + length p) mod length ring) r2 = drop (length p) (unrolled pos ring) @ p"
    and "length r2 = length ring"
proof -
  have k: "k = min (length ring - pos) (length p)"
    and r1: "r1 = take pos ring @ take k p @ drop (pos + k) ring"
    using assms(3) by (auto simp: copy_at_def Let_def)
  have "length r1 = length ring" using k assms(1) by (simp add: r1)
  then have r2: "r2 = drop k p @ drop (length p - k) r1"
    using assms(2) by (auto simp: assms(4) copy_at_def Let_def min_def)
  show "length r2 = length ring" using \<open>length r1 = length ring\<close> k assms(2) by (simp add: r2)
  show "unrolled ((pos + length p) mod length ring) r2 = drop (length p) (unrolled pos ring) @ p"
  proof (cases "pos + length p < length ring")
    case True
    then show ?thesis using assms(1) by (simp add: unrolled_def r2 r1 k add.commute)
  next
    case False
    have "(pos + length p) mod length ring = pos + length p - length ring"
      using False assms(1,2) by (subst le_mod_geq) auto
    then show ?thesis using False assms(1,2) by (simp add: unrolled_def r2 r1 k)
  qed
qed

text \<open>What the head-and-tail buffer holds after the text \<open>all\<close> was written to it.\<close>

definition ht_holds :: "head_tail \<Rightarrow> string \<Rightarrow> bool" where
  "ht_holds h all \<longleftrightarrow>
     (let keep = ht_max h + ht_margin h; rest = drop keep all in
      ht_head h = take keep all \<and> ht_rest h = length rest
      \<and> (if rest = [] then ht_ring h = [] \<and> ht_pos h = 0
         else length (ht_ring h) = keep \<and> ht_pos h < keep
           \<and> (ht_rest h \<le> keep \<longrightarrow> ht_pos h = ht_rest h mod keep)
           \<and> unrolled (ht_pos h) (ht_ring h)
               = drop (length rest) (replicate keep (CHR 0x00) @ rest)))"

lemma ht_Write_size [simp]:
  "ht_max (snd (ht_Write h p)) = ht_max h" "ht_margin (snd (ht_Write h p)) = ht_margin h"
  "fst (ht_Write h p) = length p"
  by (simp_all add: ht_Write_def Let_def split: prod.split)

text \<open>The part of a write that goes past the head.\<close>

lemma ht_Write_eq:
  assumes "ht_holds h all" "0 < ht_max h + ht_margin h"
    and q: "q = drop (ht_max h + ht_margin h - length all) (dropNULs p)" "q \<noteq> []"
    and ring: "ring = (if ht_ring h = [] then replicate (ht_max h + ht_margin h) (CHR 0x00) else ht_ring h)"
  shows "snd (ht_Write h p) =
     h\<lparr>ht_head := take (ht_max h + ht_margin h) (all @ dropNULs p),
       ht_ring := (if ht_max h + ht_margin h \<le> length q
                   then snd (copy_at ring 0 (drop (length q - (ht_max h + ht_margin h)) q))
                   else snd (copy_at (snd (copy_at ring (ht_pos h) q)) 0
                              (drop (fst (copy_at ring (ht_pos h) q)) q))),
       ht_pos := (if ht_max h + ht_margin h \<le> length q then 0
                  else (ht_pos h + length q) mod (ht_max h + ht_margin h)),
       ht_rest := ht_rest h + length q\<rparr>"
proof -
  let ?keep = "ht_max h + ht_margin h"
  define k where "k = (if ?keep > length (ht_head h)
      then min (?keep - length (ht_head h)) (length (dropNULs p)) else 0)"
  have head: "ht_head h = take ?keep all" using assms(1) by (simp add: ht_holds_def Let_def)
  have d: "drop k (dropNULs p) = q"
    and t: "ht_head h @ take k (dropNULs p) = take ?keep (all @ dropNULs p)"
    using q by (auto simp: head k_def)
  show ?thesis
    unfolding ht_Write_def Let_def withoutNULs_eq k_def [symmetric] d t
    using q(2) by (simp add: ring case_prod_beta)
qed

lemma ht_Write_short:
  assumes "ht_holds h all" "drop (ht_max h + ht_margin h - length all) (dropNULs p) = []"
  shows "snd (ht_Write h p) = h\<lparr>ht_head := take (ht_max h + ht_margin h) (all @ dropNULs p)\<rparr>"
proof -
  let ?keep = "ht_max h + ht_margin h"
  have head: "ht_head h = take ?keep all" using assms(1) by (simp add: ht_holds_def Let_def)
  show ?thesis
    using assms(2) by (auto simp: ht_Write_def Let_def withoutNULs_eq head)
qed

text \<open>The ring as the first write past the head finds it: allocated, and all NUL.\<close>

lemma ht_ring_start:
  assumes "ht_holds h all" "0 < ht_max h + ht_margin h"
    and "ring = (if ht_ring h = [] then replicate (ht_max h + ht_margin h) (CHR 0x00) else ht_ring h)"
  shows "length ring = ht_max h + ht_margin h" "ht_pos h < ht_max h + ht_margin h"
    "ht_rest h \<le> ht_max h + ht_margin h \<Longrightarrow> ht_pos h = ht_rest h mod (ht_max h + ht_margin h)"
    "unrolled (ht_pos h) ring
      = drop (ht_rest h) (replicate (ht_max h + ht_margin h) (CHR 0x00) @ drop (ht_max h + ht_margin h) all)"
  using assms by (auto simp: ht_holds_def Let_def unrolled_def split: if_splits)

lemma drop_then_append:
  "length q + k \<le> length xs \<Longrightarrow> drop (length q) (drop k xs) @ q = drop (k + length q) (xs @ q)"
  by (simp add: add.commute)

lemma ht_ring_step:
  assumes keep: "0 < keep" "length ring = keep" "pos < keep" and q: "q \<noteq> []"
    and old: "unrolled pos ring = drop (length r) (replicate keep c @ r)"
    and ring': "ring' = (if keep \<le> length q then snd (copy_at ring 0 (drop (length q - keep) q))
        else snd (copy_at (snd (copy_at ring pos q)) 0 (drop (fst (copy_at ring pos q)) q)))"
    and pos': "pos' = (if keep \<le> length q then 0 else (pos + length q) mod keep)"
  shows "length ring' = keep" "unrolled pos' ring' = drop (length r + length q) (replicate keep c @ r @ q)"
proof -
  have "length ring' = keep \<and> unrolled pos' ring' = drop (length r + length q) (replicate keep c @ r @ q)"
  proof (cases "keep \<le> length q")
    case True
    then have "ring' = drop (length q - keep) q" "pos' = 0"
      using keep by (simp_all add: ring' pos' copy_at_def Let_def)
    with True show ?thesis by (simp add: unrolled_def)
  next
    case False
    then have len: "length q < length ring" and p: "pos < length ring" using keep by auto
    obtain k r1 where c: "copy_at ring pos q = (k, r1)" by force
    have r: "ring' = snd (copy_at r1 0 (drop k q))" using False c by (simp add: ring')
    have "unrolled pos' ring' = drop (length q) (unrolled pos ring) @ q"
      using ring_write(1) [OF p len c r] False keep by (simp add: pos')
    moreover have "length ring' = keep" using ring_write(2) [OF p len c r] keep by simp
    moreover have "drop (length q) (drop (length r) (replicate keep c @ r)) @ q
        = drop (length r + length q) (replicate keep c @ r @ q)"
      using drop_then_append [of q "length r" "replicate keep c @ r"] False by simp
    ultimately show ?thesis by (simp add: old)
  qed
  then show "length ring' = keep" "unrolled pos' ring' = drop (length r + length q) (replicate keep c @ r @ q)"
    by simp_all
qed

lemma ht_Write_holds:
  assumes h: "ht_holds h all" and keep: "0 < ht_max h + ht_margin h"
  shows "ht_holds (snd (ht_Write h p)) (all @ dropNULs p)"
proof -
  let ?keep = "ht_max h + ht_margin h"
  define q where "q = drop (?keep - length all) (dropNULs p)"
  have rest: "drop ?keep (all @ dropNULs p) = drop ?keep all @ q" by (simp add: q_def)
  show ?thesis
  proof (cases "q = []")
    case True
    note w = ht_Write_short [OF h True [unfolded q_def]]
    have "drop ?keep (all @ dropNULs p) = drop ?keep all" using rest True by simp
    with h show ?thesis unfolding ht_holds_def Let_def ht_Write_size by (simp add: w del: drop_append)
  next
    case False
    define ring where "ring = (if ht_ring h = [] then replicate ?keep (CHR 0x00) else ht_ring h)"
    note r = ht_ring_start [OF h keep ring_def]
    note w = ht_Write_eq [OF h keep q_def False ring_def]
    have len: "ht_rest h = length (drop ?keep all)" using h by (simp add: ht_holds_def Let_def)
    note old = r(4) [unfolded len]
    note st = ht_ring_step [OF keep r(1,2) False old refl refl]
    have "ht_pos (snd (ht_Write h p)) = (ht_rest h + length q) mod ?keep"
      if "ht_rest h + length q \<le> ?keep"
    proof (cases "?keep \<le> length q")
      case True
      with that have "ht_rest h + length q = ?keep" by simp
      with True show ?thesis by (simp add: w)
    next
      case False
      with that r(3) show ?thesis by (simp add: w mod_simps)
    qed
    moreover have "ht_pos (snd (ht_Write h p)) < ?keep" using keep by (simp add: w)
    ultimately show ?thesis
      using st False len unfolding ht_holds_def Let_def rest ht_Write_size by (simp add: w)
  qed
qed

lemma ht_writes_hold:
  "ht_holds h all \<Longrightarrow> 0 < ht_max h + ht_margin h \<Longrightarrow>
   ht_holds (foldl (\<lambda>h p. snd (ht_Write h p)) h ps) (all @ dropNULs (concat ps))"
proof (induction ps arbitrary: h all)
  case (Cons p ps)
  from Cons.IH [OF ht_Write_holds [OF Cons.prems, of p]] Cons.prems(2) show ?case by simp
qed simp

lemma ht_writes_size:
  "ht_max (foldl (\<lambda>h p. snd (ht_Write h p)) h ps) = ht_max h
   \<and> ht_margin (foldl (\<lambda>h p. snd (ht_Write h p)) h ps) = ht_margin h"
  by (induction ps arbitrary: h) simp_all

lemma ht_tail_holds:
  assumes "ht_holds h all" "0 < ht_max h + ht_margin h"
  shows "ht_tail h = drop (length all - 2 * (ht_max h + ht_margin h)) (drop (ht_max h + ht_margin h) all)"
proof -
  let ?keep = "ht_max h + ht_margin h" and ?rest = "drop (ht_max h + ht_margin h) all"
  have h: "ht_rest h = length ?rest" using assms(1) by (simp add: ht_holds_def Let_def)
  show ?thesis
  proof (cases "?rest = []")
    case True
    with assms(1) show ?thesis by (simp add: ht_holds_def ht_tail_def Let_def)
  next
    case False
    then have u: "unrolled (ht_pos h) (ht_ring h) = drop (length ?rest) (replicate ?keep (CHR 0x00) @ ?rest)"
      and pos: "ht_rest h \<le> ?keep \<longrightarrow> ht_pos h = ht_rest h mod ?keep" "length (ht_ring h) = ?keep"
      using assms(1) by (auto simp: ht_holds_def Let_def)
    consider "ht_rest h < ?keep" | "ht_rest h = ?keep" | "ht_rest h > ?keep" by linarith
    then show ?thesis
    proof cases
      case 1
      then have "ht_pos h = length ?rest" using pos h by simp
      then have "drop (length ?rest) (ht_ring h) @ take (length ?rest) (ht_ring h)
          = replicate (?keep - length ?rest) (CHR 0x00) @ ?rest"
        using u 1 h by (simp add: unrolled_def)
      then have "take (length ?rest) (ht_ring h) = ?rest"
        using 1 h pos by (subst (asm) append_eq_append_conv) auto
      with 1 h show ?thesis by (simp add: ht_tail_def Let_def)
    next
      case 2
      with pos assms(2) have "ht_pos h = 0" by simp
      with u 2 h pos show ?thesis by (simp add: ht_tail_def Let_def unrolled_def)
    next
      case 3
      with u h show ?thesis by (simp add: ht_tail_def Let_def unrolled_def add.commute)
    qed
  qed
qed

section \<open>What captures keep and hide\<close>

text \<open>
  C23: For secrets that are well-formed text, the part of a capture that \<^const>\<open>headOf\<close> keeps
  hides exactly what the whole capture hides: a byte of the head is covered by a secret of
  the head if and only if it is covered by a secret of the whole capture. So no piece of a
  secret is left in clear by the cut.
\<close>

theorem headOf_hides:
  assumes "\<forall>v \<in> set secrets. valid_utf8 v"
    and "i < length (fst (headOf b n secrets lost))"
  shows "covered (fst (headOf b n secrets lost)) secrets i \<longleftrightarrow> covered b secrets i"
  by (rule headOf_covered_eq [OF assms])

theorem headOf_hides_witness:
  "covered (fst (headOf ''xabcdy'' 3 [''abc'', ''cd''] True)) [''abc'', ''cd''] 3 \<longleftrightarrow>
   covered ''xabcdy'' [''abc'', ''cd''] 3"
proof (rule headOf_hides)
  show "\<forall>v \<in> set [''abc'', ''cd'']. valid_utf8 v" by code_simp
  show "3 < length (fst (headOf ''xabcdy'' 3 [''abc'', ''cd''] True))" by code_simp
qed

text \<open>
  The same at the other end: the tail \<^const>\<open>tailOf\<close> keeps hides exactly what the whole
  capture hides in its place.
\<close>

theorem tailOf_hides:
  assumes "\<forall>v \<in> set secrets. valid_utf8 v"
  shows "covered (fst (tailOf b n secrets lost)) secrets i
    \<longleftrightarrow> covered b secrets (length b - length (fst (tailOf b n secrets lost)) + i)"
  by (rule tailOf_covered_eq [OF assms])

theorem tailOf_hides_witness:
  "covered (fst (tailOf ''xabcdy'' 3 [''abc'', ''cd''] True)) [''abc'', ''cd''] 0
   \<longleftrightarrow> covered ''xabcdy'' [''abc'', ''cd'']
         (length ''xabcdy'' - length (fst (tailOf ''xabcdy'' 3 [''abc'', ''cd''] True)) + 0)"
proof (rule tailOf_hides)
  show "\<forall>v \<in> set [''abc'', ''cd'']. valid_utf8 v" by code_simp
qed


text \<open>
  However a step's output is split into writes, a capped buffer keeps the first \<open>m\<close>
  bytes of it without NULs, and is marked as cut if and only if there were more.
\<close>

theorem cappedBuffer_keeps_prefix:
  assumes "0 \<le> m"
    and "c = foldl (\<lambda>c p. snd (cb_Write c p))
                 \<lparr>cb_buf = [], cb_max = m, cb_truncated = False\<rparr> writes"
  shows "cb_buf c = take (nat m) (dropNULs (concat writes))
    \<and> (cb_truncated c \<longleftrightarrow> nat m < length (dropNULs (concat writes)))"
  using cb_writes_hold [of "\<lparr>cb_buf = [], cb_max = m, cb_truncated = False\<rparr>" "[]" writes] assms
  by (simp add: cb_holds_def)

theorem cappedBuffer_keeps_prefix_witness:
  "cb_buf (foldl (\<lambda>c p. snd (cb_Write c p))
        \<lparr>cb_buf = [], cb_max = 3, cb_truncated = False\<rparr> [''ab'', [CHR 0x00, CHR ''c''], ''d''])
     = take (nat 3) (dropNULs (concat [''ab'', [CHR 0x00, CHR ''c''], ''d'']))"
  using cappedBuffer_keeps_prefix [of 3 _ "[''ab'', [CHR 0x00, CHR ''c''], ''d'']", OF _ refl]
  by simp

text \<open>
  However a drill step's output is split into writes, the head-and-tail buffer keeps
  the first \<open>max + margin\<close> bytes of it and, of the bytes after those, the last
  \<open>max + margin\<close> in the order they were written; it counts every byte after the head.
\<close>

theorem headTail_keeps_ends:
  assumes "0 < mx + margin"
    and "h = foldl (\<lambda>h p. snd (ht_Write h p))
           \<lparr>ht_max = mx, ht_margin = margin, ht_head = [], ht_ring = [], ht_pos = 0, ht_rest = 0\<rparr> writes"
    and "all = dropNULs (concat writes)"
  shows "ht_head h = take (mx + margin) all
    \<and> ht_rest h = length all - (mx + margin)
    \<and> ht_tail h = drop (length all - 2 * (mx + margin)) (drop (mx + margin) all)"
proof -
  let ?h0 = "\<lparr>ht_max = mx, ht_margin = margin, ht_head = [], ht_ring = [], ht_pos = 0, ht_rest = 0\<rparr>"
  have "ht_holds ?h0 []" by (simp add: ht_holds_def)
  from ht_writes_hold [OF this, of writes] assms have h: "ht_holds h all" by simp
  have size: "ht_max h = mx" "ht_margin h = margin"
    using ht_writes_size [of ?h0 writes] assms(2) by simp_all
  have "ht_head h = take (mx + margin) all" "ht_rest h = length all - (mx + margin)"
    using h by (simp_all add: ht_holds_def Let_def size)
  with ht_tail_holds [OF h] assms(1) show ?thesis by (simp add: size)
qed

theorem headTail_keeps_ends_witness:
  "ht_tail (foldl (\<lambda>h p. snd (ht_Write h p))
      \<lparr>ht_max = 2, ht_margin = 1, ht_head = [], ht_ring = [], ht_pos = 0, ht_rest = 0\<rparr>
      [''ab'', ''cde'', ''fgh''])
   = drop (length ''abcdefgh'' - 2 * (2 + 1)) (drop (2 + 1) ''abcdefgh'')"
proof -
  have "dropNULs (concat [''ab'', ''cde'', ''fgh'']) = ''abcdefgh''" by code_simp
  with headTail_keeps_ends [of 2 1, OF _ refl refl, of "[''ab'', ''cde'', ''fgh'']"]
  show ?thesis by simp
qed

end
