(* ===== verification/Jobs_Exec.thy ===== *)
theory Jobs_Exec
  imports Jobs_Model Jobs_Capture "HOL-Library.List_Lexorder"
begin

text \<open>
  The executor (\<^verbatim>\<open>internal/jobs/executor.go\<close>): time limits, the retry loop with its
  backoff, the outcome of a shell command and the time a whole run may take. What one
  attempt does (a child process, a request) is an argument: a function from the attempt
  number and the time it starts to its result and the time it ends.
\<close>

section \<open>Time limits\<close>

definition killGraceDelay :: duration where "killGraceDelay = 5 * second"
definition DefaultTimeout :: duration where "DefaultTimeout = 30 * minute"
definition drillCleanupTimeout :: duration where "drillCleanupTimeout = minute"
definition forever :: duration where "forever = max_int64"

definition seconds :: "int \<Rightarrow> duration" where
  "seconds n =
     (let limit = quot forever second in
      if n > limit then forever
      else if n < - limit then - forever
      else wrap64 (n * second))"

text \<open>The wait after attempt \<open>n\<close>; \<open>custom\<close> is the executor's \<^verbatim>\<open>Backoff\<close> field.\<close>

definition backoff :: "(int \<Rightarrow> duration) option \<Rightarrow> int \<Rightarrow> duration" where
  "backoff custom attempt =
     (case custom of
        Some f \<Rightarrow> f attempt
      | None \<Rightarrow> wrap64 (wrap64 (attempt * attempt) * second))"

definition attempt_timeout :: "job \<Rightarrow> duration" where
  "attempt_timeout j =
     (let timeout = seconds (j_timeout j) in if timeout \<le> 0 then DefaultTimeout else timeout)"

definition max_attempts :: "job \<Rightarrow> int" where
  "max_attempts j = (let n = wrap64 (j_max_retries j + 1) in if n < 1 then 1 else n)"

text \<open>The loop over the pauses of \<^verbatim>\<open>maxRunDuration\<close>.\<close>

function max_run_loop :: "(int \<Rightarrow> duration) option \<Rightarrow> int \<Rightarrow> duration \<Rightarrow> int \<Rightarrow> duration \<Rightarrow> duration" where
  "max_run_loop custom attempts perAttempt attempt sofar =
     (if attempt < attempts then
        let pause = max 0 (backoff custom attempt) in
        if sofar > wrap64 (wrap64 (forever - pause) - perAttempt) then forever
        else max_run_loop custom attempts perAttempt (attempt + 1)
               (wrap64 (sofar + wrap64 (pause + perAttempt)))
      else sofar)"
  by pat_completeness auto
termination
  by (relation "measure (\<lambda>(_, attempts, _, attempt, _). nat (attempts - attempt))") auto

declare max_run_loop.simps [simp del]

definition grace :: "job \<Rightarrow> duration" where
  "grace j = (if j_type j = Drill then killGraceDelay + (drillCleanupTimeout + killGraceDelay)
              else killGraceDelay)"

definition maxRunDuration :: "(int \<Rightarrow> duration) option \<Rightarrow> job \<Rightarrow> duration" where
  "maxRunDuration custom j =
     (let attempts = max_attempts j;
          timeout = attempt_timeout j
      in if timeout > wrap64 (forever - grace j) then forever
         else let perAttempt = wrap64 (timeout + grace j)
              in max_run_loop custom attempts perAttempt 1 perAttempt)"

section \<open>Running\<close>

record run_result =
  rr_status :: run_status
  rr_exit :: int
  rr_output :: string
  rr_truncated :: bool
  rr_attempt :: int
  rr_started :: gotime
  rr_ended :: gotime

text \<open>
  The error of a finished command: none, an exit error with its code, or another error.
\<close>

datatype cmd_error = ExitError int | OtherError

definition shellOutcome :: "bool \<Rightarrow> cmd_error option \<Rightarrow> run_status \<times> int" where
  "shellOutcome deadlineExceeded err =
     (if deadlineExceeded then (StatusTimedOut, 0)
      else case err of
        None \<Rightarrow> (StatusSucceeded, 0)
      | Some (ExitError code) \<Rightarrow> (StatusFailed, code)
      | Some OtherError \<Rightarrow> (StatusFailed, -1))"

text \<open>
  The shell branch of one attempt: what the child wrote, in the pieces it wrote it, whether
  its deadline passed and what \<^verbatim>\<open>cmd.Run\<close> returned.
\<close>

definition runOnceShell ::
  "string list \<Rightarrow> bool \<Rightarrow> cmd_error option \<Rightarrow> string list \<Rightarrow> int \<Rightarrow> gotime \<Rightarrow> gotime \<Rightarrow> run_result" where
  "runOnceShell written deadlineExceeded err secrets attempt started ended =
     (let buf = foldl (\<lambda>c p. snd (cb_Write c p))
                  \<lparr>cb_buf = [], cb_max = int maxOutputBytes + int (secretMargin secrets),
                   cb_truncated = False\<rparr> written;
          (status, code) = shellOutcome deadlineExceeded err
      in \<lparr>rr_status = status, rr_exit = code, rr_output = shellOutput buf secrets,
          rr_truncated = cb_truncated buf, rr_attempt = attempt, rr_started = started,
          rr_ended = ended\<rparr>)"

text \<open>
  What an HTTP attempt meets: a request that cannot be built, a request without a response
  (with whether the deadline had passed), or a response with its status and what reading
  at most \<^verbatim>\<open>maxOutputBytes+1\<close> bytes of its body gave. The texts of the errors come from
  the \<^verbatim>\<open>urlredact\<close> package.
\<close>

datatype http_outcome =
    BadRequest string
  | NoResponse bool string
  | Response int "string + string"

definition runOnceHTTP :: "http_outcome \<Rightarrow> int \<Rightarrow> gotime \<Rightarrow> gotime \<Rightarrow> run_result" where
  "runOnceHTTP outcome attempt started ended =
     (case outcome of
        BadRequest msg \<Rightarrow>
          \<lparr>rr_status = StatusFailed, rr_exit = -1, rr_output = msg, rr_truncated = False,
           rr_attempt = attempt, rr_started = started, rr_ended = ended\<rparr>
      | NoResponse deadlineExceeded msg \<Rightarrow>
          if deadlineExceeded
          then \<lparr>rr_status = StatusTimedOut, rr_exit = 0, rr_output = [], rr_truncated = False,
                rr_attempt = attempt, rr_started = started, rr_ended = ended\<rparr>
          else \<lparr>rr_status = StatusFailed, rr_exit = -1, rr_output = msg, rr_truncated = False,
                rr_attempt = attempt, rr_started = started, rr_ended = ended\<rparr>
      | Response code readResult \<Rightarrow>
          let body = (case readResult of
                        Inl readErr \<Rightarrow> ''(error reading body: '' @ readErr @ '')''
                      | Inr bytes \<Rightarrow> take (maxOutputBytes + 1) bytes);
              truncated = length body > maxOutputBytes;
              body' = (if truncated then trimPartialRune (take maxOutputBytes body) else body);
              out = ''HTTP '' @ dec code @ newline # body'
          in \<lparr>rr_status = (if code \<ge> 200 \<and> code < 300 then StatusSucceeded else StatusFailed),
              rr_exit = code,
              rr_output = (if truncated then out @ truncationMarker else out),
              rr_truncated = truncated, rr_attempt = attempt, rr_started = started,
              rr_ended = ended\<rparr>)"

text \<open>
  The retry loop. \<open>once a t\<close> is attempt \<open>a\<close> started at \<open>t\<close>; the parent context is cancelled
  from the instant \<open>cancelled\<close> on, if any. When the cancellation and the end of a pause
  fall together the select takes either, as \<open>tie\<close> says. The result comes with the time it
  was returned at.
\<close>

function run_loop ::
  "(int \<Rightarrow> gotime \<Rightarrow> run_result \<times> gotime) \<Rightarrow> (int \<Rightarrow> duration) option \<Rightarrow> gotime option \<Rightarrow> (int \<Rightarrow> bool)
   \<Rightarrow> int \<Rightarrow> int \<Rightarrow> gotime \<Rightarrow> run_result \<times> gotime" where
  "run_loop once custom cancelled tie maxAttempts attempt now =
     (let (last, t) = once attempt now in
      if rr_status last = StatusSucceeded then (last, t)
      else if attempt \<ge> maxAttempts then (last, t)
      else if (case cancelled of Some c \<Rightarrow> c \<le> t | None \<Rightarrow> False) then (last, t)
      else
        let d = backoff custom attempt in
        if d > 0 then
          (case cancelled of
             Some c \<Rightarrow>
               if c < t + d \<or> c = t + d \<and> tie attempt then (last, c)
               else run_loop once custom cancelled tie maxAttempts (attempt + 1) (t + d)
           | None \<Rightarrow> run_loop once custom cancelled tie maxAttempts (attempt + 1) (t + d))
        else run_loop once custom cancelled tie maxAttempts (attempt + 1) t)"
  by pat_completeness auto
termination
  by (relation "measure (\<lambda>(_, _, _, _, n, a, _). nat (n - a))") auto

declare run_loop.simps [simp del]

definition exec_run ::
  "(int \<Rightarrow> gotime \<Rightarrow> run_result \<times> gotime) \<Rightarrow> (int \<Rightarrow> duration) option \<Rightarrow> gotime option \<Rightarrow> (int \<Rightarrow> bool)
   \<Rightarrow> job \<Rightarrow> gotime \<Rightarrow> run_result \<times> gotime" where
  "exec_run once custom cancelled tie j now =
     run_loop once custom cancelled tie (max_attempts j) 1 now"

text \<open>\<^verbatim>\<open>toEnvSlice\<close>: the variables sorted by name, for an environment without repeated names.\<close>

definition toEnvSlice :: "(string \<times> string) list \<Rightarrow> string list" where
  "toEnvSlice m = map (\<lambda>(k, v). k @ ''='' @ v) (sort_key (\<lambda>(k, v). map (of_char :: char \<Rightarrow> nat) k) m)"

section \<open>Limits do not overflow\<close>

lemmas limit_defs = forever_def max_int64_def min_int64_def in64_def killGraceDelay_def
  DefaultTimeout_def drillCleanupTimeout_def

lemma seconds_saturates: "seconds n = max (- forever) (min forever (n * second))"
proof -
  have limit: "quot forever second = 9223372036" by (simp add: quot_def forever_def max_int64_def)
  consider "n > 9223372036" | "n < - 9223372036" | "\<bar>n\<bar> \<le> 9223372036" by linarith
  then show ?thesis
  proof cases
    case 3
    then have "in64 (n * second)" unfolding limit_defs by linarith
    with 3 show ?thesis unfolding seconds_def Let_def limit by (simp add: limit_defs)
  qed (simp_all add: seconds_def limit, simp_all add: limit_defs)
qed

lemma attempt_timeout_range: "0 < attempt_timeout j" "attempt_timeout j \<le> forever"
  by (auto simp: attempt_timeout_def Let_def seconds_saturates limit_defs)

lemma grace_range: "0 \<le> grace j" "grace j \<le> 3 * minute"
  by (auto simp: grace_def limit_defs)

lemma max_attempts_pos: "1 \<le> max_attempts j"
  by (simp add: max_attempts_def Let_def)

text \<open>
  The time \<open>n\<close> more attempts take from attempt \<open>a\<close> on, each with the pause before it, in
  unbounded arithmetic.
\<close>

fun pauses_and_attempts :: "(int \<Rightarrow> duration) option \<Rightarrow> duration \<Rightarrow> int \<Rightarrow> nat \<Rightarrow> int" where
  "pauses_and_attempts custom perAttempt a 0 = 0"
| "pauses_and_attempts custom perAttempt a (Suc n) =
     max 0 (backoff custom a) + perAttempt + pauses_and_attempts custom perAttempt (a + 1) n"

definition worst_case :: "(int \<Rightarrow> duration) option \<Rightarrow> job \<Rightarrow> int" where
  "worst_case custom j =
     (let per = attempt_timeout j + grace j
      in per + pauses_and_attempts custom per 1 (nat (max_attempts j - 1)))"

definition is_duration :: "(int \<Rightarrow> duration) option \<Rightarrow> bool" where
  "is_duration custom \<longleftrightarrow> (\<forall>f a. custom = Some f \<longrightarrow> in64 (f a))"

lemma backoff_range: "is_duration custom \<Longrightarrow> in64 (backoff custom a)"
  by (cases custom) (simp_all add: backoff_def is_duration_def)

lemma pauses_nonneg: "0 \<le> per \<Longrightarrow> 0 \<le> pauses_and_attempts custom per a n"
  by (induction n arbitrary: a) simp_all

lemma max_run_loop_eq:
  assumes "is_duration custom" "0 \<le> per" "per \<le> forever" "0 \<le> t" "t \<le> forever"
  shows "max_run_loop custom attempts per a t
    = min forever (t + pauses_and_attempts custom per a (nat (attempts - a)))"
  using assms
proof (induction custom attempts per a t rule: max_run_loop.induct)
  case (1 custom attempts per a t)
  note unfold = max_run_loop.simps [of custom attempts per a t]
  show ?case
  proof (cases "a < attempts")
    case False
    with "1.prems" show ?thesis by (simp add: unfold)
  next
    case True
    let ?p = "max 0 (backoff custom a)" and ?m = "nat (attempts - (a + 1))"
    have n: "nat (attempts - a) = Suc ?m" using True by simp
    have p: "0 \<le> ?p" "?p \<le> forever"
      using backoff_range [OF "1.prems"(1), of a] by (auto simp: in64_def forever_def max_int64_def)
    have room: "wrap64 (wrap64 (forever - ?p) - per) = forever - ?p - per"
    proof -
      have "in64 (forever - ?p)" "in64 (forever - ?p - per)"
        using p "1.prems" unfolding limit_defs by linarith+
      then show ?thesis by simp
    qed
    have rest: "0 \<le> pauses_and_attempts custom per (a + 1) ?m" by (rule pauses_nonneg [OF "1.prems"(2)])
    show ?thesis
    proof (cases "t > forever - ?p - per")
      case over: True
      then have "max_run_loop custom attempts per a t = forever"
        using True by (simp add: unfold Let_def room)
      with over rest n show ?thesis by simp
    next
      case False
      then have "in64 (?p + per)" "in64 (t + (?p + per))" "t + (?p + per) \<le> forever"
        using p "1.prems" unfolding limit_defs by linarith+
      moreover from this have "max_run_loop custom attempts per a t
          = max_run_loop custom attempts per (a + 1) (t + (?p + per))"
        using True False by (simp add: unfold Let_def room)
      ultimately show ?thesis
        using "1.IH" [OF True refl] False p "1.prems" n room by (simp add: add.assoc)
    qed
  qed
qed

lemma maxRunDuration_eq:
  assumes "is_duration custom"
  shows "maxRunDuration custom j = min forever (worst_case custom j)"
proof -
  let ?per = "attempt_timeout j + grace j"
  have room: "wrap64 (forever - grace j) = forever - grace j"
    using grace_range [of j] by (intro wrap64_id) (simp add: limit_defs)
  have rest: "0 \<le> pauses_and_attempts custom ?per 1 n" for n
    using attempt_timeout_range(1) [of j] grace_range(1) [of j] by (intro pauses_nonneg) linarith
  show ?thesis
  proof (cases "attempt_timeout j > forever - grace j")
    case True
    with rest [of "nat (max_attempts j - 1)"] show ?thesis
      by (simp add: maxRunDuration_def worst_case_def Let_def room)
  next
    case False
    then have per: "0 \<le> ?per" "?per \<le> forever" "wrap64 ?per = ?per"
      using attempt_timeout_range [of j] grace_range [of j] by (auto simp: limit_defs)
    with False max_run_loop_eq [OF assms per(1,2,1,2)] show ?thesis
      by (simp add: maxRunDuration_def worst_case_def Let_def room)
  qed
qed

section \<open>The retry loop\<close>

text \<open>One round of the loop: it stops with this attempt's result, or goes on after the pause.\<close>

lemma run_loop_cases:
  assumes "once a t = (l, u)"
  obtains (stop) v where "run_loop once custom cancelled tie n a t = (l, v)"
      "v = u \<or> a < n \<and> v \<le> u + max 0 (backoff custom a)"
      "rr_status l = StatusSucceeded \<or> n \<le> a \<or> cancelled \<noteq> None"
  | (retry) "a < n" "rr_status l \<noteq> StatusSucceeded"
      "run_loop once custom cancelled tie n a t
        = run_loop once custom cancelled tie n (a + 1) (u + max 0 (backoff custom a))"
proof (cases "rr_status l = StatusSucceeded \<or> n \<le> a
      \<or> (case cancelled of Some c \<Rightarrow> c \<le> u | None \<Rightarrow> False)")
  case True
  then show thesis
    by (intro stop [of u]) (auto simp: run_loop.simps [of once custom cancelled tie n a t] assms)
next
  case go: False
  note unfold = run_loop.simps [of once custom cancelled tie n a t]
  show thesis
  proof (cases "backoff custom a > 0")
    case False
    with go assms show thesis by (intro retry) (auto simp: unfold max_def)
  next
    case d: True
    show thesis
    proof (cases "\<exists>c. cancelled = Some c \<and> (c < u + backoff custom a \<or> c = u + backoff custom a \<and> tie a)")
      case True
      then obtain c where c: "cancelled = Some c"
        "c < u + backoff custom a \<or> c = u + backoff custom a \<and> tie a" by blast
      have "run_loop once custom cancelled tie n a t = (l, c)"
        unfolding unfold using go assms d c by auto
      with go c d show thesis by (intro stop [of c]) auto
    next
      case False
      with go assms d show thesis by (intro retry) (auto simp: unfold split: option.splits)
    qed
  qed
qed

lemma run_loop_time:
  assumes "\<And>a t. snd (once a t) \<le> t + per" "0 \<le> per" "a \<le> n"
  shows "snd (run_loop once custom cancelled tie n a t)
    \<le> t + per + pauses_and_attempts custom per a (nat (n - a))"
  using assms(3)
proof (induction "nat (n - a)" arbitrary: a t)
  case 0
  then show ?case
    unfolding run_loop.simps [of once custom cancelled tie n a t]
    using assms(1) [of a t] by (auto simp: Let_def split: prod.split)
next
  case (Suc m)
  obtain l u where once: "once a t = (l, u)" by force
  have u: "u \<le> t + per" using assms(1) [of a t] once by simp
  have n: "nat (n - a) = Suc (nat (n - (a + 1)))" "m = nat (n - (a + 1))" "a + 1 \<le> n"
    using Suc.hyps(2) by auto
  have rest: "0 \<le> pauses_and_attempts custom per (a + 1) m" by (rule pauses_nonneg [OF assms(2)])
  from once show ?case
  proof (cases rule: run_loop_cases [of once a t l u custom cancelled tie n])
    case (stop v)
    with u rest n assms(2) show ?thesis by auto
  next
    case retry
    with Suc.hyps(1) [OF n(2,3), of "u + max 0 (backoff custom a)"] u n show ?thesis by simp
  qed
qed

lemma run_loop_attempt:
  assumes "\<And>a t. rr_attempt (fst (once a t)) = a" "a \<le> n"
  shows "let r = fst (run_loop once custom cancelled tie n a t) in
    a \<le> rr_attempt r \<and> rr_attempt r \<le> n
    \<and> (rr_status r = StatusSucceeded \<or> rr_attempt r = n \<or> cancelled \<noteq> None)"
  using assms(2)
proof (induction "nat (n - a)" arbitrary: a t)
  case 0
  then show ?case
    unfolding run_loop.simps [of once custom cancelled tie n a t]
    using assms(1) [of a t] by (auto simp: Let_def split: prod.split)
next
  case (Suc m)
  obtain l u where once: "once a t = (l, u)" by force
  have n: "m = nat (n - (a + 1))" "a + 1 \<le> n" using Suc.hyps(2) by auto
  from once show ?case
  proof (cases rule: run_loop_cases [of once a t l u custom cancelled tie n])
    case (stop v)
    with assms(1) [of a t] once n show ?thesis by auto
  next
    case retry
    with Suc.hyps(1) [OF n, of "u + max 0 (backoff custom a)"] show ?thesis by (auto simp: Let_def)
  qed
qed

section \<open>Properties of the executor\<close>

text \<open>
  The limit the reaper uses is the exact longest time a run can take (every attempt
  running into its timeout and its kill grace, every backoff pause in between), capped at
  the longest duration there is: no step of its 64-bit arithmetic wraps around, whatever the
  timeout and the retry count.
\<close>

theorem maxRunDuration_saturates:
  assumes "is_duration custom"
  shows "maxRunDuration custom j = min forever (worst_case custom j)"
  by (rule maxRunDuration_eq [OF assms])

abbreviation (input) sample_job :: job where
  "sample_job \<equiv> \<lparr>j_id = 1, j_org = 1, j_name = ''a'', j_type = Shell, j_command = ''true'',
      j_http_url = [], j_http_method = [], j_http_body = [], j_cron = [],
      j_interval = 60, j_run_at = 0, j_timeout = 60, j_max_retries = 1, j_enabled = True,
      j_env = [], j_spec = None, j_next_run = 0, j_created = 0, j_updated = 0\<rparr>"

theorem maxRunDuration_saturates_witness:
  "maxRunDuration None sample_job = min forever (worst_case None sample_job)
   \<and> worst_case None sample_job = 131 * second"
proof -
  have "is_duration None" by (simp add: is_duration_def)
  moreover have "worst_case None sample_job = 131 * second" by code_simp
  ultimately show ?thesis using maxRunDuration_saturates [of None sample_job] by simp
qed

text \<open>
  C26: The retry loop ends within the reaper's limit: when no attempt outlasts its timeout
  and kill grace, a whole run, its pauses included, takes no longer than
  \<^const>\<open>maxRunDuration\<close> (or that limit is the longest duration there is, which no reaper
  reaches).
\<close>

theorem run_within_maxRunDuration:
  assumes "is_duration custom"
    and "\<forall>a t. snd (once a t) \<le> t + (attempt_timeout j + grace j)"
  shows "snd (exec_run once custom cancelled tie j now) - now \<le> maxRunDuration custom j
    \<or> maxRunDuration custom j = forever"
proof -
  let ?per = "attempt_timeout j + grace j"
  have "0 \<le> ?per" using attempt_timeout_range(1) [of j] grace_range(1) [of j] by linarith
  from run_loop_time [of once ?per, OF _ this max_attempts_pos] assms(2)
  have "snd (exec_run once custom cancelled tie j now) \<le> now + worst_case custom j"
    by (auto simp: exec_run_def worst_case_def Let_def add.assoc)
  then show ?thesis by (auto simp: maxRunDuration_eq [OF assms(1)] min_def)
qed

theorem run_within_maxRunDuration_witness:
  "snd (exec_run (\<lambda>a t. (runOnceShell [] True None [] a t (t + minute), t + minute)) None None
         (\<lambda>_. False) sample_job 7) - 7 \<le> maxRunDuration None sample_job
   \<or> maxRunDuration None sample_job = forever"
proof (rule run_within_maxRunDuration)
  show "is_duration None" by (simp add: is_duration_def)
  have "attempt_timeout sample_job + grace sample_job = 65 * second" by code_simp
  then show "\<forall>a t. snd (runOnceShell [] True None [] a t (t + minute), t + minute)
      \<le> t + (attempt_timeout sample_job + grace sample_job)" by simp
qed

end
