(* ===== verification/Core_Event.thy ===== *)
theory Core_Event
  imports Jobs_Exec
begin

text \<open>
  Events (\<^verbatim>\<open>internal/core/event.go\<close>), the run events of \<^verbatim>\<open>internal/jobs\<close>, the failure
  details of \<^verbatim>\<open>internal/jobs/failure.go\<close> and what \<^verbatim>\<open>internal/notify/message.go\<close> reads
  of an event.

  The program stores a payload and a detail as JSON text. They are kept here as the
  structures that text encodes; a payload that is plain text (a heartbeat's name) stays
  text, and what Go's JSON decoder reads from such a text is an argument of the
  definitions that decode it.
\<close>

section \<open>Events\<close>

datatype event_type =
    RunStarted | RunSucceeded | RunFailed | RunRecovered | JobRemoved
  | HeartbeatMissed | HeartbeatRecovered | HeartbeatRemoved | NotificationFailed
  | OtherEvent string

fun event_name :: "event_type \<Rightarrow> string" where
  "event_name RunStarted = ''run.started''"
| "event_name RunSucceeded = ''run.succeeded''"
| "event_name RunFailed = ''run.failed''"
| "event_name RunRecovered = ''run.recovered''"
| "event_name JobRemoved = ''job.removed''"
| "event_name HeartbeatMissed = ''heartbeat.missed''"
| "event_name HeartbeatRecovered = ''heartbeat.recovered''"
| "event_name HeartbeatRemoved = ''heartbeat.removed''"
| "event_name NotificationFailed = ''notification.failed''"
| "event_name (OtherEvent s) = s"

datatype payload =
    PRun int int string run_status int    \<comment> \<open>run id, job id, job name, status, exit code\<close>
  | PJob int string                       \<comment> \<open>job id, job name\<close>
  | PText string

record failure_detail =
  fd_verdict :: string
  fd_output :: string
  fd_truncated :: bool
  fd_timeout :: int
  fd_http :: int
  fd_failed_runs :: int
  fd_since :: gotime

datatype miss_reason = ReasonMissed | ReasonFailed | ReasonOverran

record miss_detail =
  md_reason :: miss_reason
  md_id :: int
  md_exit :: "int option"
  md_output :: string
  md_last_seen :: gotime
  md_period :: int
  md_started :: gotime
  md_grace :: int

datatype detail =
    DNone
  | DFailure failure_detail
  | DStreak int gotime       \<comment> \<open>the streak a recovery ended\<close>
  | DMiss miss_detail
  | DHeartbeat int           \<comment> \<open>the heartbeat a recovery is of\<close>

record event =
  ev_id :: int
  ev_org :: int
  ev_type :: event_type
  ev_source :: string
  ev_payload :: payload
  ev_dedup :: string
  ev_created :: gotime
  ev_detail :: detail

definition no_failure :: failure_detail where
  "no_failure = \<lparr>fd_verdict = [], fd_output = [], fd_truncated = False, fd_timeout = 0, fd_http = 0,
     fd_failed_runs = 0, fd_since = 0\<rparr>"

section \<open>Run events\<close>

definition dedup_key :: "int \<Rightarrow> event_type \<Rightarrow> string" where
  "dedup_key runID typ = ''run:'' @ dec runID @ '':'' @ event_name typ"

definition RunEvent :: "run \<Rightarrow> string \<Rightarrow> event_type \<Rightarrow> run_status \<Rightarrow> int \<Rightarrow> event" where
  "RunEvent r jobName typ status exitCode =
     \<lparr>ev_id = 0, ev_org = r_org r, ev_type = typ, ev_source = ''jobs.runner'',
      ev_payload = PRun (r_id r) (r_job r) jobName status exitCode,
      ev_dedup = dedup_key (r_id r) typ, ev_created = 0, ev_detail = DNone\<rparr>"

definition RecoveredEvent :: "event \<Rightarrow> int \<Rightarrow> event" where
  "RecoveredEvent succeeded runID =
     succeeded\<lparr>ev_id := 0, ev_type := RunRecovered, ev_dedup := dedup_key runID RunRecovered\<rparr>"

definition JobRemovedEvent :: "int \<Rightarrow> int \<Rightarrow> string \<Rightarrow> event" where
  "JobRemovedEvent orgID jid name =
     \<lparr>ev_id = 0, ev_org = orgID, ev_type = JobRemoved, ev_source = ''jobs'',
      ev_payload = PJob jid name, ev_dedup = ''job:'' @ dec jid @ '':removed'', ev_created = 0,
      ev_detail = DNone\<rparr>"

section \<open>Failure details\<close>

definition givesVerdict :: "job_type \<Rightarrow> bool" where
  "givesVerdict t = (t = TLS \<or> t = Domain \<or> t = Expiry \<or> t = Drill)"

text \<open>\<^verbatim>\<open>strings.LastIndexByte\<close> and \<^verbatim>\<open>strings.Cut\<close> as the code uses them.\<close>

definition dropLastLine :: "string \<Rightarrow> string" where
  "dropLastLine s = (if newline \<in> set s then rev (tl (dropWhile (\<lambda>c. c \<noteq> newline) (rev s))) else [])"

definition str_cut :: "string \<Rightarrow> string \<Rightarrow> string \<times> string" where
  "str_cut s sep =
     (case str_index s sep of
        None \<Rightarrow> (s, [])
      | Some i \<Rightarrow> (take i s, drop (i + length sep) s))"

definition encodeFailure ::
  "job_type \<Rightarrow> int \<Rightarrow> run_status \<Rightarrow> int \<Rightarrow> string \<Rightarrow> bool \<Rightarrow> bool \<Rightarrow> detail" where
  "encodeFailure typ timeoutSeconds status exitCode out0 truncated verdictFirst =
     (let http = typ = HTTP \<and> take 5 out0 = ''HTTP '';
          out1 = (if http then [] else out0);
          out2 = (if truncated then dropLastLine (trim_suffix out1 truncationMarker) else out1);
          (verdict, rest) = str_cut (trim_left [newline] out2) [newline, newline];
          d = \<lparr>fd_verdict = (if verdictFirst then HeadLines verdict MaxOutputTailLines else []),
               fd_output = TailLines (if verdictFirst then rest else out2) MaxOutputTailLines,
               fd_truncated = truncated,
               fd_timeout =
                 (if status = StatusTimedOut
                  then quot (let t = seconds timeoutSeconds in if t \<le> 0 then DefaultTimeout else t) second
                  else 0),
               fd_http = (if http then exitCode else 0),
               fd_failed_runs = 0, fd_since = 0\<rparr>
      in if d = no_failure then DNone else DFailure d)"

definition failureDetail :: "job \<Rightarrow> run_status \<Rightarrow> int \<Rightarrow> string \<Rightarrow> bool \<Rightarrow> detail" where
  "failureDetail j status exitCode out truncated =
     encodeFailure (j_type j) (j_timeout j) status exitCode out truncated (givesVerdict (j_type j))"

definition UnreadableFailureDetail :: "string \<Rightarrow> detail" where
  "UnreadableFailureDetail out = encodeFailure (OtherType []) 0 StatusFailed (-1) out False True"

text \<open>
  \<^verbatim>\<open>WithStreak\<close> decodes the detail as a failure detail, which takes from any other one the
  fields of the same name, and adds the streak.
\<close>

definition WithStreak :: "detail \<Rightarrow> int \<Rightarrow> gotime \<Rightarrow> detail" where
  "WithStreak d failedRuns since =
     (let base = (case d of
          DFailure f \<Rightarrow> f
        | DMiss m \<Rightarrow> no_failure\<lparr>fd_output := md_output m\<rparr>
        | _ \<Rightarrow> no_failure)
      in DFailure (base\<lparr>fd_failed_runs := failedRuns, fd_since := since\<rparr>))"

definition RecoveryDetail :: "int \<Rightarrow> gotime \<Rightarrow> detail" where
  "RecoveryDetail failedRuns since = (if failedRuns \<le> 0 then DNone else DStreak failedRuns since)"

section \<open>What alerts read\<close>

definition alertableTypes :: "event_type list" where
  "alertableTypes = [RunFailed, RunRecovered, HeartbeatMissed, HeartbeatRecovered, JobRemoved,
     HeartbeatRemoved, NotificationFailed]"

definition Alertable :: "event_type \<Rightarrow> bool" where
  "Alertable t \<longleftrightarrow> t \<in> set alertableTypes"

text \<open>What decoding a plain text gives for \<^verbatim>\<open>run_id\<close> and \<^verbatim>\<open>job_id\<close>: (0, 0) when it is no JSON.\<close>

type_synonym json_reader = "string \<Rightarrow> int \<times> int"

definition EventJobID :: "json_reader \<Rightarrow> event \<Rightarrow> int" where
  "EventJobID json e =
     (case ev_payload e of
        PRun _ jobID _ _ _ \<Rightarrow> jobID
      | PJob jobID _ \<Rightarrow> jobID
      | PText s \<Rightarrow> if s = [] then 0 else snd (json s))"

definition EventRunID :: "json_reader \<Rightarrow> event \<Rightarrow> int" where
  "EventRunID json e =
     (case ev_payload e of
        PRun runID _ _ _ _ \<Rightarrow> runID
      | PJob _ _ \<Rightarrow> 0
      | PText s \<Rightarrow> if s = [] then 0 else fst (json s))"

end
