(* ===== verification/Notify_Pacing.thy ===== *)
theory Notify_Pacing
  imports Tend_Prelude
begin

text \<open>
  Alert pacing (\<^verbatim>\<open>internal/notify/pacing.go\<close>): which of a job's failures a channel is
  sent, which are held, and which recoveries it hears of. The decisions are pure functions
  of the state kept for one job on one channel; the store applies them inside its
  transactions. Here they are run over whole histories of one job on one channel, and three
  things are shown: alerts are spaced, a streak is never dropped silently, and a recovery
  reaches exactly the channels that were told of the failure.
\<close>

section \<open>Decisions\<close>

definition DefaultRepeat :: duration where "DefaultRepeat = hour"
definition MinRepeat :: duration where "MinRepeat = minute"
definition MaxRepeat :: duration where "MaxRepeat = 7 * 24 * hour"

text \<open>The channel kinds of the notification package; only the webhook is told apart.\<close>

datatype channel_kind = Webhook | OtherKind string

definition EffectiveRepeat :: "channel_kind \<Rightarrow> duration option \<Rightarrow> duration" where
  "EffectiveRepeat kind rep =
     (case rep of
        Some d \<Rightarrow> d
      | None \<Rightarrow> if kind = Webhook then 0 else DefaultRepeat)"

record alert_state =
  LastSentAt :: gotime
  Held :: bool

definition Told :: "alert_state \<Rightarrow> gotime \<Rightarrow> bool" where
  "Told s since \<longleftrightarrow> LastSentAt s \<noteq> 0 \<and> \<not> LastSentAt s < since"

definition flapHold :: "duration \<Rightarrow> duration" where
  "flapHold rep = min rep DefaultRepeat"

definition slack :: "duration \<Rightarrow> duration" where
  "slack rep = min (quot rep 10) minute"

definition reached :: "gotime \<Rightarrow> gotime \<Rightarrow> duration \<Rightarrow> bool" where
  "reached at mark rep \<longleftrightarrow> \<not> at < mark + - slack rep"

definition PaceFailure ::
  "alert_state \<Rightarrow> bool \<Rightarrow> gotime \<Rightarrow> gotime \<Rightarrow> duration \<Rightarrow> bool \<times> alert_state" where
  "PaceFailure st known at since rep =
     (let told = known \<and> Told st since;
          sent = (True, \<lparr>LastSentAt = at, Held = False\<rparr>)
      in if rep \<le> 0 then sent
         else if told then
           (if \<not> reached at (LastSentAt st + rep) rep then (False, st\<lparr>Held := False\<rparr>) else sent)
         else if known \<and> \<not> reached at (LastSentAt st + flapHold rep) (flapHold rep)
         then (False, st\<lparr>Held := True\<rparr>)
         else sent)"

definition PaceRecovery :: "alert_state \<Rightarrow> bool \<Rightarrow> gotime \<Rightarrow> bool" where
  "PaceRecovery st known since \<longleftrightarrow> \<not> known \<or> since = 0 \<or> Told st since"

definition ReleaseDue :: "alert_state \<Rightarrow> gotime \<Rightarrow> duration \<Rightarrow> bool" where
  "ReleaseDue st now rep =
     (let hold = flapHold rep
      in Held st \<and> (rep \<le> 0 \<or> reached now (LastSentAt st + hold) hold))"

definition Released :: "gotime \<Rightarrow> alert_state" where
  "Released now = \<lparr>LastSentAt = now, Held = False\<rparr>"

section \<open>Histories of one job on one channel\<close>

text \<open>
  What happens to a job as one channel sees it: a failure recorded at a time, of the streak
  that began at another; a recovery (which drops a held failure); a round of the loop that
  releases held failures. A history is applied to the state, if any, and gives the times at
  which failures were sent.
\<close>

datatype pace_event = Failed gotime gotime | Recovered | Round gotime

definition no_state :: alert_state where
  "no_state = \<lparr>LastSentAt = 0, Held = False\<rparr>"

fun pace_step ::
  "duration \<Rightarrow> alert_state option \<Rightarrow> pace_event \<Rightarrow> alert_state option \<times> gotime list" where
  "pace_step rep so (Failed at since) =
     (let (send, next) = PaceFailure (case so of Some st \<Rightarrow> st | None \<Rightarrow> no_state) (so \<noteq> None) at since rep
      in (Some next, if send then [at] else []))"
| "pace_step rep so Recovered = (map_option (\<lambda>st. st\<lparr>Held := False\<rparr>) so, [])"
| "pace_step rep None (Round now) = (None, [])"
| "pace_step rep (Some st) (Round now) =
     (if ReleaseDue st now rep then (Some (Released now), [now]) else (Some st, []))"

fun pace_all ::
  "duration \<Rightarrow> alert_state option \<Rightarrow> pace_event list \<Rightarrow> alert_state option \<times> gotime list" where
  "pace_all rep so [] = (so, [])"
| "pace_all rep so (e # es) =
     (let (so', s) = pace_step rep so e; (so'', ss) = pace_all rep so' es in (so'', s @ ss))"

text \<open>The shortest gap between two alerts.\<close>

definition min_gap :: "duration \<Rightarrow> duration" where
  "min_gap rep = flapHold rep - slack (flapHold rep)"

fun spaced :: "int \<Rightarrow> int list \<Rightarrow> bool" where
  "spaced g (x # y # xs) \<longleftrightarrow> x + g \<le> y \<and> spaced g (y # xs)"
| "spaced g _ \<longleftrightarrow> True"

lemma slack_nonneg: "0 \<le> rep \<Longrightarrow> slack rep = min (rep div 10) minute"
  by (simp add: slack_def quot_nonneg)

lemma gap_mono:
  assumes "0 \<le> r" "r \<le> s"
  shows "r - slack r \<le> s - slack s"
proof -
  have "r div 10 \<le> s div 10" using assms(2) by (rule zdiv_mono1) simp
  moreover have "s div 10 - r div 10 \<le> s - r"
  proof (cases "r div 10 = s div 10")
    case False
    with calculation have "r div 10 + 1 \<le> s div 10" by simp
    moreover have "10 * (s div 10) \<le> s" "r < 10 * (r div 10) + 10" by simp_all
    ultimately show ?thesis by linarith
  qed (use assms in simp)
  ultimately show ?thesis using assms by (auto simp: slack_nonneg min_def)
qed

lemma min_gap_le: "0 < rep \<Longrightarrow> min_gap rep \<le> rep - slack rep"
  unfolding min_gap_def by (rule gap_mono) (auto simp: flapHold_def DefaultRepeat_def)

lemma min_gap_pos: "0 < rep \<Longrightarrow> 0 < min_gap rep"
  using int_div_less_self [of "flapHold rep" 10]
  by (simp add: min_gap_def slack_nonneg flapHold_def DefaultRepeat_def min_less_iff_disj)

text \<open>Each alert a step sends is a gap after the last one and becomes the last one.\<close>

lemma pace_step_sends:
  assumes "0 < rep" "pace_step rep so e = (so', s)"
  shows "s = [] \<and> (so' = None \<longleftrightarrow> so = None) \<and> map_option LastSentAt so' = map_option LastSentAt so
    \<or> (\<exists>at. s = [at] \<and> map_option LastSentAt so' = Some at
         \<and> (\<forall>st. so = Some st \<longrightarrow> LastSentAt st + min_gap rep \<le> at))"
proof (cases e)
  case (Failed at since)
  show ?thesis
  proof (cases so)
    case None
    with assms Failed show ?thesis by (auto simp: PaceFailure_def split: if_splits)
  next
    case (Some st)
    have "LastSentAt st + min_gap rep \<le> at" if "reached at (LastSentAt st + rep) rep"
      using that min_gap_le [OF assms(1)] by (simp add: reached_def)
    with assms Failed Some show ?thesis
      by (auto simp: PaceFailure_def Let_def reached_def min_gap_def split: if_splits)
  qed
next
  case Recovered
  with assms show ?thesis by (cases so) auto
next
  case (Round now)
  with assms show ?thesis
    by (cases so) (auto simp: ReleaseDue_def Released_def Let_def reached_def min_gap_def split: if_splits)
qed

lemma pace_all_spaced:
  assumes "0 < rep" "pace_all rep so es = (so', s)"
  shows "spaced (min_gap rep) (case so of Some st \<Rightarrow> LastSentAt st # s | None \<Rightarrow> s)
    \<and> map_option LastSentAt so'
        = (if s = [] then map_option LastSentAt so else Some (last s))"
  using assms(2)
proof (induction es arbitrary: so s)
  case Nil
  then show ?case by (cases so) auto
next
  case (Cons e es)
  obtain so1 s1 where 1: "pace_step rep so e = (so1, s1)" by force
  obtain s2 where 2: "pace_all rep so1 es = (so', s2)" and s: "s = s1 @ s2"
    using Cons.prems 1 by (auto split: prod.splits)
  note IH = Cons.IH [OF 2]
  show ?case
    using pace_step_sends [OF assms(1) 1] IH s
    by (cases so; cases so1; cases s2) auto
qed



section \<open>Nothing is dropped\<close>

text \<open>The channel heard of the streak, or a failure of it waits to be released.\<close>

definition noted :: "alert_state option \<Rightarrow> gotime \<Rightarrow> bool" where
  "noted so since \<longleftrightarrow> (\<exists>st. so = Some st \<and> (Told st since \<or> Held st))"

fun same_streak :: "gotime \<Rightarrow> pace_event \<Rightarrow> bool" where
  "same_streak since (Failed at since') \<longleftrightarrow> since' = since \<and> since \<le> at"
| "same_streak since (Round now) \<longleftrightarrow> since \<le> now"
| "same_streak since Recovered \<longleftrightarrow> False"

lemma pace_step_noted_failed:
  assumes "0 < since" "since \<le> at"
  shows "noted (fst (pace_step rep so (Failed at since))) since"
  using assms by (cases so) (auto simp: noted_def PaceFailure_def Told_def Let_def)

lemma pace_step_noted:
  assumes "0 < since" "same_streak since e" "noted so since"
  shows "noted (fst (pace_step rep so e)) since"
proof (cases e)
  case (Failed at since')
  with assms pace_step_noted_failed show ?thesis by simp
next
  case (Round now)
  with assms show ?thesis by (auto simp: noted_def Released_def Told_def)
qed (use assms in simp)

lemma pace_all_noted:
  "0 < since \<Longrightarrow> \<forall>e \<in> set es. same_streak since e \<Longrightarrow> noted so since \<Longrightarrow>
   noted (fst (pace_all rep so es)) since"
proof (induction es arbitrary: so)
  case (Cons e es)
  then show ?case
    using pace_step_noted [of since e so rep] by (simp add: split: prod.split) (metis fst_conv)
qed simp

text \<open>
  A streak is never dropped silently: once a failure of a streak was recorded, and
  until the streak ends, a release round an hour or more after the channel's last alert
  leaves the channel told of that streak, whatever came in between.
\<close>

theorem pacing_tells_streak:
  assumes "0 < since" "since \<le> at" "\<forall>e \<in> set es. same_streak since e"
    and "fst (pace_all rep so (Failed at since # es)) = Some st"
    and "since \<le> now" "LastSentAt st + DefaultRepeat \<le> now"
  shows "\<exists>st'. fst (pace_step rep (Some st) (Round now)) = Some st' \<and> Told st' since"
proof -
  have "noted (fst (pace_all rep so (Failed at since # es))) since"
    using pace_all_noted [OF assms(1,3) pace_step_noted_failed [OF assms(1,2), of rep so], of rep]
    by (simp split: prod.splits) (metis fst_conv)
  with assms(4) have st: "Told st since \<or> Held st" by (simp add: noted_def)
  have "0 \<le> slack (flapHold rep)" if "0 < rep"
    using that by (simp add: slack_nonneg flapHold_def DefaultRepeat_def)
  with st assms(1,5,6) show ?thesis
    by (auto simp: ReleaseDue_def Let_def Released_def Told_def reached_def flapHold_def)
qed

theorem pacing_tells_streak_witness:
  "\<exists>st'. fst (pace_step DefaultRepeat (Some \<lparr>LastSentAt = hour, Held = True\<rparr>) (Round (3 * hour))) = Some st'
     \<and> Told st' (hour + minute)"
proof (rule pacing_tells_streak [where at = "hour + minute" and es = "[]"
      and so = "Some \<lparr>LastSentAt = hour, Held = False\<rparr>"])
  show "fst (pace_all DefaultRepeat (Some \<lparr>LastSentAt = hour, Held = False\<rparr>)
      [Failed (hour + minute) (hour + minute)]) = Some \<lparr>LastSentAt = hour, Held = True\<rparr>"
    by code_simp
qed (simp_all add: DefaultRepeat_def)

section \<open>Recoveries\<close>

fun event_time :: "pace_event \<Rightarrow> gotime option" where
  "event_time (Failed at _) = Some at"
| "event_time (Round now) = Some now"
| "event_time Recovered = None"

text \<open>The times at which things happen do not go backwards, and are real times.\<close>

fun in_order :: "gotime \<Rightarrow> pace_event list \<Rightarrow> bool" where
  "in_order t [] \<longleftrightarrow> True"
| "in_order t (e # es) \<longleftrightarrow>
     (case event_time e of Some u \<Rightarrow> t \<le> u \<and> in_order u es | None \<Rightarrow> in_order t es)"

lemma pace_step_time: "pace_step rep so e = (so', s) \<Longrightarrow> x \<in> set s \<Longrightarrow> event_time e = Some x"
  by (cases "(rep, so, e)" rule: pace_step.cases) (auto split: prod.splits if_splits)

lemma pace_all_sorted:
  "in_order t es \<Longrightarrow> sorted (snd (pace_all rep so es)) \<and> (\<forall>x \<in> set (snd (pace_all rep so es)). t \<le> x)"
proof (induction es arbitrary: t so)
  case (Cons e es)
  obtain so1 s1 where 1: "pace_step rep so e = (so1, s1)" by force
  have one: "s1 = [] \<or> (\<exists>x. s1 = [x] \<and> event_time e = Some x)"
    using 1 by (cases "(rep, so, e)" rule: pace_step.cases) (auto split: prod.splits if_splits)
  show ?case
  proof (cases "event_time e")
    case None
    with one Cons.prems Cons.IH [of t so1] 1 show ?thesis by (auto split: prod.splits)
  next
    case (Some u)
    with Cons.prems have "t \<le> u" "in_order u es" by auto
    with one Some Cons.IH [of u so1] 1 show ?thesis by (fastforce split: prod.splits)
  qed
qed simp

lemma pace_all_last:
  assumes "pace_all rep None es = (so', s)"
  shows "map_option LastSentAt so' = (if s = [] then None else Some (last s))"
proof -
  have "map_option LastSentAt so' = (if s = [] then map_option LastSentAt so else Some (last s))"
    if "pace_all rep so es = (so', s)" for so s
    using that
  proof (induction es arbitrary: so s)
    case (Cons e es)
    obtain so1 s1 where 1: "pace_step rep so e = (so1, s1)" by force
    obtain s2 where 2: "pace_all rep so1 es = (so', s2)" and s: "s = s1 @ s2"
      using Cons.prems 1 by (auto split: prod.splits)
    have "map_option LastSentAt so1 = (if s1 = [] then map_option LastSentAt so else Some (last s1))"
      using 1 by (cases "(rep, so, e)" rule: pace_step.cases)
        (auto simp: PaceFailure_def Let_def Released_def no_state_def option.map_comp comp_def
          split: prod.splits if_splits option.splits)
    with Cons.IH [OF 2] s show ?case by (auto simp: last_append)
  qed simp
  from this [OF assms] show ?thesis by simp
qed

text \<open>
  A recovery is sent to a channel if and only if the channel was sent a failure of the
  streak it ends: for a channel with a state for the job and a streak whose start is known,
  after any history whose times do not go backwards.
\<close>

theorem recovery_follows_alert:
  assumes "in_order 1 es" "fst (pace_all rep None es) = Some st" "since \<noteq> 0"
  shows "PaceRecovery st True since \<longleftrightarrow> (\<exists>t \<in> set (snd (pace_all rep None es)). since \<le> t)"
proof -
  obtain s where p: "pace_all rep None es = (Some st, s)" using assms(2) by (metis prod.collapse)
  have srt: "sorted s" "\<forall>x \<in> set s. 1 \<le> x"
    using pace_all_sorted [OF assms(1), of rep None] p by auto
  have s: "s \<noteq> []" "LastSentAt st = last s"
    using pace_all_last [OF p] by (auto split: if_splits)
  have "x \<le> last s" if "x \<in> set s" for x
    using srt(1) that s(1) by (metis in_set_conv_nth last_conv_nth sorted_nth_mono diff_less
        length_greater_0_conv less_Suc_eq_le Suc_pred' zero_less_one)
  moreover have "last s \<in> set s" "1 \<le> last s" using s(1) srt(2) by auto
  ultimately have "Told st since \<longleftrightarrow> (\<exists>t \<in> set s. since \<le> t)"
    unfolding Told_def s(2) by (metis (no_types, opaque_lifting) not_le not_one_le_zero order_trans)
  with assms(3) p show ?thesis by (simp add: PaceRecovery_def)
qed

theorem recovery_follows_alert_witness:
  "PaceRecovery \<lparr>LastSentAt = hour, Held = True\<rparr> True (hour + minute)
   \<longleftrightarrow> (\<exists>t \<in> set (snd (pace_all DefaultRepeat None
          [Failed hour hour, Recovered, Failed (hour + minute) (hour + minute)])). hour + minute \<le> t)"
proof (rule recovery_follows_alert)
  show "fst (pace_all DefaultRepeat None [Failed hour hour, Recovered, Failed (hour + minute) (hour + minute)])
     = Some \<lparr>LastSentAt = hour, Held = True\<rparr>" by code_simp
qed simp_all

end
