(* ===== verification/Notify_Repeat.thy ===== *)
theory Notify_Repeat
  imports Go_Duration Notify_Pacing
begin

text \<open>
  Reminder intervals as text: \<open>ParseRepeat\<close> and \<open>FormatRepeat\<close> of \<^verbatim>\<open>internal/notify/pacing.go\<close>,
  the form in which \<^verbatim>\<open>tend.yml\<close>, the command line and the dashboard read and show a rule's
  interval.
\<close>

datatype repeat_error = RepeatNotDuration string | RepeatOutOfRange string

definition ParseRepeat :: "string \<Rightarrow> repeat_error + duration" where
  "ParseRepeat s0 =
     (let s = trim_space s0 in
      if s = ''every'' \<or> s = ''0'' then Inr 0
      else case ParseDuration s of
        None \<Rightarrow> Inl (RepeatNotDuration s)
      | Some d \<Rightarrow>
          if d = 0 then Inr 0
          else if d < MinRepeat \<or> d > MaxRepeat then Inl (RepeatOutOfRange s)
          else Inr d)"

text \<open>The units that are zero at the end of a printed duration are left out.\<close>

definition drop_zero_units :: "string \<Rightarrow> string" where
  "drop_zero_units s0 =
     (let s1 = (if suffix ''m0s'' s0 then trim_suffix s0 ''0s'' else s0)
      in if suffix ''h0m'' s1 then trim_suffix s1 ''0m'' else s1)"

definition FormatRepeat :: "duration \<Rightarrow> string" where
  "FormatRepeat d = (if d \<le> 0 then ''every'' else drop_zero_units (duration_string d))"

section \<open>The shape of a printed interval\<close>

lemma suffix_after_last:
  assumes "c \<notin> set a" "c \<notin> set b"
  shows "suffix (c # a) (xs @ c # b) \<longleftrightarrow> a = b"
proof
  assume "suffix (c # a) (xs @ c # b)"
  then obtain zs where "xs @ c # b = zs @ c # a" by (auto simp: suffix_def)
  then have "rev (xs @ c # b) = rev (zs @ c # a)" by (rule arg_cong)
  then have "takeWhile (\<lambda>x. x \<noteq> c) (rev b @ c # rev xs) = takeWhile (\<lambda>x. x \<noteq> c) (rev a @ c # rev zs)" by simp
  moreover have "takeWhile (\<lambda>x. x \<noteq> c) (rev ys @ c # zs) = rev ys" if "c \<notin> set ys" for ys zs
    using that by (intro while_append) (auto simp: list.pred_set)
  ultimately show "a = b" using assms by simp
qed (simp add: suffix_def)

lemma trim_suffix_append [simp]: "trim_suffix (xs @ suf) suf = xs"
  by (simp add: trim_suffix_def)

lemma digits_plain: "list_all is_digit ds \<Longrightarrow> \<not> is_digit c \<Longrightarrow> c \<notin> set ds"
  by (auto simp: list.pred_set)

lemma dec_nat_plain [simp]: "\<not> is_digit c \<Longrightarrow> c \<notin> set (dec_nat n)"
  by (rule digits_plain) simp

lemma units_not_digits [simp]: "\<not> is_digit (CHR ''h'')" "\<not> is_digit (CHR ''m'')" "\<not> is_digit (CHR ''s'')"
  by (simp_all add: is_digit_def)

lemma dec_nat_0 [simp]: "dec_nat 0 = ''0''"
  by code_simp

lemma dec_nat_eq_0 [simp]: "dec_nat n = ''0'' \<longleftrightarrow> n = 0"
  by (metis dec_nat_0 decimal_dec_nat of_nat_eq_iff)

lemma zero_eq_dec_nat [simp]: "''0'' = dec_nat n \<longleftrightarrow> n = 0"
  using dec_nat_eq_0 [of n] by fastforce

text \<open>The seconds of a duration, with their fraction.\<close>

definition seconds_text :: "nat \<Rightarrow> nat \<Rightarrow> string" where
  "seconds_text s n = dec_nat s @ frac_text 9 n"

lemma frac_text_0 [simp]: "frac_text 9 0 = []"
  by code_simp

lemma seconds_text_plain:
  assumes "n < 1000000000"
  shows "CHR ''m'' \<notin> set (seconds_text s n)" "CHR ''h'' \<notin> set (seconds_text s n)"
    "seconds_text s n = ''0'' \<longleftrightarrow> s = 0 \<and> n = 0"
proof -
  consider "n = 0" | ds where "frac_text 9 n = CHR ''.'' # ds" "list_all is_digit ds" "n \<noteq> 0"
    using frac_text_digits [of n 9] assms by force
  then have "CHR ''m'' \<notin> set (seconds_text s n) \<and> CHR ''h'' \<notin> set (seconds_text s n)
    \<and> (seconds_text s n = ''0'' \<longleftrightarrow> s = 0 \<and> n = 0)"
  proof cases
    case (2 ds)
    have "seconds_text s n \<noteq> ''0''"
    proof
      assume "seconds_text s n = ''0''"
      then have "CHR ''.'' \<in> set ''0''" by (metis 2(1) list.set_intros(1) seconds_text_def set_append UnI2)
      then show False by simp
    qed
    with 2 show ?thesis by (simp add: seconds_text_def digits_plain)
  qed (simp add: seconds_text_def)
  then show "CHR ''m'' \<notin> set (seconds_text s n)" "CHR ''h'' \<notin> set (seconds_text s n)"
    "seconds_text s n = ''0'' \<longleftrightarrow> s = 0 \<and> n = 0" by blast+
qed

text \<open>A duration of a minute or more: hours, minutes and seconds, without the zero units at the end.\<close>

definition hms_text :: "nat \<Rightarrow> nat \<Rightarrow> nat \<Rightarrow> nat \<Rightarrow> string" where
  "hms_text h m s n =
     (if h = 0 then [] else dec_nat h @ ''h'')
     @ (if m = 0 \<and> s = 0 \<and> n = 0 then [] else dec_nat m @ ''m'')
     @ (if s = 0 \<and> n = 0 then [] else seconds_text s n @ ''s'')"

lemma drop_zero_units_hms:
  assumes "n < 1000000000" "h \<noteq> 0 \<or> m \<noteq> 0"
  shows "drop_zero_units ((if h = 0 then [] else dec_nat h @ ''h'') @ dec_nat m @ ''m'' @ seconds_text s n @ ''s'')
    = hms_text h m s n"
proof -
  let ?h = "if h = 0 then [] else dec_nat h @ ''h''"
  note p = seconds_text_plain [OF assms(1), of s]
  have m: "suffix ''m0s'' (?h @ dec_nat m @ ''m'' @ seconds_text s n @ ''s'') \<longleftrightarrow> s = 0 \<and> n = 0"
    using suffix_after_last [of "CHR ''m''" "''0s''" "seconds_text s n @ ''s''" "?h @ dec_nat m"] p
    by (auto simp: append_eq_append_conv2)
  show ?thesis
  proof (cases "s = 0 \<and> n = 0")
    case True
    have "trim_suffix (?h @ dec_nat m @ ''m'' @ ''0s'') ''0s'' = ?h @ dec_nat m @ ''m''"
      using trim_suffix_append [of "?h @ dec_nat m @ ''m''" "''0s''"] by simp
    moreover have "suffix ''h0m'' (?h @ dec_nat m @ ''m'') \<longleftrightarrow> h \<noteq> 0 \<and> m = 0"
      using suffix_after_last [of "CHR ''h''" "''0m''" "dec_nat m @ ''m''" "dec_nat h"]
      by (auto dest: set_mono_suffix simp: append_eq_append_conv2)
    moreover have "trim_suffix (dec_nat h @ ''h'' @ ''0m'') ''0m'' = dec_nat h @ ''h''"
      using trim_suffix_append [of "dec_nat h @ ''h''" "''0m''"] by simp
    ultimately show ?thesis
      using True m assms(2) by (auto simp: drop_zero_units_def hms_text_def seconds_text_def)
  next
    case False
    have "\<not> suffix ''h0m'' (?h @ dec_nat m @ ''m'' @ seconds_text s n @ ''s'')"
      by (auto simp: suffix_def append_eq_append_conv2 dest!: arg_cong [of _ _ last])
    with False m show ?thesis by (auto simp: drop_zero_units_def hms_text_def Let_def)
  qed
qed

lemma duration_string_hms:
  assumes "nat d = u" "u div 1000000000 = q" "u mod 1000000000 = n" "60 \<le> q"
    "q div 60 = k" "k \<noteq> 0" "k div 60 = h" "k mod 60 = m" "q mod 60 = s"
  shows "duration_string d = (if h = 0 then [] else dec_nat h @ ''h'') @ dec_nat m @ ''m'' @ seconds_text s n @ ''s''"
proof -
  have "60000000000 \<le> u" using assms(2,4) mult_div_mod_eq [of 1000000000 u] by linarith
  moreover from this have "nat \<bar>d\<bar> = u" "\<not> d < 0" using assms(1) by auto
  ultimately show ?thesis
    by (simp add: duration_string_def Let_def seconds_text_def assms(2-9) del: div_mult2_eq)
qed

lemma FormatRepeat_hms:
  assumes "minute \<le> d"
  defines "q \<equiv> nat d div 1000000000"
  shows "FormatRepeat d = hms_text (q div 3600) (q div 60 mod 60) (q mod 60) (nat d mod 1000000000)"
proof -
  have "60000000000 \<le> nat d" using assms(1) by simp
  from div_le_mono [OF this, of 1000000000] have q: "60 \<le> q" by (simp add: q_def)
  have h: "q div 60 div 60 = q div 3600" by (simp flip: div_mult2_eq)
  have m: "q div 60 \<noteq> 0" using div_le_mono [OF q, of 60] by simp
  then have hm: "q div 3600 \<noteq> 0 \<or> q div 60 mod 60 \<noteq> 0"
    by (metis h add_0 div_mult_mod_eq mult_0)
  have qe: "nat d div 1000000000 = q" by (simp add: q_def)
  have "\<not> d \<le> 0" "nat d mod 1000000000 < 1000000000" using assms(1) by simp_all
  then show ?thesis
    unfolding FormatRepeat_def duration_string_hms [OF refl qe refl q refl m h refl refl]
    using drop_zero_units_hms [OF _ hm] by simp
qed

lemma parse_terms_step:
  assumes "parse_term s = Some (v, r)" "s \<noteq> []" "0 \<le> d + v" "d + v \<le> 2 ^ 63"
  shows "parse_terms d s = parse_terms (d + v) r"
  using assms by (simp add: parse_terms.simps [of d s] Let_def)

lemma parse_terms_seconds:
  assumes "s < 60" "n < 1000000000" "0 \<le> d" "d \<le> 2 ^ 60"
  shows "parse_terms d (if s = 0 \<and> n = 0 then [] else seconds_text s n @ ''s'') = Some (d + int s * second + int n)"
proof (cases "s = 0 \<and> n = 0")
  case True
  then show ?thesis by (simp add: parse_terms.simps)
next
  case False
  have "parse_terms d (seconds_text s n @ ''s'') = parse_terms (d + (int s * second + int n)) []"
    using parse_term_seconds [OF assms(2,1)] assms by (intro parse_terms_step) (simp_all add: seconds_text_def)
  with False show ?thesis by (auto simp: parse_terms.simps [of _ "[]"])
qed

lemma parse_terms_unit:
  assumes "unit_of u = Some unit" "list_all unit_char u" "r = [] \<or> is_digit (hd r)" "v \<le> 200" "0 \<le> d" "d \<le> 2 ^ 59"
    "0 < unit" "unit \<le> hour"
  shows "parse_terms d (dec_nat v @ u @ r) = parse_terms (d + int v * unit) r"
proof (rule parse_terms_step)
  have "int v * unit \<le> 200 * hour" using assms(4,7,8) by (intro mult_mono) simp_all
  moreover have "0 \<le> int v * unit" using assms(7) by simp
  ultimately show "0 \<le> d + int v * unit" "d + int v * unit \<le> 2 ^ 63" using assms(5,6) by auto
  have "2 ^ 63 div hour \<le> 2 ^ 63 div unit" using assms(7,8) by (intro zdiv_mono2) simp_all
  with assms(4) have "int v \<le> 2 ^ 63 div unit" by simp
  with assms show "parse_term (dec_nat v @ u @ r) = Some (int v * unit, r)" by (intro parse_term_whole) simp_all
qed simp

lemma hms_starts: "m < 60 \<Longrightarrow> hms_text 0 m s n = [] \<or> is_digit (hd (hms_text 0 m s n))"
  using hd_dec_nat [of m] hd_dec_nat [of s] by (auto simp: hms_text_def seconds_text_def)

lemma parse_terms_hms:
  assumes "h \<le> 200" "m < 60" "s < 60" "n < 1000000000"
  shows "parse_terms 0 (hms_text h m s n) = Some (int h * hour + int m * minute + int s * second + int n)"
proof -
  let ?s = "if s = 0 \<and> n = 0 then [] else seconds_text s n @ ''s''"
  have units: "unit_of ''h'' = Some hour" "unit_of ''m'' = Some minute" "list_all unit_char ''h''" "list_all unit_char ''m''"
    by (simp_all add: unit_of_def unit_char_def)
  have rest: "parse_terms d (hms_text 0 m s n) = Some (d + int m * minute + int s * second + int n)"
    if d: "0 \<le> d" "d \<le> 2 ^ 59" for d
  proof (cases "m = 0 \<and> s = 0 \<and> n = 0")
    case True
    then show ?thesis by (simp add: hms_text_def parse_terms.simps)
  next
    case False
    have "?s = [] \<or> is_digit (hd ?s)" using hd_dec_nat [of s] by (simp add: seconds_text_def)
    moreover have "hms_text 0 m s n = dec_nat m @ ''m'' @ ?s" using False by (auto simp: hms_text_def)
    ultimately have "parse_terms d (hms_text 0 m s n) = parse_terms (d + int m * minute) ?s"
      using assms(2) d by (simp only:) (rule parse_terms_unit [OF units(2,4)]; simp)
    also have "\<dots> = Some (d + int m * minute + int s * second + int n)"
      using assms d by (intro parse_terms_seconds) auto
    finally show ?thesis .
  qed
  show ?thesis
  proof (cases "h = 0")
    case True
    with rest [of 0] show ?thesis by simp
  next
    case False
    then have "hms_text h m s n = dec_nat h @ ''h'' @ hms_text 0 m s n" by (simp add: hms_text_def)
    then have "parse_terms 0 (hms_text h m s n) = parse_terms (int h * hour) (hms_text 0 m s n)"
      using parse_terms_unit [OF units(1,3) hms_starts [OF assms(2)], of h 0] assms(1) by simp
    with rest [of "int h * hour"] assms(1) show ?thesis by simp
  qed
qed

section \<open>Round trip\<close>

lemma digit_visible: "is_digit c \<Longrightarrow> visible c"
  by (simp add: is_digit_def visible_def)

lemma hms_visible:
  assumes "hms_text h m s n \<noteq> []"
  shows "is_digit (hd (hms_text h m s n))" "last (hms_text h m s n) \<in> set ''hms''"
  using assms hd_dec_nat [of h] hd_dec_nat [of m] hd_dec_nat [of s]
  by (auto simp: hms_text_def seconds_text_def split: if_splits)

text \<open>
  A rule's reminder interval survives being shown and read again: for every interval a
  rule can have (0, or from a minute to a week, to the nanosecond), \<^verbatim>\<open>ParseRepeat\<close> reads what
  \<^verbatim>\<open>FormatRepeat\<close> prints, with its zero units left out and its fraction of a second taken
  through floating point.
\<close>

theorem repeat_roundtrip:
  assumes "d = 0 \<or> MinRepeat \<le> d \<and> d \<le> MaxRepeat"
  shows "ParseRepeat (FormatRepeat d) = Inr d"
proof (cases "d = 0")
  case True
  have "ParseRepeat ''every'' = Inr 0" by (simp add: ParseRepeat_def trim_space_visible visible_def)
  with True show ?thesis by (simp add: FormatRepeat_def)
next
  case False
  define q n where "q = nat d div 1000000000" and "n = nat d mod 1000000000"
  let ?t = "hms_text (q div 3600) (q div 60 mod 60) (q mod 60) n"
  from False assms have d: "minute \<le> d" "d \<le> 168 * hour" by (simp_all add: MinRepeat_def MaxRepeat_def)
  have "nat d \<le> 604800000000000" using d(2) by simp
  from div_le_mono [OF this, of 1000000000] have q: "q \<le> 604800" by (simp add: q_def)
  from div_le_mono [OF this, of 3600] have h: "q div 3600 \<le> 200" by simp
  have "q = 3600 * (q div 3600) + 60 * (q div 60 mod 60) + q mod 60"
  proof -
    have "q div 3600 = q div 60 div 60" by (simp flip: div_mult2_eq)
    with mult_div_mod_eq [of 60 q] mult_div_mod_eq [of 60 "q div 60"] show ?thesis by linarith
  qed
  moreover have "nat d = q * 1000000000 + n" by (simp add: q_def n_def)
  ultimately have "int (nat d) = (3600 * int (q div 3600) + 60 * int (q div 60 mod 60) + int (q mod 60)) * second + int n"
    by (metis (no_types, opaque_lifting) of_nat_add of_nat_mult of_nat_numeral)
  then have "int (q div 3600) * hour + int (q div 60 mod 60) * minute + int (q mod 60) * second + int n = d"
    using d(1) by (simp add: algebra_simps)
  then have parse: "parse_terms 0 ?t = Some d"
    using parse_terms_hms [OF h, of "q div 60 mod 60" "q mod 60" n] by (simp add: n_def)
  have ne: "?t \<noteq> []" using parse d by (auto simp: parse_terms.simps)
  note v = hms_visible [OF ne]
  have hd: "hd ?t \<noteq> CHR ''-''" "hd ?t \<noteq> CHR ''+''" "hd ?t \<noteq> CHR ''e''" using v(1) by (auto simp: is_digit_def)
  have "?t \<noteq> ''0''" "?t \<noteq> ''every''" using v hd by fastforce+
  moreover have "ParseDuration ?t = Some d"
    using ne hd calculation(1) parse d(2) by (simp add: ParseDuration_def)
  moreover have "visible (last ?t)" using v(2) by (auto simp: visible_def)
  then have "trim_space ?t = ?t" by (rule trim_space_visible [OF ne digit_visible [OF v(1)]])
  ultimately show ?thesis
    using False assms FormatRepeat_hms [OF d(1)] by (auto simp: ParseRepeat_def Let_def q_def n_def)
qed

theorem repeat_roundtrip_witness:
  "ParseRepeat (FormatRepeat (90 * minute + 500000000)) = Inr (90 * minute + 500000000)
   \<and> FormatRepeat (90 * minute + 500000000) = ''1h30m0.5s''"
proof -
  have "MinRepeat \<le> 90 * minute + 500000000 \<and> 90 * minute + 500000000 \<le> MaxRepeat" by code_simp
  with repeat_roundtrip [of "90 * minute + 500000000"]
  have "ParseRepeat (FormatRepeat (90 * minute + 500000000)) = Inr (90 * minute + 500000000)" by simp
  moreover have "FormatRepeat (90 * minute + 500000000) = ''1h30m0.5s''"
    by (simp add: FormatRepeat_hms hms_text_def seconds_text_def frac_text_def pad_dec_def dec_nat.simps digit_def)
      code_simp
  ultimately show ?thesis ..
qed

end
