(* ===== verification/Heartbeat_Model.thy ===== *)
theory Heartbeat_Model
  imports Core_Event
begin

text \<open>
  Heartbeats (\<^verbatim>\<open>internal/heartbeat\<close>): the record, its deadline, the events of its life and
  the pings it receives.
\<close>

section \<open>Heartbeats and deadlines\<close>

datatype hb_status = HbNew | HbUp | HbDown

record heartbeat =
  hb_id :: int
  hb_org :: int
  hb_name :: string
  hb_token :: string
  hb_last_seen :: gotime
  hb_period :: int
  hb_grace :: int
  hb_status :: hb_status
  hb_created :: gotime
  hb_started :: gotime
  hb_rid :: string

definition RunGrace :: "heartbeat \<Rightarrow> duration" where
  "RunGrace h = (if hb_grace h > 0 then dur_seconds (hb_grace h) else dur_seconds (hb_period h))"

text \<open>The deadline, whether it is that of a started run, and whether the heartbeat is watched.\<close>

definition Deadline :: "heartbeat \<Rightarrow> gotime \<times> bool \<times> bool" where
  "Deadline h =
     (if hb_period h \<le> 0 \<or> hb_status h = HbDown then (0, False, False)
      else
        let anchor = (if hb_status h = HbNew then hb_created h else hb_last_seen h) in
        if anchor = 0 then (0, False, False)
        else
          let grace = dur_seconds (hb_grace h);
              deadline = anchor + wrap64 (dur_seconds (hb_period h) + grace);
              run = hb_started h + RunGrace h
          in if hb_started h \<noteq> 0 \<and> run < deadline then (run, True, True)
             else (deadline, False, True))"

definition watched :: "heartbeat \<Rightarrow> bool" where
  "watched h = snd (snd (Deadline h))"

definition overdue :: "heartbeat \<Rightarrow> gotime \<Rightarrow> bool" where
  "overdue h now = (let (deadline, _, watched) = Deadline h in watched \<and> now > deadline)"

section \<open>Events\<close>

definition MissedEvent :: "int \<Rightarrow> string \<Rightarrow> event" where
  "MissedEvent orgID name =
     \<lparr>ev_id = 0, ev_org = orgID, ev_type = HeartbeatMissed, ev_source = ''heartbeat'',
      ev_payload = PText name, ev_dedup = [], ev_created = 0, ev_detail = DNone\<rparr>"

definition HbRecoveredEvent :: "int \<Rightarrow> int \<Rightarrow> string \<Rightarrow> event" where
  "HbRecoveredEvent orgID hid name =
     \<lparr>ev_id = 0, ev_org = orgID, ev_type = HeartbeatRecovered, ev_source = ''heartbeat'',
      ev_payload = PText name, ev_dedup = [], ev_created = 0,
      ev_detail = (if hid > 0 then DHeartbeat hid else DNone)\<rparr>"

definition HbRemovedEvent :: "int \<Rightarrow> string \<Rightarrow> event" where
  "HbRemovedEvent orgID name =
     \<lparr>ev_id = 0, ev_org = orgID, ev_type = HeartbeatRemoved, ev_source = ''heartbeat'',
      ev_payload = PText name, ev_dedup = [], ev_created = 0, ev_detail = DNone\<rparr>"

definition plain_miss :: miss_detail where
  "plain_miss = \<lparr>md_reason = ReasonMissed, md_id = 0, md_exit = None, md_output = [],
     md_last_seen = 0, md_period = 0, md_started = 0, md_grace = 0\<rparr>"

definition FailedEvent :: "int \<Rightarrow> int \<Rightarrow> string \<Rightarrow> int option \<Rightarrow> string \<Rightarrow> event" where
  "FailedEvent orgID hid name exitStatus body =
     (MissedEvent orgID name)
       \<lparr>ev_detail := DMiss (plain_miss\<lparr>md_reason := ReasonFailed, md_id := hid, md_exit := exitStatus,
          md_output := TailLines body MaxOutputTailLines\<rparr>)\<rparr>"

definition OverdueEvent :: "heartbeat \<Rightarrow> event" where
  "OverdueEvent hb =
     (MissedEvent (hb_org hb) (hb_name hb))
       \<lparr>ev_detail := DMiss (plain_miss\<lparr>md_id := hb_id hb, md_last_seen := hb_last_seen hb,
          md_period := hb_period hb, md_grace := hb_grace hb\<rparr>)\<rparr>"

definition OverranEvent :: "heartbeat \<Rightarrow> event" where
  "OverranEvent hb =
     (MissedEvent (hb_org hb) (hb_name hb))
       \<lparr>ev_detail := DMiss (plain_miss\<lparr>md_reason := ReasonOverran, md_id := hb_id hb,
          md_started := hb_started hb, md_grace := quot (RunGrace hb) second\<rparr>)\<rparr>"

definition IDOf :: "detail \<Rightarrow> int" where
  "IDOf d = (case d of DMiss m \<Rightarrow> md_id m | DHeartbeat i \<Rightarrow> i | _ \<Rightarrow> 0)"

definition ParseMissDetail :: "detail \<Rightarrow> miss_detail option" where
  "ParseMissDetail d = (case d of DMiss m \<Rightarrow> Some m | _ \<Rightarrow> None)"

section \<open>Pings\<close>

datatype ping_kind = PingSuccess | PingStart | PingFail | PingLog | OtherPing string

definition ValidPingKind :: "ping_kind \<Rightarrow> bool" where
  "ValidPingKind k = (k = PingSuccess \<or> k = PingStart \<or> k = PingFail \<or> k = PingLog)"

definition MaxRunDuration :: duration where "MaxRunDuration = 72 * hour"

record ping_input =
  pi_kind :: ping_kind
  pi_exit :: "int option"
  pi_rid :: string
  pi_body :: string

record ping =
  pg_id :: int
  pg_org :: int
  pg_hb :: int
  pg_kind :: ping_kind
  pg_exit :: "int option"
  pg_rid :: string
  pg_duration :: "int option"    \<comment> \<open>milliseconds\<close>
  pg_body :: string
  pg_created :: gotime

record ping_result =
  pr_org :: int
  pr_hb :: int
  pr_name :: string
  pr_event :: "event option"

definition is_hex :: "char \<Rightarrow> bool" where
  "is_hex c \<longleftrightarrow> is_digit c \<or> 97 \<le> byte c \<and> byte c \<le> 102 \<or> 65 \<le> byte c \<and> byte c \<le> 70"

definition CanonicalUUID :: "string \<Rightarrow> string option" where
  "CanonicalUUID s =
     (if length s \<noteq> 36 then None
      else if list_all (\<lambda>(i, c). if i = 8 \<or> i = 13 \<or> i = 18 \<or> i = 23 then c = CHR ''-'' else is_hex c)
                (enumerate 0 s)
      then Some (map lower s) else None)"

section \<open>Deadlines move one way\<close>

text \<open>
  A started run can only bring a heartbeat's deadline forward: with or without it the
  heartbeat is watched alike, and its deadline is never later than without it. It is
  reported as an overrun exactly when it is the earlier of the two.
\<close>

theorem Deadline_start_never_later:
  "watched h = watched (h\<lparr>hb_started := 0\<rparr>)
   \<and> (watched h \<longrightarrow> fst (Deadline h) \<le> fst (Deadline (h\<lparr>hb_started := 0\<rparr>)))
   \<and> (watched h \<longrightarrow> (fst (snd (Deadline h)) \<longleftrightarrow>
        fst (Deadline h) < fst (Deadline (h\<lparr>hb_started := 0\<rparr>))))"
  by (simp add: watched_def Deadline_def Let_def RunGrace_def)

abbreviation (input) sample_hb :: heartbeat where
  "sample_hb \<equiv> \<lparr>hb_id = 1, hb_org = 1, hb_name = ''n'', hb_token = ''t'', hb_last_seen = 100 * hour,
     hb_period = 3600, hb_grace = 60, hb_status = HbUp, hb_created = 90 * hour, hb_started = 100 * hour + minute,
     hb_rid = []\<rparr>"

theorem Deadline_start_never_later_witness:
  "watched sample_hb \<and> fst (Deadline sample_hb) = 100 * hour + 2 * minute
   \<and> fst (Deadline sample_hb) \<le> fst (Deadline (sample_hb\<lparr>hb_started := 0\<rparr>))"
proof -
  have "watched sample_hb" "fst (Deadline sample_hb) = 100 * hour + 2 * minute" by code_simp+
  with Deadline_start_never_later [of sample_hb] show ?thesis by blast
qed

section \<open>Run ids\<close>

lemma lower_hex: "is_hex c \<Longrightarrow> is_hex (lower c)"
  by (auto simp: is_hex_def is_digit_def lower_def)

lemma CanonicalUUID_fixed:
  assumes "CanonicalUUID s = Some u"
  shows "CanonicalUUID u = Some u \<and> length u = 36"
proof -
  have s: "length s = 36" "u = map lower s"
    and ok: "\<And>i. i < 36 \<Longrightarrow> if i = 8 \<or> i = 13 \<or> i = 18 \<or> i = 23 then s ! i = CHR ''-'' else is_hex (s ! i)"
    using assms by (auto simp: CanonicalUUID_def list_all_length nth_enumerate_eq split: if_splits)
  have "map lower u = u" by (simp add: s(2) lower_idem)
  moreover have "lower (CHR ''-'') = CHR ''-''" by (simp add: lower_def)
  ultimately show ?thesis
    using s ok lower_hex by (auto simp: CanonicalUUID_def list_all_length nth_enumerate_eq)
qed

text \<open>
  The canonical form of a run id is a fixed point: it is accepted and left as it is,
  so that a start and a completion that spell one id in different letter cases are one run.
\<close>

theorem CanonicalUUID_canonical:
  assumes "CanonicalUUID s = Some u"
  shows "CanonicalUUID u = Some u \<and> length u = 36"
  by (rule CanonicalUUID_fixed [OF assms])

theorem CanonicalUUID_canonical_witness:
  "CanonicalUUID ''6BA7B810-9DAD-11D1-80B4-00C04FD430C8'' = Some ''6ba7b810-9dad-11d1-80b4-00c04fd430c8''
   \<and> CanonicalUUID ''6ba7b810-9dad-11d1-80b4-00c04fd430c8'' = Some ''6ba7b810-9dad-11d1-80b4-00c04fd430c8''"
proof -
  have "CanonicalUUID ''6BA7B810-9DAD-11D1-80B4-00C04FD430C8'' = Some ''6ba7b810-9dad-11d1-80b4-00c04fd430c8''"
    by code_simp
  with CanonicalUUID_canonical [OF this] show ?thesis by blast
qed

end
