(* ===== verification/Jobs_Spec.thy ===== *)
theory Jobs_Spec
  imports Notify_Repeat Heartbeat_Model
begin

text \<open>
  The settings of the probes and the restore drill and their validation:
  \<^verbatim>\<open>internal/jobs/spec.go\<close>. What \<^verbatim>\<open>url.Parse\<close> makes of a URL, its scheme and its host, is an
  argument.
\<close>

section \<open>Settings\<close>

record spec =
  sp_warn_days :: int
  sp_host :: string
  sp_port :: int
  sp_server_name :: string
  sp_starttls :: string
  sp_insecure :: bool
  sp_ca_file :: string
  sp_renew_after :: rat
  sp_domain :: string
  sp_rdap_url :: string
  sp_expires_at :: gotime
  sp_expiry_command :: string
  sp_restore :: string
  sp_checks :: "string list"
  sp_cleanup :: string
  sp_scratch_dir :: string
  sp_max_duration :: int

definition zero_spec :: spec where
  "zero_spec = \<lparr>sp_warn_days = 0, sp_host = [], sp_port = 0, sp_server_name = [], sp_starttls = [],
     sp_insecure = False, sp_ca_file = [], sp_renew_after = 0, sp_domain = [], sp_rdap_url = [],
     sp_expires_at = 0, sp_expiry_command = [], sp_restore = [], sp_checks = [], sp_cleanup = [],
     sp_scratch_dir = [], sp_max_duration = 0\<rparr>"

definition DefaultTLSWarnDays :: int where "DefaultTLSWarnDays = 14"
definition DefaultDomainWarnDays :: int where "DefaultDomainWarnDays = 30"
definition DefaultExpiryWarnDays :: int where "DefaultExpiryWarnDays = 14"
definition MaxWarnDays :: int where "MaxWarnDays = 3650"

fun DefaultWarnDays :: "job_type \<Rightarrow> int" where
  "DefaultWarnDays TLS = DefaultTLSWarnDays"
| "DefaultWarnDays Domain = DefaultDomainWarnDays"
| "DefaultWarnDays Expiry = DefaultExpiryWarnDays"
| "DefaultWarnDays _ = 0"

section \<open>Addresses\<close>

text \<open>\<^verbatim>\<open>net.ParseIP\<close>: whether a text is an IPv4 or an IPv6 address, without a zone.\<close>

definition ipv4_field :: "string \<Rightarrow> bool" where
  "ipv4_field f \<longleftrightarrow> f \<noteq> [] \<and> list_all is_digit f \<and> (length f > 1 \<longrightarrow> hd f \<noteq> CHR ''0'') \<and> decimal f \<le> 255"

definition is_ipv4 :: "string \<Rightarrow> bool" where
  "is_ipv4 s \<longleftrightarrow> (let fs = split_on (CHR ''.'') s in length fs = 4 \<and> list_all ipv4_field fs)"

text \<open>
  The groups of an IPv6 address, from group \<open>i\<close> on; \<open>ellipsis\<close> says that a double colon was
  seen. The last two groups may be an IPv4 address.
\<close>

function ipv6_groups :: "nat \<Rightarrow> bool \<Rightarrow> string \<Rightarrow> bool" where
  "ipv6_groups i ellipsis s =
     (if 8 \<le> i then s = [] \<and> \<not> ellipsis
      else
        let g = takeWhile is_hex s; r = dropWhile is_hex s in
        if g = [] \<or> length g > 4 then False
        else if r \<noteq> [] \<and> hd r = CHR ''.'' then
          (ellipsis \<or> i = 6) \<and> i \<le> 6 \<and> is_ipv4 s \<and> (i + 2 < 8 \<longrightarrow> ellipsis) \<and> (i + 2 = 8 \<longrightarrow> \<not> ellipsis)
        else if r = [] then (if i + 1 < 8 then ellipsis else \<not> ellipsis)
        else if hd r \<noteq> CHR '':'' \<or> length r = 1 then False
        else if r ! 1 = CHR '':'' then
          \<not> ellipsis \<and> (if length r = 2 then i + 1 < 8 else ipv6_groups (i + 1) True (drop 2 r))
        else ipv6_groups (i + 1) ellipsis (drop 1 r))"
  by pat_completeness auto
termination
  by (relation "measure (\<lambda>(i, _, _). 8 - i)") auto

declare ipv6_groups.simps [simp del]

definition is_ipv6 :: "string \<Rightarrow> bool" where
  "is_ipv6 s \<longleftrightarrow>
     (if has_prefix s ''::'' then s = ''::'' \<or> ipv6_groups 0 True (drop 2 s) else ipv6_groups 0 False s)"

text \<open>The first of a dot, a colon and a percent sign decides which of the two it is.\<close>

definition ParseIP :: "string \<Rightarrow> bool" where
  "ParseIP s \<longleftrightarrow>
     (case dropWhile (\<lambda>c. c \<noteq> CHR ''.'' \<and> c \<noteq> CHR '':'' \<and> c \<noteq> CHR ''%'') s of
        [] \<Rightarrow> False
      | c # _ \<Rightarrow> if c = CHR ''.'' then is_ipv4 s else if c = CHR '':'' then is_ipv6 s else False)"

datatype host_error = HostScheme | HostPort | NotAHost

definition validHost :: "string \<Rightarrow> host_error option" where
  "validHost h =
     (if ParseIP h then None
      else if str_index h ''://'' \<noteq> None then Some HostScheme
      else if CHR '':'' \<in> set h then Some HostPort
      else if list_ex (\<lambda>c. c \<in> set [CHR ''/'', CHR '' '', CHR 0x09, CHR 0x0D, CHR 0x0A]) h \<or> length h > 253 then Some NotAHost
      else None)"

section \<open>Domain names\<close>

datatype domain_error = DomainRequired | DomainNotASCII string | NotADomain string | DomainWithoutTLD string

definition label_char :: "char \<Rightarrow> bool" where
  "label_char c \<longleftrightarrow> 97 \<le> byte c \<and> byte c \<le> 122 \<or> is_digit c \<or> c = CHR ''-''"

definition validLabel :: "string \<Rightarrow> bool" where
  "validLabel l \<longleftrightarrow>
     \<not> (length l = 0 \<or> length l > 63 \<or> hd l = CHR ''-'' \<or> last l = CHR ''-'') \<and> list_all label_char l"

definition NormalizeDomain :: "string \<Rightarrow> domain_error + string" where
  "NormalizeDomain domain =
     (case lower_ascii (trim_space domain) of
        None \<Rightarrow> Inl (DomainNotASCII domain)
      | Some l \<Rightarrow>
          let d = trim_suffix l ''.''; labels = split_on (CHR ''.'') d in
          if d = [] then Inl DomainRequired
          else if length d > 253 then Inl (NotADomain domain)
          else if \<not> list_all validLabel labels then Inl (NotADomain domain)
          else if length labels < 2 then Inl (DomainWithoutTLD domain)
          else Inr d)"

section \<open>Validation\<close>

datatype spec_error =
    WarnDaysRange int
  | HostRequired | HostInvalid string host_error | PortRange int | ServerNameInvalid string host_error
  | StartTLSUnknown string | RenewAfterRange rat | CAFileRelative string
  | DomainInvalid domain_error | RDAPURLInvalid string
  | DateAndCommand | DateOrCommandRequired
  | RestoreRequired | CheckEmpty int | ScratchDirRelative string | MaxDurationNegative int

definition is_abs :: "string \<Rightarrow> bool" where
  "is_abs p \<longleftrightarrow> has_prefix p ''/''"

definition validateTLS :: "spec \<Rightarrow> spec_error option" where
  "validateTLS s =
     (if sp_host s = [] then Some HostRequired
      else case validHost (sp_host s) of
        Some e \<Rightarrow> Some (HostInvalid (sp_host s) e)
      | None \<Rightarrow>
          if sp_port s < 0 \<or> sp_port s > 65535 then Some (PortRange (sp_port s))
          else case (if sp_server_name s \<noteq> [] then validHost (sp_server_name s) else None) of
            Some e \<Rightarrow> Some (ServerNameInvalid (sp_server_name s) e)
          | None \<Rightarrow>
              if sp_starttls s \<notin> {[], ''smtp'', ''imap''} then Some (StartTLSUnknown (sp_starttls s))
              else if sp_renew_after s < 0 \<or> sp_renew_after s \<ge> 1 then Some (RenewAfterRange (sp_renew_after s))
              else if sp_ca_file s \<noteq> [] \<and> \<not> is_abs (sp_ca_file s) then Some (CAFileRelative (sp_ca_file s))
              else None)"

type_synonym url_parser = "string \<Rightarrow> (string \<times> string) option"

definition validateDomain :: "url_parser \<Rightarrow> spec \<Rightarrow> spec_error option" where
  "validateDomain url_Parse s =
     (case NormalizeDomain (sp_domain s) of
        Inl e \<Rightarrow> Some (DomainInvalid e)
      | Inr _ \<Rightarrow>
          if sp_rdap_url s \<noteq> []
             \<and> (case url_Parse (sp_rdap_url s) of
                  None \<Rightarrow> True
                | Some (scheme, host) \<Rightarrow> scheme \<noteq> ''http'' \<and> scheme \<noteq> ''https'' \<or> host = [])
          then Some (RDAPURLInvalid (sp_rdap_url s)) else None)"

definition validateExpiry :: "spec \<Rightarrow> spec_error option" where
  "validateExpiry s =
     (let hasDate = sp_expires_at s \<noteq> 0; hasCommand = trim_space (sp_expiry_command s) \<noteq> [] in
      if hasDate \<and> hasCommand then Some DateAndCommand
      else if \<not> hasDate \<and> \<not> hasCommand then Some DateOrCommandRequired
      else None)"

text \<open>The checks are numbered from 1 in the messages.\<close>

fun empty_check :: "int \<Rightarrow> string list \<Rightarrow> int option" where
  "empty_check i [] = None"
| "empty_check i (c # cs) = (if trim_space c = [] then Some i else empty_check (i + 1) cs)"

definition validateDrill :: "spec \<Rightarrow> spec_error option" where
  "validateDrill s =
     (if trim_space (sp_restore s) = [] then Some RestoreRequired
      else case empty_check 1 (sp_checks s) of
        Some i \<Rightarrow> Some (CheckEmpty i)
      | None \<Rightarrow>
          if sp_scratch_dir s \<noteq> [] \<and> \<not> is_abs (sp_scratch_dir s) then Some (ScratchDirRelative (sp_scratch_dir s))
          else if sp_max_duration s < 0 then Some (MaxDurationNegative (sp_max_duration s))
          else None)"

definition ValidateSpec :: "url_parser \<Rightarrow> job_type \<Rightarrow> spec option \<Rightarrow> spec_error option" where
  "ValidateSpec url_Parse t so =
     (if \<not> HasSpec t then None
      else let s = (case so of None \<Rightarrow> zero_spec | Some s \<Rightarrow> s) in
        if (sp_warn_days s < 0 \<or> sp_warn_days s > MaxWarnDays) \<and> t \<noteq> Drill then Some (WarnDaysRange (sp_warn_days s))
        else case t of
          TLS \<Rightarrow> validateTLS s
        | Domain \<Rightarrow> validateDomain url_Parse s
        | Expiry \<Rightarrow> validateExpiry s
        | Drill \<Rightarrow> validateDrill s
        | _ \<Rightarrow> None)"

section \<open>Normal form of a domain\<close>

lemma label_char_visible: "label_char c \<or> c = CHR ''.'' \<Longrightarrow> visible c \<and> lower c = c"
  by (auto simp: label_char_def visible_def is_digit_def lower_def)

lemma lower_ascii_id: "list_all (\<lambda>c. label_char c \<or> c = CHR ''.'') d \<Longrightarrow> lower_ascii d = Some d"
proof (induction d)
  case (Cons c d)
  then have "byte c < 128" "lower c = c" using label_char_visible [of c] by (auto simp: visible_def)
  with Cons show ?case by simp
qed simp

lemma split_on_labels:
  assumes "list_all (list_all P) (split_on c s)"
  shows "list_all (\<lambda>x. P x \<or> x = c) s"
  using assms by (induction s) (auto split: if_splits list.splits)

lemma split_on_ends:
  assumes "[] \<notin> set (split_on c s)"
  shows "s \<noteq> [] \<and> last s \<noteq> c"
proof -
  have "s \<noteq> []" using assms by auto
  moreover have "split_on c (xs @ [c]) = split_on c xs @ [[]]" for xs
    using split_on_append_sep [of c xs "[]"] by simp
  ultimately show ?thesis using assms by (metis append_butlast_last_id in_set_conv_decomp)
qed

text \<open>
  The name a domain probe asks for is in normal form: normalizing it again changes
  nothing, and it is at most 253 bytes of at least two labels of lower-case letters, digits
  and hyphens, so it can stand in the path of the registry's URL as it is.
\<close>

theorem NormalizeDomain_normal:
  assumes "NormalizeDomain s = Inr d"
  shows "NormalizeDomain d = Inr d \<and> length d \<le> 253 \<and> 2 \<le> length (split_on (CHR ''.'') d)
    \<and> list_all validLabel (split_on (CHR ''.'') d) \<and> list_all (\<lambda>c. label_char c \<or> c = CHR ''.'') d"
proof -
  let ?ls = "split_on (CHR ''.'') d"
  have d: "d \<noteq> []" "length d \<le> 253" "list_all validLabel ?ls" "2 \<le> length ?ls"
    using assms by (auto simp: NormalizeDomain_def Let_def split: option.splits if_splits)
  have "list_all (list_all label_char) ?ls"
    using d(3) by (auto simp: validLabel_def list.pred_set)
  then have c: "list_all (\<lambda>c. label_char c \<or> c = CHR ''.'') d" by (rule split_on_labels)
  have "[] \<notin> set ?ls" using d(3) by (auto simp: validLabel_def list.pred_set)
  note e = split_on_ends [OF this]
  have "visible (hd d)" "visible (last d)" using c d(1) by (auto simp: list.pred_set label_char_visible)
  then have "trim_space d = d" using d(1) by (intro trim_space_visible)
  moreover have "trim_suffix d ''.'' = d"
    using e by (auto simp: trim_suffix_def dest!: arg_cong [of _ _ last])
  ultimately have "NormalizeDomain d = Inr d"
    using d by (simp add: NormalizeDomain_def lower_ascii_id [OF c])
  with d c show ?thesis by simp
qed

theorem NormalizeDomain_normal_witness:
  "NormalizeDomain '' Example.COM.'' = Inr ''example.com'' \<and> NormalizeDomain ''example.com'' = Inr ''example.com''"
proof -
  have n: "NormalizeDomain '' Example.COM.'' = Inr ''example.com''" by code_simp
  with NormalizeDomain_normal [OF n] show ?thesis by blast
qed

text \<open>
  The lower case of a text is taken before it is held to ASCII, so the Kelvin sign (U+212A)
  and the dotted capital I (U+0130) pass as the letters k and i.
\<close>

lemma kelvin_sign_accepted:
  "NormalizeDomain ([CHR 0xE2, CHR 0x84, CHR 0xAA] @ ''.com'') = Inr ''k.com''"
  "NormalizeDomain ([CHR 0xC4, CHR 0xB0] @ ''.com'') = Inr ''i.com''"
  by code_simp+

end
