(* ===== verification/Jobs_Probe.thy ===== *)
theory Jobs_Probe
  imports Go_Time Jobs_Spec
begin

text \<open>
  What the probes have in common (\<^verbatim>\<open>internal/jobs/probe.go\<close>) and the expiry probe
  (\<^verbatim>\<open>probe_expiry.go\<close>). The child process of an \<^verbatim>\<open>expiry_command\<close> is an argument: a function
  from the command to what the process wrote and how it ended. \<open>expired\<close> says whether the
  attempt's deadline has passed when a result is made, \<open>now\<close> is the time of the executor's
  clock, and \<open>spec_text\<close> the message of a validation error.
\<close>

section \<open>Reports\<close>

abbreviation (input) day :: duration where "day \<equiv> 86400000000000"

definition probeExitFailed :: int where "probeExitFailed = 1"
definition probeExitError :: int where "probeExitError = -1"

definition specOf :: "(string \<Rightarrow> spec) \<Rightarrow> job \<Rightarrow> spec" where
  "specOf decode j = (case j_spec j of None \<Rightarrow> zero_spec | Some s \<Rightarrow> decode s)"

record probeReport =
  rep_problems :: "string list"
  rep_info :: "string list"

definition empty_report :: probeReport where
  "empty_report = \<lparr>rep_problems = [], rep_info = []\<rparr>"

definition fail :: "string \<Rightarrow> probeReport \<Rightarrow> probeReport" where
  "fail msg r = r\<lparr>rep_problems := rep_problems r @ [msg]\<rparr>"

definition info_line :: "string \<Rightarrow> string \<Rightarrow> string" where
  "info_line key val = (let k = key @ '':'' in k @ replicate (12 - length k) (CHR '' '') @ '' '' @ val)"

definition add :: "string \<Rightarrow> string \<Rightarrow> probeReport \<Rightarrow> probeReport" where
  "add key val r = r\<lparr>rep_info := rep_info r @ [info_line key val]\<rparr>"

definition verdict_text :: "probeReport \<Rightarrow> string \<Rightarrow> string" where
  "verdict_text r okLine =
     (if rep_problems r \<noteq> [] then concat (map (\<lambda>p. ''FAIL: '' @ p @ [newline]) (rep_problems r))
      else ''ok: '' @ okLine @ [newline])"

definition result :: "probeReport \<Rightarrow> int \<Rightarrow> gotime \<Rightarrow> gotime \<Rightarrow> string \<Rightarrow> run_result" where
  "result r attempt started ended okLine =
     (let b = verdict_text r okLine @ (if rep_info r \<noteq> [] then newline # join_with newline (rep_info r) else [])
      in \<lparr>rr_status = (if rep_problems r \<noteq> [] then StatusFailed else StatusSucceeded),
          rr_exit = (if rep_problems r \<noteq> [] then probeExitFailed else 0),
          rr_output = trim_right [newline] b, rr_truncated = False,
          rr_attempt = attempt, rr_started = started, rr_ended = ended\<rparr>)"

definition probeErrorResult :: "bool \<Rightarrow> int \<Rightarrow> gotime \<Rightarrow> gotime \<Rightarrow> string \<Rightarrow> run_result" where
  "probeErrorResult expired attempt started ended err =
     \<lparr>rr_status = (if expired then StatusTimedOut else StatusFailed),
      rr_exit = (if expired then 0 else probeExitError),
      rr_output = (if expired then ''timed out: '' else ''error: '') @ err, rr_truncated = False,
      rr_attempt = attempt, rr_started = started, rr_ended = ended\<rparr>"

section \<open>Spans of time as text\<close>

definition plural :: "int \<Rightarrow> string \<Rightarrow> string" where
  "plural n unit = (if n = 1 then ''1 '' @ unit else dec n @ '' '' @ unit @ ''s'')"

definition humanDays :: "duration \<Rightarrow> string" where
  "humanDays d0 =
     (let d = (if d0 < 0 then wrap64 (- d0) else d0) in
      if d \<ge> 2 * day then dec (quot d day) @ '' days''
      else if d \<ge> hour then plural (quot d hour) ''hour''
      else plural (quot d minute) ''minute'')"

definition floorDays :: "duration \<Rightarrow> int" where
  "floorDays d = (let n = quot d day in if d < 0 \<and> d - n * day \<noteq> 0 then n - 1 else n)"

definition warnText :: "int \<Rightarrow> string" where
  "warnText warnDays =
     (if warnDays = 0 then ''warns once expired'' else ''warns '' @ dec warnDays @ '' days before'')"

definition durationText :: "duration \<Rightarrow> string" where
  "durationText d =
     (if d < minute then duration_string (dur_round d millisecond)
      else drop_zero_units (duration_string (dur_round d second)))"

section \<open>The expiry probe\<close>

definition maxExpiryStdout :: nat where "maxExpiryStdout = 4096"
definition maxExpiryStderr :: nat where "maxExpiryStderr = 16384"

definition within_warning :: "duration \<Rightarrow> int \<Rightarrow> bool" where
  "within_warning left warnDays \<longleftrightarrow> left \<le> wrap64 (warnDays * day)"

definition judgeExpiry :: "gotime \<Rightarrow> gotime \<Rightarrow> string \<Rightarrow> int \<Rightarrow> int \<Rightarrow> gotime \<Rightarrow> gotime \<Rightarrow> run_result" where
  "judgeExpiry now expires source warnDays attempt started ended =
     (let left = time_sub expires now;
          r = add ''days_left'' (dec (floorDays left))
                (add ''expires_at'' (dateText expires @ '' ('' @ source @ '')'') empty_report);
          r' = (if left \<le> 0 then fail (''expired '' @ humanDays left @ '' ago ('' @ dateText expires @ '')'') r
                else if within_warning left warnDays
                then fail (''expires in '' @ humanDays left @ '' ('' @ dateText expires @ ''), within warn_days '' @ dec warnDays) r
                else r)
      in result r' attempt started ended
           (''expires in '' @ humanDays left @ '' ('' @ dateText expires @ ''; '' @ warnText warnDays @ '')''))"

definition expiryFromStdout :: "capped_buffer \<Rightarrow> string + gotime" where
  "expiryFromStdout out =
     (if cb_truncated out then Inl (''expiry_command printed more than '' @ dec (int maxExpiryStdout) @ '' bytes; it must print one date'')
      else let s = trim_space (cb_String out) in
        if s = [] then Inl ''expiry_command printed nothing; it must print one date''
        else if CHR 0x0D \<in> set s \<or> newline \<in> set s then Inl ''expiry_command printed more than one line; it must print one date''
        else case ParseExpiryDate s of
          Inr t \<Rightarrow> Inr t
        | Inl _ \<Rightarrow> Inl (''expiry_command printed '' @ [CHR 0x22] @ s @ [CHR 0x22]
              @ '', which is not an RFC 3339 date (2027-01-31T00:00:00Z) or a date (2027-01-31)''))"

record process =
  px_stdout :: "string list"
  px_stderr :: "string list"
  px_deadline :: bool
  px_err :: "cmd_error option"

definition captured :: "int \<Rightarrow> string list \<Rightarrow> capped_buffer" where
  "captured mx written =
     foldl (\<lambda>c p. snd (cb_Write c p)) \<lparr>cb_buf = [], cb_max = mx, cb_truncated = False\<rparr> written"

definition with_stderr :: "string list \<Rightarrow> string list \<Rightarrow> run_result \<Rightarrow> run_result" where
  "with_stderr secrets written res =
     (let c = captured (int maxExpiryStderr + int (secretMargin secrets)) written;
          t = trim_space (cutRedacted (cb_buf c) (cb_truncated c) maxExpiryStderr secrets
                (newline # ''... [stderr truncated]''))
      in if t \<noteq> [] then res\<lparr>rr_output := rr_output res @ [newline, newline] @ ''stderr:'' @ newline # t\<rparr> else res)"

definition runOnceExpiry ::
  "url_parser \<Rightarrow> (spec_error \<Rightarrow> string) \<Rightarrow> (string \<Rightarrow> process) \<Rightarrow> bool \<Rightarrow> gotime \<Rightarrow> spec \<Rightarrow> string list
   \<Rightarrow> int \<Rightarrow> gotime \<Rightarrow> gotime \<Rightarrow> run_result" where
  "runOnceExpiry url_Parse spec_text cmd expired now s secrets attempt started ended =
     (case ValidateSpec url_Parse Expiry (Some s) of
        Some e \<Rightarrow> probeErrorResult expired attempt started ended (spec_text e)
      | None \<Rightarrow>
          if trim_space (sp_expiry_command s) = []
          then judgeExpiry now (sp_expires_at s) ''as configured'' (sp_warn_days s) attempt started ended
          else
            let p = cmd (sp_expiry_command s);
                (status, code) = shellOutcome (px_deadline p) (px_err p);
                res = (case status of
                    StatusTimedOut \<Rightarrow>
                      probeErrorResult expired attempt started ended ''expiry_command did not finish''
                  | StatusFailed \<Rightarrow>
                      (probeErrorResult expired attempt started ended (''expiry_command exited with status '' @ dec code))
                        \<lparr>rr_exit := code\<rparr>
                  | _ \<Rightarrow>
                      (case expiryFromStdout (captured (int maxExpiryStdout) (px_stdout p)) of
                         Inl err \<Rightarrow> probeErrorResult expired attempt started ended err
                       | Inr t \<Rightarrow> judgeExpiry now t ''printed by expiry_command'' (sp_warn_days s) attempt started ended))
            in with_stderr secrets (px_stderr p) res)"

section \<open>What a report says\<close>

lemma add_problems [simp]: "rep_problems (add k v r) = rep_problems r"
  by (simp add: add_def)

lemma fail_problems [simp]: "rep_problems (fail msg r) = rep_problems r @ [msg]"
  by (simp add: fail_def)

lemma empty_report_problems [simp]: "rep_problems empty_report = []"
  by (simp add: empty_report_def)

lemma result_status: "rr_status (result r a st en ok) = (if rep_problems r = [] then StatusSucceeded else StatusFailed)"
  by (simp add: result_def Let_def)

lemma probeErrorResult_fails: "rr_status (probeErrorResult x a st en e) \<noteq> StatusSucceeded"
  by (simp add: probeErrorResult_def)

text \<open>The whole days left are those of the calendar: rounded towards minus infinity.\<close>

lemma floorDays_floor: "floorDays d = d div day"
proof (cases "d < 0")
  case True
  obtain n where n: "d = - n" "0 < n" using True by (metis add.inverse_inverse neg_0_less_iff_less)
  have q: "quot d day = - (n div day)" using n by (simp add: quot_def)
  show ?thesis
  proof (cases "n mod day = 0")
    case True
    then have "d - quot d day * day = 0" unfolding q using n(1) mult_div_mod_eq [of day n] by linarith
    with True n q show ?thesis by (simp add: floorDays_def Let_def zdiv_zminus1_eq_if)
  next
    case False
    then have "d - quot d day * day \<noteq> 0"
      unfolding q using n(1) mult_div_mod_eq [of day n] by linarith
    with False n q show ?thesis by (simp add: floorDays_def Let_def zdiv_zminus1_eq_if)
  qed
next
  case False
  then show ?thesis by (simp add: floorDays_def Let_def quot_nonneg)
qed

text \<open>Within the range \<open>ValidateSpec\<close> allows, the comparison is the one of unbounded integers.\<close>

lemma within_warning_exact:
  assumes "0 \<le> w" "w \<le> MaxWarnDays"
  shows "within_warning (time_sub t now) w \<longleftrightarrow> t - now \<le> w * day"
proof -
  have "0 \<le> w * day" "w * day \<le> 3650 * day" using assms by (simp_all add: MaxWarnDays_def)
  then have "in64 (w * day)" by (simp add: in64_def min_int64_def max_int64_def)
  with \<open>w * day \<le> 3650 * day\<close> \<open>0 \<le> w * day\<close> show ?thesis
    by (auto simp: within_warning_def time_sub_def min_int64_def max_int64_def)
qed

lemma time_sub_le_0 [simp]: "time_sub t now \<le> 0 \<longleftrightarrow> t \<le> now"
  by (auto simp: time_sub_def min_int64_def max_int64_def)

lemma judgeExpiry_status:
  assumes "0 \<le> w" "w \<le> MaxWarnDays"
  shows "rr_status (judgeExpiry now t src w a st en)
    = (if t - now > w * day then StatusSucceeded else StatusFailed)"
proof -
  have "t \<le> now \<Longrightarrow> t - now \<le> w * day" using assms(1) by (smt (verit) mult_nonneg_nonneg)
  then show ?thesis
    using within_warning_exact [OF assms, of t now] by (auto simp: judgeExpiry_def Let_def result_status)
qed

section \<open>The verdict of an expiry job\<close>

text \<open>The date an expiry job watches: the one configured, or the one its command printed.\<close>

definition watched_date :: "(string \<Rightarrow> process) \<Rightarrow> spec \<Rightarrow> gotime option" where
  "watched_date cmd s =
     (if trim_space (sp_expiry_command s) = [] then Some (sp_expires_at s)
      else let p = cmd (sp_expiry_command s) in
        if px_deadline p \<or> px_err p \<noteq> None then None
        else case expiryFromStdout (captured (int maxExpiryStdout) (px_stdout p)) of Inl _ \<Rightarrow> None | Inr t \<Rightarrow> Some t)"

lemma with_stderr_status [simp]: "rr_status (with_stderr secrets w res) = rr_status res"
  by (simp add: with_stderr_def Let_def)

lemma shellOutcome_cases:
  "shellOutcome x e = (if x then (StatusTimedOut, 0) else case e of None \<Rightarrow> (StatusSucceeded, 0)
     | Some (ExitError c) \<Rightarrow> (StatusFailed, c) | Some OtherError \<Rightarrow> (StatusFailed, -1))"
  by (simp add: shellOutcome_def)

text \<open>
  An expiry job succeeds exactly when its settings are valid and the date it watches, the
  one configured or the one its command printed as its only line after exiting 0 in time, is
  more than \<^verbatim>\<open>warn_days\<close> days away, counted without overflow however far the date is.
\<close>

theorem expiry_succeeds_iff:
  "rr_status (runOnceExpiry url_Parse spec_text cmd expired now s secrets attempt started ended) = StatusSucceeded
   \<longleftrightarrow> ValidateSpec url_Parse Expiry (Some s) = None
       \<and> (\<exists>t. watched_date cmd s = Some t \<and> t - now > sp_warn_days s * day)"
proof (cases "ValidateSpec url_Parse Expiry (Some s)")
  case None
  then have w: "0 \<le> sp_warn_days s" "sp_warn_days s \<le> MaxWarnDays"
    by (auto simp: ValidateSpec_def HasSpec_def Let_def split: if_splits)
  show ?thesis
  proof (cases "trim_space (sp_expiry_command s) = []")
    case True
    then show ?thesis by (simp add: runOnceExpiry_def watched_date_def None judgeExpiry_status [OF w])
  next
    case False
    then show ?thesis
      by (auto simp: runOnceExpiry_def watched_date_def None Let_def shellOutcome_cases probeErrorResult_fails
          judgeExpiry_status [OF w] split: option.splits cmd_error.splits sum.splits)
  qed
qed (simp add: runOnceExpiry_def probeErrorResult_fails)

end
