(* ===== verification/Jobs_Domain.thy ===== *)
theory Jobs_Domain
  imports Jobs_Probe
begin

text \<open>
  The domain probe: \<^verbatim>\<open>internal/jobs/probe_domain.go\<close>. The HTTP exchange is an argument, a
  function from a URL to what came back; so are the decoding of the two JSON documents, the
  messages of errors and \<^verbatim>\<open>strconv.Quote\<close>, which only decorate an output. The cache of
  bootstrap files is the state the probe threads through.
\<close>

section \<open>The bootstrap file\<close>

definition IANABootstrapURL :: string where
  "IANABootstrapURL = ''https://data.iana.org/rdap/dns.json''"

definition rdapBootstrapTTL :: duration where "rdapBootstrapTTL = 24 * hour"
definition maxRDAPAnswerBytes :: nat where "maxRDAPAnswerBytes = 1048576"
definition maxRDAPBootstrapBytes :: nat where "maxRDAPBootstrapBytes = 4194304"

record rdapService =
  rs_tlds :: "string list"
  rs_urls :: "string list"

record rdapBootstrap =
  rb_fetched :: gotime
  rb_services :: "rdapService list"

text \<open>The suffixes of a domain, the longest first, without the domain itself.\<close>

definition suffixes_of :: "string \<Rightarrow> string list" where
  "suffixes_of domain =
     (let labels = split_on (CHR ''.'') domain
      in map (\<lambda>i. join_with (CHR ''.'') (drop i labels)) [1..<length labels])"

fun service_for :: "string list \<Rightarrow> rdapService list \<Rightarrow> rdapService option" where
  "service_for [] services = None"
| "service_for (x # xs) services =
     (case List.find (\<lambda>svc. list_ex (\<lambda>tld. equal_fold tld x) (rs_tlds svc)) services of
        Some svc \<Rightarrow> Some svc
      | None \<Rightarrow> service_for xs services)"

definition service :: "rdapBootstrap \<Rightarrow> string \<Rightarrow> rdapService option" where
  "service b domain = service_for (suffixes_of domain) (rb_services b)"

definition withSlash :: "string \<Rightarrow> string" where
  "withSlash u = (if suffix ''/'' u then u else u @ ''/'')"

definition is_https :: "string \<Rightarrow> bool" where
  "is_https u \<longleftrightarrow> has_prefix (map lower u) ''https://''"

definition lookup :: "rdapBootstrap \<Rightarrow> string \<Rightarrow> string option" where
  "lookup b domain =
     (case service b domain of
        None \<Rightarrow> None
      | Some svc \<Rightarrow> map_option withSlash (List.find is_https (rs_urls svc)))"

definition listsPlainHTTP :: "rdapBootstrap \<Rightarrow> string \<Rightarrow> bool" where
  "listsPlainHTTP b domain = (case service b domain of None \<Rightarrow> False | Some svc \<Rightarrow> rs_urls svc \<noteq> [])"

section \<open>Asking\<close>

text \<open>No response, or a status with its text and what reading the body gave.\<close>

datatype http_get = GetFailed string | Got int string "string + string"

definition getRDAP :: "(string \<Rightarrow> http_get) \<Rightarrow> string \<Rightarrow> nat \<Rightarrow> int \<times> (string + string)" where
  "getRDAP get url limit =
     (case get url of
        GetFailed e \<Rightarrow> (0, Inl e)
      | Got code status body \<Rightarrow>
          if code \<noteq> 200 then (code, Inl (url @ '' answered '' @ status))
          else case body of
            Inl e \<Rightarrow> (code, Inl (''read the answer from '' @ url @ '': '' @ e))
          | Inr bytes \<Rightarrow>
              let b = take (limit + 1) bytes in
              if length b > limit
              then (code, Inl (''the answer from '' @ url @ '' is too large (over '' @ dec (int limit) @ '' bytes)''))
              else (code, Inr b))"

definition fetchBootstrap ::
  "(string \<Rightarrow> http_get) \<Rightarrow> (string \<Rightarrow> string + string list list list) \<Rightarrow> string \<Rightarrow> string + rdapService list" where
  "fetchBootstrap get decode src =
     (case snd (getRDAP get src maxRDAPBootstrapBytes) of
        Inl e \<Rightarrow> Inl e
      | Inr body \<Rightarrow>
          (case decode body of
             Inl e \<Rightarrow> Inl (src @ '' is not a bootstrap file: '' @ e)
           | Inr docs \<Rightarrow>
               let services = map (\<lambda>svc. \<lparr>rs_tlds = svc ! 0, rs_urls = svc ! 1\<rparr>) (filter (\<lambda>svc. length svc \<ge> 2) docs)
               in if services = [] then Inl (src @ '' lists no RDAP services'') else Inr services))"

text \<open>\<^verbatim>\<open>CheckRedirect\<close>: \<open>n\<close> requests were made; \<open>same_host\<close> compares host names without case.\<close>

definition maxRDAPRedirects :: nat where "maxRDAPRedirects = 5"

datatype redirect_error = TooManyRedirects nat | RedirectToHTTP | RedirectToHost string

definition CheckRedirect ::
  "(string \<Rightarrow> string \<Rightarrow> bool) \<Rightarrow> nat \<Rightarrow> string \<times> string \<Rightarrow> string \<times> string \<Rightarrow> redirect_error option" where
  "CheckRedirect same_host n fst_url url =
     (if n \<ge> maxRDAPRedirects then Some (TooManyRedirects n)
      else if fst fst_url = ''https'' \<and> fst url \<noteq> ''https'' then Some RedirectToHTTP
      else if \<not> same_host (snd url) (snd fst_url) then Some (RedirectToHost (snd url))
      else None)"

section \<open>The registry's server\<close>

type_synonym bootstraps = "string \<Rightarrow> rdapBootstrap option"

datatype rdap_error = BootstrapFile string | OnlyPlainHTTP string | NoRDAPServer string

definition tld_of :: "string \<Rightarrow> string" where
  "tld_of domain = CHR ''.'' # last (split_on (CHR ''.'') domain)"

definition stale :: "gotime \<Rightarrow> rdapBootstrap option \<Rightarrow> bool" where
  "stale now held =
     (case held of
        None \<Rightarrow> True
      | Some b \<Rightarrow> time_sub now (rb_fetched b) \<ge> rdapBootstrapTTL \<or> now < rb_fetched b)"

definition held_note :: "rdapBootstrap \<Rightarrow> string \<Rightarrow> string" where
  "held_note b e = ''the copy fetched '' @ dateText (rb_fetched b) @ '' was used; fetching it again failed: '' @ e"

definition rdapBase ::
  "string \<Rightarrow> (string \<Rightarrow> string + rdapService list) \<Rightarrow> gotime \<Rightarrow> string \<Rightarrow> bootstraps
   \<Rightarrow> (rdap_error + string \<times> string) \<times> bootstraps" where
  "rdapBase configured fetch now domain cache =
     (let src = (if configured = [] then IANABootstrapURL else configured);
          held = cache src;
          (found, cache') =
            (if stale now held then
               (case (fetch src, held) of
                  (Inr services, _) \<Rightarrow>
                    let fresh = \<lparr>rb_fetched = now, rb_services = services\<rparr>
                    in (Inr (fresh, []), cache(src \<mapsto> fresh))
                | (Inl e, Some b) \<Rightarrow> (Inr (b, held_note b e), cache)
                | (Inl e, None) \<Rightarrow> (Inl (BootstrapFile e), cache))
             else (case held of Some b \<Rightarrow> (Inr (b, []), cache) | None \<Rightarrow> (Inl (BootstrapFile []), cache)))
      in (case found of
            Inl e \<Rightarrow> Inl e
          | Inr (b, note) \<Rightarrow>
              (case lookup b domain of
                 Some base \<Rightarrow> Inr (base, note)
               | None \<Rightarrow>
                   if listsPlainHTTP b domain then Inl (OnlyPlainHTTP (tld_of domain))
                   else Inl (NoRDAPServer (tld_of domain))), cache'))"

section \<open>Judging the answer\<close>

record rdapDomainAnswer =
  ra_class :: string
  ra_status :: "string list"
  ra_events :: "(string \<times> string) list"

definition lapsedStatuses :: "string list" where
  "lapsedStatuses = [''redemption period'', ''pending delete'', ''pending restore'']"

definition lapsed :: "string \<Rightarrow> bool" where
  "lapsed st \<longleftrightarrow> (case lower_ascii st of None \<Rightarrow> False | Some l \<Rightarrow> l \<in> set lapsedStatuses)"

definition event_date :: "rdapDomainAnswer \<Rightarrow> string \<Rightarrow> string" where
  "event_date a action =
     (case List.find (\<lambda>(act, _). equal_fold act action) (ra_events a) of
        None \<Rightarrow> [] | Some (_, date) \<Rightarrow> date)"

definition expiration :: "rdapDomainAnswer \<Rightarrow> string \<times> string" where
  "expiration a =
     (let raw = event_date a ''expiration'' in
      if raw \<noteq> [] then (raw, [])
      else let r = event_date a ''registrar expiration''
           in (r, if r \<noteq> [] then '' (the registrar's expiration; the registry gives none)'' else []))"

definition add_date :: "string \<Rightarrow> rdapDomainAnswer \<Rightarrow> string \<Rightarrow> probeReport \<Rightarrow> probeReport" where
  "add_date key a action r =
     (case parseRDAPDate (event_date a action) of Inr t \<Rightarrow> add key (dateText t) r | Inl _ \<Rightarrow> r)"

fun join_comma :: "string list \<Rightarrow> string" where
  "join_comma [] = []"
| "join_comma [x] = x"
| "join_comma (x # xs) = x @ '', '' @ join_comma xs"

definition judge_expiration :: "gotime \<Rightarrow> int \<Rightarrow> gotime \<Rightarrow> string \<Rightarrow> probeReport" where
  "judge_expiration now warnDays expd which =
     (let left = time_sub expd now;
          r = add ''days_left'' (dec (floorDays left)) (add ''expiration'' (dateText expd @ which) empty_report)
      in if left \<le> 0 then fail (''registration expired '' @ humanDays left @ '' ago ('' @ dateText expd @ '')'') r
         else if within_warning left warnDays
         then fail (''registration expires in '' @ humanDays left @ '' ('' @ dateText expd @ ''), within warn_days '' @ dec warnDays) r
         else r)"

definition checkDomain :: "(string \<Rightarrow> string) \<Rightarrow> rdapDomainAnswer \<Rightarrow> gotime \<Rightarrow> int \<Rightarrow> probeReport \<times> gotime" where
  "checkDomain quote a now warnDays =
     (let (raw, which) = expiration a;
          (r, expd) =
            (if raw = [] then (fail ''the registry's RDAP answer has no expiration date; some registries leave it out (watch the date with an expiry job instead)'' empty_report, 0)
             else case parseRDAPDate raw of
               Inl _ \<Rightarrow> (fail (''the expiration date '' @ quote raw @ '' is not a date'') empty_report, 0)
             | Inr t \<Rightarrow> (judge_expiration now warnDays t which, t));
          r1 = fold (\<lambda>st r. if lapsed st then fail (''the registry lists the domain as '' @ quote st @ '': its registration has lapsed'') r else r) (ra_status a) r;
          r2 = (if ra_status a \<noteq> [] then add ''status'' (join_comma (ra_status a)) r1 else r1)
      in (add_date ''changed'' a ''last changed'' (add_date ''registered'' a ''registration'' r2), expd))"

definition add_note :: "string \<Rightarrow> probeReport \<Rightarrow> probeReport" where
  "add_note note r = (if note \<noteq> [] then add ''bootstrap'' note r else r)"

text \<open>What the probe is built on: the URL parser, messages, quoting, the network and JSON.\<close>

record domain_env =
  de_url_Parse :: url_parser
  de_spec_text :: "spec_error \<Rightarrow> string"
  de_rdap_text :: "rdap_error \<Rightarrow> string"
  de_quote :: "string \<Rightarrow> string"
  de_get :: "string \<Rightarrow> http_get"
  de_bootstrap :: "string \<Rightarrow> string + string list list list"
  de_answer :: "string \<Rightarrow> string + rdapDomainAnswer"
  de_source :: string

definition ask_registry ::
  "domain_env \<Rightarrow> bool \<Rightarrow> gotime \<Rightarrow> spec \<Rightarrow> string \<Rightarrow> string \<Rightarrow> string \<Rightarrow> int \<Rightarrow> gotime \<Rightarrow> gotime \<Rightarrow> run_result" where
  "ask_registry e expired now s domain base note attempt started ended =
     (let url = withSlash base @ ''domain/'' @ domain;
          r = add ''rdap'' url (add ''domain'' domain empty_report);
          (status, got) = getRDAP (de_get e) url maxRDAPAnswerBytes
      in if status = 404 then
           result (add_note note (fail (''the registry has no record of '' @ domain
             @ '' (HTTP 404): it is not registered, or was deleted after it lapsed'') r)) attempt started ended []
         else case got of
           Inl err \<Rightarrow> probeErrorResult expired attempt started ended err
         | Inr body \<Rightarrow>
             (case de_answer e body of
                Inl err \<Rightarrow> probeErrorResult expired attempt started ended (''not an RDAP answer from '' @ url @ '': '' @ err)
              | Inr a \<Rightarrow>
                  if ra_class a \<noteq> ''domain'' then
                    probeErrorResult expired attempt started ended
                      (''not an RDAP answer for a domain from '' @ url @ '' (objectClassName '' @ de_quote e (ra_class a) @ '')'')
                  else
                    let (checked, expd) = checkDomain (de_quote e) a now (sp_warn_days s);
                        r' = add_note note \<lparr>rep_problems = rep_problems checked, rep_info = rep_info r @ rep_info checked\<rparr>
                    in result r' attempt started ended
                         (domain @ '' expires in '' @ humanDays (time_sub expd now) @ '' ('' @ dateText expd @ ''; ''
                          @ warnText (sp_warn_days s) @ '')'')))"

definition runOnceDomain ::
  "domain_env \<Rightarrow> bool \<Rightarrow> gotime \<Rightarrow> gotime \<Rightarrow> spec \<Rightarrow> int \<Rightarrow> gotime \<Rightarrow> gotime \<Rightarrow> bootstraps \<Rightarrow> run_result \<times> bootstraps" where
  "runOnceDomain e expired asked now s attempt started ended cache =
     (case ValidateSpec (de_url_Parse e) Domain (Some s) of
        Some err \<Rightarrow> (probeErrorResult expired attempt started ended (de_spec_text e err), cache)
      | None \<Rightarrow>
          let domain = (case NormalizeDomain (sp_domain s) of Inr d \<Rightarrow> d | Inl _ \<Rightarrow> []) in
          if sp_rdap_url s \<noteq> []
          then (ask_registry e expired now s domain (sp_rdap_url s) [] attempt started ended, cache)
          else
            let (found, cache') = rdapBase (de_source e) (fetchBootstrap (de_get e) (de_bootstrap e)) asked domain cache
            in (case found of
                  Inl err \<Rightarrow> probeErrorResult expired attempt started ended (de_rdap_text e err)
                | Inr (base, note) \<Rightarrow> ask_registry e expired now s domain base note attempt started ended, cache'))"

section \<open>What the probe accepts\<close>

lemma has_prefix_append: "has_prefix s p \<Longrightarrow> has_prefix (s @ t) p"
proof -
  assume "has_prefix s p"
  then obtain r where "s = p @ r" by (metis append_take_drop_id has_prefix_def)
  then show ?thesis by (simp add: has_prefix_def)
qed

lemma fold_lapsed:
  "rep_problems (fold (\<lambda>st r. if lapsed st then fail (msg st) r else r) sts r) = rep_problems r @ map msg (filter lapsed sts)"
  by (induction sts arbitrary: r) simp_all

lemma add_date_problems [simp]: "rep_problems (add_date k a act r) = rep_problems r"
  by (simp add: add_date_def split: sum.splits)

lemma add_note_problems [simp]: "rep_problems (add_note n r) = rep_problems r"
  by (simp add: add_note_def)

lemma judge_expiration_problems:
  assumes "0 \<le> w" "w \<le> MaxWarnDays"
  shows "rep_problems (judge_expiration now w t which) = [] \<longleftrightarrow> t - now > w * day"
proof -
  have "t \<le> now \<Longrightarrow> t - now \<le> w * day" using assms(1) by (smt (verit) mult_nonneg_nonneg)
  then show ?thesis
    using within_warning_exact [OF assms, of t now] by (auto simp: judge_expiration_def Let_def)
qed

text \<open>The date the registry gives, and whether the registration stands.\<close>

definition registered_until :: "rdapDomainAnswer \<Rightarrow> gotime option" where
  "registered_until a =
     (case parseRDAPDate (fst (expiration a)) of
        Inr t \<Rightarrow> if fst (expiration a) = [] \<or> list_ex lapsed (ra_status a) then None else Some t
      | Inl _ \<Rightarrow> None)"

lemma checkDomain_problems:
  assumes "0 \<le> w" "w \<le> MaxWarnDays"
  shows "rep_problems (fst (checkDomain quote a now w)) = []
    \<longleftrightarrow> (\<exists>t. registered_until a = Some t \<and> t - now > w * day)"
proof (cases "fst (expiration a) = []")
  case True
  then show ?thesis
    by (cases "expiration a")
      (auto simp: checkDomain_def registered_until_def fold_lapsed Let_def split: sum.splits)
next
  case False
  then show ?thesis
    by (cases "expiration a"; cases "parseRDAPDate (fst (expiration a))")
      (auto simp: checkDomain_def registered_until_def fold_lapsed Let_def judge_expiration_problems [OF assms]
        filter_empty_conv list_ex_iff)
qed

text \<open>An answer the registry's server gave to the probe's question, within the size read of it.\<close>

definition answered :: "domain_env \<Rightarrow> string \<Rightarrow> string \<Rightarrow> rdapDomainAnswer option" where
  "answered e base domain =
     (case de_get e (withSlash base @ ''domain/'' @ domain) of
        Got code _ (Inr body) \<Rightarrow>
          if code = 200 \<and> length body \<le> maxRDAPAnswerBytes then
            (case de_answer e body of Inr a \<Rightarrow> if ra_class a = ''domain'' then Some a else None | Inl _ \<Rightarrow> None)
          else None
      | _ \<Rightarrow> None)"

lemma ask_registry_succeeds:
  assumes "0 \<le> sp_warn_days s" "sp_warn_days s \<le> MaxWarnDays"
  shows "rr_status (ask_registry e x now s domain base note a st en) = StatusSucceeded
    \<longleftrightarrow> (\<exists>ans t. answered e base domain = Some ans \<and> registered_until ans = Some t \<and> t - now > sp_warn_days s * day)"
proof -
  let ?url = "withSlash base @ ''domain/'' @ domain"
  show ?thesis
  proof (cases "answered e base domain")
    case None
    then show ?thesis
      by (auto simp: ask_registry_def answered_def getRDAP_def Let_def probeErrorResult_fails result_status
          split: http_get.splits sum.splits if_splits prod.splits)
  next
    case (Some ans)
    then obtain code phrase body where g: "de_get e ?url = Got code phrase (Inr body)" "code = 200"
      "length body \<le> maxRDAPAnswerBytes" "de_answer e body = Inr ans" "ra_class ans = ''domain''"
      by (auto simp: answered_def split: http_get.splits sum.splits if_splits)
    then have "getRDAP (de_get e) ?url maxRDAPAnswerBytes = (200, Inr body)"
      by (simp add: getRDAP_def)
    with g Some checkDomain_problems [OF assms, of "de_quote e" ans now] show ?thesis
      by (auto simp: ask_registry_def Let_def result_status split: prod.splits)
  qed
qed

text \<open>
  C35: A domain job succeeds exactly when its settings are valid, a server was found for it
  (its \<^verbatim>\<open>rdap_url\<close>, or one of the bootstrap file), that server answered the question about the
  normalized name with a domain, and the answer says that the registration has not lapsed
  and ends more than \<^verbatim>\<open>warn_days\<close> days from now.
\<close>

theorem domain_succeeds_iff:
  "rr_status (fst (runOnceDomain e expired asked now s attempt started ended cache)) = StatusSucceeded
   \<longleftrightarrow> ValidateSpec (de_url_Parse e) Domain (Some s) = None
       \<and> (\<exists>domain base ans t. NormalizeDomain (sp_domain s) = Inr domain
           \<and> (if sp_rdap_url s \<noteq> [] then base = sp_rdap_url s
              else \<exists>note. fst (rdapBase (de_source e) (fetchBootstrap (de_get e) (de_bootstrap e)) asked domain cache) = Inr (base, note))
           \<and> answered e base domain = Some ans \<and> registered_until ans = Some t
           \<and> t - now > sp_warn_days s * day)"
proof (cases "ValidateSpec (de_url_Parse e) Domain (Some s)")
  case None
  then have w: "0 \<le> sp_warn_days s" "sp_warn_days s \<le> MaxWarnDays"
    by (auto simp: ValidateSpec_def HasSpec_def Let_def split: if_splits)
  obtain domain where d: "NormalizeDomain (sp_domain s) = Inr domain"
    using None by (auto simp: ValidateSpec_def HasSpec_def validateDomain_def Let_def split: if_splits sum.splits)
  show ?thesis
    using ask_registry_succeeds [OF w]
    by (cases "rdapBase (de_source e) (fetchBootstrap (de_get e) (de_bootstrap e)) asked domain cache")
      (auto simp: runOnceDomain_def None d probeErrorResult_fails split: sum.splits)
qed (simp add: runOnceDomain_def probeErrorResult_fails)

text \<open>
  The bootstrap file is only ever followed over https: a server taken from it has an
  https URL that ends in a slash and is listed for a suffix of the domain, in the copy just
  fetched or in the copy held when that is younger than a day or fetching it again failed.
\<close>

theorem rdapBase_https:
  assumes "rdapBase configured fetch now domain cache = (Inr (base, note), cache')"
  defines "src \<equiv> (if configured = [] then IANABootstrapURL else configured)"
  shows "is_https base \<and> suffix ''/'' base
    \<and> (\<exists>b. lookup b domain = Some base \<and> cache' src = Some b
         \<and> (fetch src = Inr (rb_services b) \<and> rb_fetched b = now
            \<or> cache src = Some b \<and> (\<not> stale now (Some b) \<or> (\<exists>err. fetch src = Inl err))))"
proof -
  have b: "\<exists>b. lookup b domain = Some base \<and> cache' src = Some b
       \<and> (fetch src = Inr (rb_services b) \<and> rb_fetched b = now
          \<or> cache src = Some b \<and> (\<not> stale now (Some b) \<or> (\<exists>err. fetch src = Inl err)))"
    using assms(1) unfolding rdapBase_def src_def [symmetric] Let_def
    by (auto split: if_splits option.splits sum.splits)
  then obtain b where "lookup b domain = Some base" by blast
  then obtain svc :: rdapService and u where u: "List.find is_https (rs_urls svc) = Some u" "base = withSlash u"
    by (auto simp: lookup_def split: option.splits)
  then have "is_https u" by (auto dest: find_Some_iff_set)
  then have "is_https (u @ ''/'')" by (simp add: is_https_def has_prefix_append)
  with \<open>is_https u\<close> u(2) have "is_https base \<and> suffix ''/'' base" by (auto simp: withSlash_def)
  with b show ?thesis by simp
qed

definition sample_cache :: bootstraps where
  "sample_cache = [IANABootstrapURL \<mapsto> \<lparr>rb_fetched = 5, rb_services =
     [\<lparr>rs_tlds = [''com''], rs_urls = [''http://a'', ''HTTPS://rdap.example'']\<rparr>]\<rparr>]"

theorem rdapBase_https_witness:
  "fst (rdapBase [] (\<lambda>_. Inl ''timeout'') 6 ''example.com'' sample_cache) = Inr (''HTTPS://rdap.example/'', [])
   \<and> is_https ''HTTPS://rdap.example/''"
proof -
  have r: "rdapBase [] (\<lambda>_. Inl ''timeout'') 6 ''example.com'' sample_cache = (Inr (''HTTPS://rdap.example/'', []), sample_cache)"
    unfolding sample_cache_def by (rule prod_eqI) (code_simp, simp add: rdapBase_def stale_def rdapBootstrapTTL_def time_sub_def max_int64_def min_int64_def Let_def)
  from rdapBase_https [OF r] r show ?thesis by simp
qed

end
