(* ===== verification/Jobs_TLS.thy ===== *)
theory Jobs_TLS
  imports Jobs_Domain
begin

text \<open>
  The TLS probe: \<^verbatim>\<open>internal/jobs/probe_tls.go\<close>. A certificate is what the probe reads of it,
  with its own name and chain checks (\<^verbatim>\<open>crypto/x509\<close>) as functions. The STARTTLS exchanges are
  modelled byte by byte: the connection delivers the server's bytes in pieces of any size,
  and the reader in front of it buffers up to 4096 of them, as \<^verbatim>\<open>bufio.Reader\<close> does.
\<close>

section \<open>Certificates\<close>

definition renewalGraceMax :: duration where "renewalGraceMax = 48 * hour"

definition time_round_second :: "gotime \<Rightarrow> gotime" where
  "time_round_second t = (let r = t mod second in if r + r < second then t - r else t + (second - r))"

definition renewalDue :: "gotime \<Rightarrow> gotime \<Rightarrow> rat \<Rightarrow> gotime \<times> duration" where
  "renewalDue notBefore notAfter fraction =
     (let lifetime = time_sub notAfter notBefore
      in (time_round_second (notBefore + truncate_rat (float64 (float64 (of_int lifetime) * fraction))),
          min renewalGraceMax (quot lifetime 10)))"

record certificate =
  xc_subject :: string
  xc_issuer :: string
  xc_not_before :: gotime
  xc_not_after :: gotime
  xc_sans :: "string list"
  xc_hostname :: "string \<Rightarrow> string option"
  xc_verify :: "gotime \<Rightarrow> (string \<times> bool) option"

record certCheck =
  cc_now :: gotime
  cc_name :: string
  cc_warn_days :: int
  cc_renew_after :: rat
  cc_verify :: bool

definition sansOf :: "certificate \<Rightarrow> string" where
  "sansOf c = (if xc_sans c = [] then ''(none)'' else join_comma (xc_sans c))"

definition used_percent :: "gotime \<Rightarrow> certificate \<Rightarrow> int" where
  "used_percent now leaf =
     (let lifetime = time_sub (xc_not_after leaf) (xc_not_before leaf)
      in if lifetime > 0
         then truncate_rat (float64 (float64 (float64 (of_int (time_sub now (xc_not_before leaf))) / float64 (of_int lifetime)) * 100))
         else 0)"

definition describe :: "gotime \<Rightarrow> certificate \<Rightarrow> probeReport" where
  "describe now leaf =
     (let na = xc_not_after leaf; nb = xc_not_before leaf; lifetime = time_sub na nb;
          r = add ''days_left'' (dec (floorDays (time_sub na now)))
                (add ''not_after'' (dateText na) (add ''not_before'' (dateText nb)
                  (add ''issuer'' (xc_issuer leaf) (add ''subject'' (xc_subject leaf) empty_report))))
      in if lifetime > 0
         then add ''lifetime'' (dec (quot (wrap64 (lifetime + quot day 2)) day) @ '' days, '' @ dec (max (used_percent now leaf) 0) @ ''% used'') r
         else r)"

definition judge_validity :: "certCheck \<Rightarrow> certificate \<Rightarrow> probeReport \<Rightarrow> probeReport" where
  "judge_validity c leaf r =
     (let na = xc_not_after leaf; left = time_sub na (cc_now c) in
      if cc_now c < xc_not_before leaf then fail (''certificate is not valid until '' @ dateText (xc_not_before leaf)) r
      else if left \<le> 0 then fail (''certificate expired '' @ humanDays left @ '' ago ('' @ dateText na @ '')'') r
      else if within_warning left (cc_warn_days c)
      then fail (''certificate expires in '' @ humanDays left @ '' ('' @ dateText na @ ''), within warn_days '' @ dec (cc_warn_days c)) r
      else r)"

definition judge_renewal :: "certCheck \<Rightarrow> certificate \<Rightarrow> probeReport \<Rightarrow> probeReport" where
  "judge_renewal c leaf r =
     (let nb = xc_not_before leaf; na = xc_not_after leaf; left = time_sub na (cc_now c); lifetime = time_sub na nb in
      if cc_renew_after c > 0 \<and> lifetime > 0 then
        let (due, grace) = renewalDue nb na (cc_renew_after c);
            r' = add ''renewal_due'' (dateText due @ '' (after '' @ dec (round_even (float64 (cc_renew_after c * 100)))
                   @ ''% of the lifetime; missed once '' @ durationText grace @ '' past that)'') r
        in if left > 0 \<and> \<not> cc_now c < nb \<and> cc_now c > due + grace
           then fail (''renewal missed: '' @ dec (used_percent (cc_now c) leaf) @ ''% of the '' @ dec (quot (wrap64 (lifetime + quot day 2)) day)
                  @ ''-day lifetime has passed and the certificate was due for renewal on '' @ dateText due
                  @ ''; is the ACME client still renewing it?'') r'
           else r'
      else r)"

definition judge_name :: "certCheck \<Rightarrow> certificate \<Rightarrow> probeReport \<Rightarrow> probeReport" where
  "judge_name c leaf r =
     (let r' = add ''sans'' (sansOf leaf) r in
      case xc_hostname leaf (cc_name c) of
        None \<Rightarrow> r'
      | Some err \<Rightarrow> fail (''host name mismatch: '' @ err) r')"

text \<open>The chain is judged at a moment inside the leaf's own validity.\<close>

definition verify_at :: "gotime \<Rightarrow> certificate \<Rightarrow> gotime" where
  "verify_at now leaf =
     (let t = (if now > xc_not_after leaf then xc_not_after leaf else now)
      in if t < xc_not_before leaf then xc_not_before leaf else t)"

definition judge_chain :: "nat \<Rightarrow> certCheck \<Rightarrow> certificate \<Rightarrow> probeReport \<Rightarrow> probeReport" where
  "judge_chain n c leaf r =
     (if \<not> cc_verify c then add ''chain'' ''not checked (insecure_skip_verify)'' r
      else case xc_verify leaf (verify_at (cc_now c) leaf) of
        None \<Rightarrow> add ''chain'' (''verified ('' @ dec (int n) @ '' sent)'') r
      | Some (err, unknown) \<Rightarrow>
          add ''chain'' (''does not verify ('' @ dec (int n) @ '' sent)'')
            (fail (''chain does not verify: '' @ err
                @ (if unknown then '' (set ca_file for a private CA, or insecure_skip_verify for a self-signed certificate)'' else [])) r))"

definition checkCertificate :: "certificate list \<Rightarrow> certCheck \<Rightarrow> probeReport" where
  "checkCertificate chain c =
     (let leaf = hd chain
      in judge_chain (length chain) c leaf (judge_name c leaf (judge_renewal c leaf (judge_validity c leaf (describe (cc_now c) leaf)))))"

section \<open>The connection\<close>

text \<open>
  The reader's buffer, the pieces still to come and what ends them (\<open>None\<close> when the server
  closes the connection), what was written and how many writes still succeed.
\<close>

record conn =
  cn_buf :: string
  cn_in :: "string list"
  cn_end :: "string option"
  cn_out :: "string list"
  cn_writes :: nat

datatype starttls_error =
    OverlongLine | ServerClosed | ReadError string | WriteFailed | NotSMTPReply string | ServerReplied string
  | ReplyDoesNotEnd | NoSTARTTLS | DataBeforeHandshake | Stage string starttls_error

definition reader_size :: nat where "reader_size = 4096"
definition maxStartTLSLines :: nat where "maxStartTLSLines = 100"

function read_slice :: "string \<Rightarrow> string list \<Rightarrow> (bool + string) \<times> string \<times> string list" where
  "read_slice buf pieces =
     (if newline \<in> set buf
      then (Inr (takeWhile (\<lambda>c. c \<noteq> newline) buf @ [newline]), tl (dropWhile (\<lambda>c. c \<noteq> newline) buf), pieces)
      else if length buf \<ge> reader_size then (Inl True, [], pieces)
      else case pieces of
        [] \<Rightarrow> (Inl False, [], [])
      | p # ps \<Rightarrow>
          let room = reader_size - length buf in
          if length p \<le> room then read_slice (buf @ p) ps
          else read_slice (buf @ take room p) (drop room p # ps))"
  by pat_completeness auto
termination
  by (relation "measure (\<lambda>(_, ps). sum_list (map length ps) + length ps)") auto

declare read_slice.simps [simp del]

definition readStartTLSLine :: "conn \<Rightarrow> (starttls_error + string) \<times> conn" where
  "readStartTLSLine c =
     (case read_slice (cn_buf c) (cn_in c) of
        (Inr line, buf, ps) \<Rightarrow> (Inr (trim_right [CHR 0x0D, newline] line), c\<lparr>cn_buf := buf, cn_in := ps\<rparr>)
      | (Inl True, buf, ps) \<Rightarrow> (Inl OverlongLine, c\<lparr>cn_buf := buf, cn_in := ps\<rparr>)
      | (Inl False, buf, ps) \<Rightarrow>
          (Inl (case cn_end c of None \<Rightarrow> ServerClosed | Some e \<Rightarrow> ReadError e), c\<lparr>cn_buf := buf, cn_in := ps\<rparr>))"

definition WriteString :: "string \<Rightarrow> conn \<Rightarrow> starttls_error option \<times> conn" where
  "WriteString s c =
     (if cn_writes c = 0 then (Some WriteFailed, c)
      else (None, c\<lparr>cn_out := cn_out c @ [s], cn_writes := cn_writes c - 1\<rparr>))"

definition smtp_line_ok :: "string \<Rightarrow> bool" where
  "smtp_line_ok line \<longleftrightarrow>
     \<not> (length line < 3 \<or> length line > 3 \<and> line ! 3 \<noteq> CHR '' '' \<and> line ! 3 \<noteq> CHR ''-'') \<and> atoi (take 3 line) \<noteq> None"

definition smtp_last :: "string \<Rightarrow> bool" where
  "smtp_last line \<longleftrightarrow> length line = 3 \<or> line ! 3 = CHR '' ''"

fun smtp_reply :: "nat \<Rightarrow> int \<Rightarrow> string list \<Rightarrow> conn \<Rightarrow> (starttls_error + string list) \<times> conn" where
  "smtp_reply 0 want ls c = (Inl ReplyDoesNotEnd, c)"
| "smtp_reply (Suc n) want ls c =
     (case readStartTLSLine c of
        (Inl e, c') \<Rightarrow> (Inl e, c')
      | (Inr line, c') \<Rightarrow>
          if \<not> smtp_line_ok line then (Inl (NotSMTPReply line), c')
          else
            let ls' = ls @ [trim_space (drop 4 line)] in
            if smtp_last line
            then (if atoi (take 3 line) \<noteq> Some want then (Inl (ServerReplied line), c') else (Inr ls', c'))
            else smtp_reply n want ls' c')"

definition readSMTPReply :: "int \<Rightarrow> conn \<Rightarrow> (starttls_error + string list) \<times> conn" where
  "readSMTPReply want c = smtp_reply maxStartTLSLines want [] c"

definition nothingBuffered :: "conn \<Rightarrow> starttls_error option" where
  "nothingBuffered c = (if length (cn_buf c) > 0 then Some DataBeforeHandshake else None)"

definition crlf :: string where "crlf = [CHR 0x0D, CHR 0x0A]"

definition offers :: "string list \<Rightarrow> bool" where
  "offers ext \<longleftrightarrow> list_ex (\<lambda>e. first_field e \<noteq> [] \<and> equal_fold (first_field e) ''STARTTLS'') ext"

definition startTLSSMTP :: "conn \<Rightarrow> starttls_error option \<times> conn" where
  "startTLSSMTP c0 =
     (case readSMTPReply 220 c0 of
        (Inl e, c) \<Rightarrow> (Some (Stage ''greeting'' e), c)
      | (Inr _, c1) \<Rightarrow>
          (case WriteString (''EHLO localhost'' @ crlf) c1 of
             (Some e, c) \<Rightarrow> (Some e, c)
           | (None, c2) \<Rightarrow>
               (case readSMTPReply 250 c2 of
                  (Inl e, c) \<Rightarrow> (Some (Stage ''EHLO'' e), c)
                | (Inr ext, c3) \<Rightarrow>
                    if \<not> offers ext then (Some NoSTARTTLS, snd (WriteString (''QUIT'' @ crlf) c3))
                    else (case WriteString (''STARTTLS'' @ crlf) c3 of
                            (Some e, c) \<Rightarrow> (Some e, c)
                          | (None, c4) \<Rightarrow>
                              (case readSMTPReply 220 c4 of
                                 (Inl e, c) \<Rightarrow> (Some (Stage ''STARTTLS'' e), c)
                               | (Inr _, c5) \<Rightarrow> (nothingBuffered c5, c5))))))"

definition upper_has_prefix :: "string \<Rightarrow> string \<Rightarrow> bool" where
  "upper_has_prefix s p \<longleftrightarrow> has_prefix (map lower s) (map lower p)"

fun imap_answer :: "nat \<Rightarrow> conn \<Rightarrow> starttls_error option \<times> conn" where
  "imap_answer 0 c = (Some (Stage ''STARTTLS'' ReplyDoesNotEnd), c)"
| "imap_answer (Suc n) c =
     (case readStartTLSLine c of
        (Inl e, c') \<Rightarrow> (Some (Stage ''STARTTLS'' e), c')
      | (Inr line, c') \<Rightarrow>
          if has_prefix line ''* '' then imap_answer n c'
          else if upper_has_prefix line ''TEND1 OK'' then (nothingBuffered c', c')
          else (Some (Stage ''STARTTLS'' (ServerReplied line)), c'))"

definition startTLSIMAP :: "conn \<Rightarrow> starttls_error option \<times> conn" where
  "startTLSIMAP c0 =
     (case readStartTLSLine c0 of
        (Inl e, c) \<Rightarrow> (Some (Stage ''greeting'' e), c)
      | (Inr greeting, c1) \<Rightarrow>
          if \<not> upper_has_prefix greeting ''* OK'' then (Some (Stage ''greeting'' (ServerReplied greeting)), c1)
          else (case WriteString (''tend1 STARTTLS'' @ crlf) c1 of
                  (Some e, c) \<Rightarrow> (Some e, c)
                | (None, c2) \<Rightarrow> imap_answer maxStartTLSLines c2))"

section \<open>The probe\<close>

definition TLSPort :: "spec \<Rightarrow> int" where
  "TLSPort s =
     (if sp_port s > 0 then sp_port s
      else if sp_starttls s = ''smtp'' then 25
      else if sp_starttls s = ''imap'' then 143 else 443)"

definition tlsName :: "spec \<Rightarrow> string" where
  "tlsName s = (if sp_server_name s \<noteq> [] then sp_server_name s else sp_host s)"

definition JoinHostPort :: "string \<Rightarrow> string \<Rightarrow> string" where
  "JoinHostPort host port =
     (if CHR '':'' \<in> set host \<or> CHR ''%'' \<in> set host then ''['' @ host @ '']:'' @ port else host @ '':'' @ port)"

text \<open>
  The network and \<^verbatim>\<open>crypto/tls\<close>: dialling, the handshake over a connection (the chain the
  server sent, with the roots it is to be judged by), loading the roots, and messages.
\<close>

record 'r tls_env =
  te_url_Parse :: url_parser
  te_spec_text :: "spec_error \<Rightarrow> string"
  te_starttls_text :: "starttls_error \<Rightarrow> string"
  te_roots :: "string \<Rightarrow> string + 'r"
  te_dial :: "string \<Rightarrow> string + conn"
  te_handshake :: "string \<Rightarrow> 'r option \<Rightarrow> conn \<Rightarrow> string + certificate list"

definition start_tls :: "string \<Rightarrow> conn \<Rightarrow> starttls_error option \<times> conn" where
  "start_tls proto c =
     (if proto = ''smtp'' then startTLSSMTP c else if proto = ''imap'' then startTLSIMAP c else (None, c))"

definition fetchChain :: "'r tls_env \<Rightarrow> string \<Rightarrow> string \<Rightarrow> string \<Rightarrow> 'r option \<Rightarrow> string + certificate list" where
  "fetchChain e addr name starttls roots =
     (case te_dial e addr of
        Inl err \<Rightarrow> Inl err
      | Inr c \<Rightarrow>
          (case start_tls starttls c of
             (Some err, _) \<Rightarrow> Inl (''starttls ('' @ starttls @ ''): '' @ te_starttls_text e err)
           | (None, c') \<Rightarrow>
               (case te_handshake e name roots c' of
                  Inl err \<Rightarrow> Inl (''handshake: '' @ err)
                | Inr chain \<Rightarrow> if chain = [] then Inl ''the server sent no certificate'' else Inr chain)))"

definition cert_check :: "gotime \<Rightarrow> spec \<Rightarrow> certCheck" where
  "cert_check now s = \<lparr>cc_now = now, cc_name = tlsName s, cc_warn_days = sp_warn_days s,
     cc_renew_after = sp_renew_after s, cc_verify = (\<not> sp_insecure s)\<rparr>"

definition tls_roots :: "'r tls_env \<Rightarrow> spec \<Rightarrow> string + 'r option" where
  "tls_roots e s = (if sp_ca_file s = [] then Inr None else map_sum id Some (te_roots e (sp_ca_file s)))"

definition runOnceTLS ::
  "'r tls_env \<Rightarrow> bool \<Rightarrow> gotime \<Rightarrow> spec \<Rightarrow> int \<Rightarrow> gotime \<Rightarrow> gotime \<Rightarrow> run_result" where
  "runOnceTLS e expired now s attempt started ended =
     (case ValidateSpec (te_url_Parse e) TLS (Some s) of
        Some err \<Rightarrow> probeErrorResult expired attempt started ended (te_spec_text e err)
      | None \<Rightarrow>
          let addr = JoinHostPort (sp_host s) (dec (TLSPort s)); name = tlsName s in
          (case tls_roots e s of
             Inl err \<Rightarrow> probeErrorResult expired attempt started ended err
           | Inr roots \<Rightarrow>
               (case fetchChain e addr name (sp_starttls s) roots of
                  Inl err \<Rightarrow> probeErrorResult expired attempt started ended (''tls '' @ addr @ '': '' @ err)
                | Inr chain \<Rightarrow>
                    let r = checkCertificate chain (cert_check now s);
                        target = addr @ (if name \<noteq> sp_host s then '' (server name '' @ name @ '')'' else [])
                          @ (if sp_starttls s \<noteq> [] then '' via STARTTLS ('' @ sp_starttls s @ '')'' else []);
                        na = xc_not_after (hd chain)
                    in result (r\<lparr>rep_info := info_line ''target'' target # rep_info r\<rparr>) attempt started ended
                         (''certificate for '' @ name @ '' expires in '' @ humanDays (time_sub na now) @ '' (''
                          @ dateText na @ ''; '' @ warnText (sp_warn_days s) @ '')''))))"

section \<open>No byte in the clear reaches the handshake\<close>

text \<open>Everything the server has sent and the probe has not yet consumed.\<close>

definition unread :: "conn \<Rightarrow> string" where
  "unread c = cn_buf c @ concat (cn_in c)"

definition is_line :: "string \<Rightarrow> bool" where
  "is_line l \<longleftrightarrow> (\<exists>l'. l = l' @ [newline] \<and> newline \<notin> set l')"

lemma take_drop_append: "take n xs @ drop n xs @ ys = xs @ ys"
  by (simp flip: append_assoc)

lemma read_slice_line:
  assumes "read_slice buf ps = (Inr l, buf', ps')"
  shows "buf @ concat ps = l @ buf' @ concat ps' \<and> is_line l"
  using assms
proof (induction buf ps rule: read_slice.induct)
  case (1 buf ps)
  show ?case
  proof (cases "newline \<in> set buf")
    case True
    let ?P = "\<lambda>c. c \<noteq> newline"
    obtain r where r: "dropWhile ?P buf = newline # r" using True by (metis (mono_tags, lifting) dropWhile_eq_Nil_conv hd_dropWhile list.collapse)
    then have "buf = takeWhile ?P buf @ newline # r" by (metis takeWhile_dropWhile_id)
    moreover have "newline \<notin> set (takeWhile ?P buf)" by (auto dest: set_takeWhileD)
    ultimately show ?thesis using "1.prems" True r by (auto simp: read_slice.simps [of buf ps] is_line_def)
  next
    case False
    with 1 show ?thesis
      by (auto simp: read_slice.simps [of buf ps] Let_def take_drop_append split: if_splits list.splits)
  qed
qed

text \<open>Reading consumes lines of what was unread and writes nothing.\<close>

definition consumed :: "string list \<Rightarrow> conn \<Rightarrow> conn \<Rightarrow> bool" where
  "consumed ls c c' \<longleftrightarrow> unread c = concat ls @ unread c' \<and> list_all is_line ls \<and> cn_out c' = cn_out c"

lemma readStartTLSLine_consumes:
  assumes "readStartTLSLine c = (Inr line, c')"
  shows "\<exists>l. consumed [l] c c' \<and> line = trim_right [CHR 0x0D, newline] l"
  using assms by (auto simp: readStartTLSLine_def consumed_def unread_def split: prod.splits sum.splits bool.splits
      dest!: read_slice_line)

lemma consumed_append: "consumed ls c c1 \<Longrightarrow> consumed ms c1 c2 \<Longrightarrow> consumed (ls @ ms) c c2"
  by (simp add: consumed_def)

text \<open>The line the server agreed with: the end of a 220 reply, or an OK to the command's tag.\<close>

definition agreed :: "string \<Rightarrow> string \<Rightarrow> bool" where
  "agreed proto l =
     (let line = trim_right [CHR 0x0D, newline] l in
      if proto = ''smtp'' then smtp_last line \<and> atoi (take 3 line) = Some 220
      else upper_has_prefix line ''TEND1 OK'')"

lemma smtp_reply_consumes:
  assumes "smtp_reply n want ls c = (Inr r, c')"
  shows "\<exists>raw l. consumed (raw @ [l]) c c' \<and> length raw < n
    \<and> smtp_last (trim_right [CHR 0x0D, newline] l) \<and> atoi (take 3 (trim_right [CHR 0x0D, newline] l)) = Some want"
  using assms
proof (induction n want ls c rule: smtp_reply.induct)
  case (2 n want ls c)
  from "2.prems" obtain line c1 where line: "readStartTLSLine c = (Inr line, c1)"
    by (auto split: prod.splits sum.splits)
  from readStartTLSLine_consumes [OF line] obtain l where
    l: "consumed [l] c c1" "line = trim_right [CHR 0x0D, newline] l" by blast
  show ?case
  proof (cases "smtp_last line")
    case True
    with "2.prems" line have "c' = c1" "atoi (take 3 line) = Some want"
      by (auto simp: Let_def split: if_splits)
    with l True show ?thesis by (intro exI [of _ "[]"] exI [of _ l]) simp
  next
    case False
    with "2.prems" line have "smtp_line_ok line"
      "smtp_reply n want (ls @ [trim_space (drop 4 line)]) c1 = (Inr r, c')"
      by (auto simp: Let_def split: if_splits)
    from "2.IH" [OF line [symmetric] refl _ refl False this(2)] this(1) obtain raw k where
      k: "consumed (raw @ [k]) c1 c'" "length raw < n" "smtp_last (trim_right [CHR 0x0D, newline] k)"
      "atoi (take 3 (trim_right [CHR 0x0D, newline] k)) = Some want" by auto
    from consumed_append [OF l(1) k(1)] k(2-4) show ?thesis by (intro exI [of _ "l # raw"] exI [of _ k]) simp
  qed
qed simp

lemma readSMTPReply_consumes:
  assumes "readSMTPReply want c = (Inr r, c')"
  obtains raw l where "consumed (raw @ [l]) c c'" "smtp_last (trim_right [CHR 0x0D, newline] l)"
    "atoi (take 3 (trim_right [CHR 0x0D, newline] l)) = Some want"
  using smtp_reply_consumes assms unfolding readSMTPReply_def by blast

lemma WriteString_written:
  "WriteString s c = (None, c') \<Longrightarrow> unread c' = unread c \<and> cn_out c' = cn_out c @ [s]"
  by (auto simp: WriteString_def unread_def split: if_splits)

lemma nothingBuffered_None: "nothingBuffered c = None \<longleftrightarrow> cn_buf c = []"
  by (simp add: nothingBuffered_def)

lemma imap_answer_consumes:
  assumes "imap_answer n c = (None, c')"
  shows "\<exists>raw l. consumed (raw @ [l]) c c' \<and> agreed ''imap'' l \<and> cn_buf c' = []"
  using assms
proof (induction n c rule: imap_answer.induct)
  case (2 n c)
  from "2.prems" obtain line c1 where line: "readStartTLSLine c = (Inr line, c1)"
    by (auto split: prod.splits sum.splits)
  from readStartTLSLine_consumes [OF line] obtain l where
    l: "consumed [l] c c1" "line = trim_right [CHR 0x0D, newline] l" by blast
  show ?case
  proof (cases "has_prefix line ''* ''")
    case True
    with "2.prems" line "2.IH" [OF line [symmetric] refl True] obtain raw k where
      "consumed (raw @ [k]) c1 c'" "agreed ''imap'' k" "cn_buf c' = []" by auto
    with consumed_append [OF l(1)] show ?thesis by (intro exI [of _ "l # raw"] exI [of _ k]) fastforce
  next
    case False
    with "2.prems" line have "c' = c1" "upper_has_prefix line ''TEND1 OK''" "cn_buf c1 = []"
      by (auto simp: nothingBuffered_None split: if_splits)
    with l show ?thesis by (intro exI [of _ "[]"] exI [of _ l]) (simp add: agreed_def)
  qed
qed simp

lemma startTLSSMTP_clean:
  assumes "startTLSSMTP c = (None, c')"
  shows "\<exists>raw l. unread c = concat (raw @ [l]) @ unread c' \<and> list_all is_line (raw @ [l]) \<and> agreed ''smtp'' l
    \<and> cn_buf c' = [] \<and> cn_out c' = cn_out c @ [''EHLO localhost'' @ crlf, ''STARTTLS'' @ crlf]"
proof -
  from assms obtain g c1 c2 ext c3 c4 a where s:
    "readSMTPReply 220 c = (Inr g, c1)" "WriteString (''EHLO localhost'' @ crlf) c1 = (None, c2)"
    "readSMTPReply 250 c2 = (Inr ext, c3)" "WriteString (''STARTTLS'' @ crlf) c3 = (None, c4)"
    "readSMTPReply 220 c4 = (Inr a, c')" "cn_buf c' = []"
    by (auto simp: startTLSSMTP_def nothingBuffered_None split: prod.splits sum.splits option.splits if_splits)
  from readSMTPReply_consumes [OF s(1)] readSMTPReply_consumes [OF s(3)] readSMTPReply_consumes [OF s(5)]
  obtain r1 l1 r2 l2 r3 l3 where r: "consumed (r1 @ [l1]) c c1" "consumed (r2 @ [l2]) c2 c3" "consumed (r3 @ [l3]) c4 c'"
    "agreed ''smtp'' l3" unfolding agreed_def Let_def by (metis (no_types, lifting))
  with WriteString_written [OF s(2)] WriteString_written [OF s(4)] s(6) show ?thesis
    by (intro exI [of _ "(r1 @ [l1]) @ (r2 @ [l2]) @ r3"] exI [of _ l3]) (simp add: consumed_def)
qed

lemma startTLSIMAP_clean:
  assumes "startTLSIMAP c = (None, c')"
  shows "\<exists>raw l. unread c = concat (raw @ [l]) @ unread c' \<and> list_all is_line (raw @ [l]) \<and> agreed ''imap'' l
    \<and> cn_buf c' = [] \<and> cn_out c' = cn_out c @ [''tend1 STARTTLS'' @ crlf]"
proof -
  from assms obtain g c1 c2 where s: "readStartTLSLine c = (Inr g, c1)"
    "WriteString (''tend1 STARTTLS'' @ crlf) c1 = (None, c2)" "imap_answer maxStartTLSLines c2 = (None, c')"
    by (auto simp: startTLSIMAP_def split: prod.splits sum.splits option.splits if_splits)
  from readStartTLSLine_consumes [OF s(1)] imap_answer_consumes [OF s(3)] WriteString_written [OF s(2)]
  obtain l1 raw l where "consumed [l1] c c1" "consumed (raw @ [l]) c2 c'" "agreed ''imap'' l" "cn_buf c' = []" by blast
  with WriteString_written [OF s(2)] show ?thesis
    by (intro exI [of _ "l1 # raw"] exI [of _ l]) (simp add: consumed_def)
qed

text \<open>
  C33: A STARTTLS exchange that succeeds leaves nothing of the plain connection behind: every
  byte received so far, however the network cut it up, belongs to the reply lines that were
  read, the last of which is the server's agreement; the reader's buffer is empty, so the
  handshake starts with bytes received after it; and only the protocol's own commands were
  sent.
\<close>

theorem starttls_leaves_nothing:
  assumes "start_tls proto c = (None, c')" "proto = ''smtp'' \<or> proto = ''imap''"
  shows "\<exists>raw l. unread c = concat (raw @ [l]) @ concat (cn_in c') \<and> list_all is_line (raw @ [l]) \<and> agreed proto l
    \<and> cn_buf c' = []
    \<and> cn_out c' = cn_out c @ (if proto = ''smtp'' then [''EHLO localhost'' @ crlf, ''STARTTLS'' @ crlf]
                               else [''tend1 STARTTLS'' @ crlf])"
proof (cases "proto = ''smtp''")
  case True
  with assms(1) startTLSSMTP_clean [of c c'] obtain raw l where
    "unread c = concat (raw @ [l]) @ unread c'" "list_all is_line (raw @ [l])" "agreed ''smtp'' l" "cn_buf c' = []"
    "cn_out c' = cn_out c @ [''EHLO localhost'' @ crlf, ''STARTTLS'' @ crlf]" by (auto simp: start_tls_def)
  with True show ?thesis by (intro exI [of _ raw] exI [of _ l]) (simp add: unread_def)
next
  case False
  with assms startTLSIMAP_clean [of c c'] obtain raw l where
    "unread c = concat (raw @ [l]) @ unread c'" "list_all is_line (raw @ [l])" "agreed ''imap'' l" "cn_buf c' = []"
    "cn_out c' = cn_out c @ [''tend1 STARTTLS'' @ crlf]" by (auto simp: start_tls_def)
  with False assms(2) show ?thesis by (intro exI [of _ raw] exI [of _ l]) (simp add: unread_def)
qed

definition sample_conn :: conn where
  "sample_conn = \<lparr>cn_buf = [], cn_in = [''* OK re'', ''ady'' @ crlf, ''* bye'' @ crlf @ ''TEND1 ok go'' @ crlf], cn_end = None,
     cn_out = [], cn_writes = 9\<rparr>"

theorem starttls_leaves_nothing_witness:
  "fst (start_tls ''imap'' sample_conn) = None
   \<and> cn_out (snd (start_tls ''imap'' sample_conn)) = [''tend1 STARTTLS'' @ crlf]"
proof -
  have "fst (start_tls ''imap'' sample_conn) = None" by code_simp
  then have "start_tls ''imap'' sample_conn = (None, snd (start_tls ''imap'' sample_conn))" by (simp add: prod_eq_iff)
  from starttls_leaves_nothing [OF this] \<open>fst (start_tls ''imap'' sample_conn) = None\<close> show ?thesis
    by (auto simp: sample_conn_def)
qed

section \<open>The verdict of a TLS job\<close>

definition renewal_missed :: "gotime \<Rightarrow> spec \<Rightarrow> certificate \<Rightarrow> bool" where
  "renewal_missed now s leaf \<longleftrightarrow>
     sp_renew_after s > 0
     \<and> (let (due, grace) = renewalDue (xc_not_before leaf) (xc_not_after leaf) (sp_renew_after s) in now > due + grace)"

definition good_certificate :: "gotime \<Rightarrow> spec \<Rightarrow> certificate \<Rightarrow> bool" where
  "good_certificate now s leaf \<longleftrightarrow>
     xc_not_before leaf \<le> now \<and> xc_not_after leaf - now > sp_warn_days s * day
     \<and> \<not> renewal_missed now s leaf \<and> xc_hostname leaf (tlsName s) = None
     \<and> (sp_insecure s \<or> xc_verify leaf now = None)"

lemma describe_problems [simp]: "rep_problems (describe now leaf) = []"
  by (simp add: describe_def Let_def)

lemma judge_validity_problems:
  assumes "0 \<le> cc_warn_days c" "cc_warn_days c \<le> MaxWarnDays"
  shows "rep_problems (judge_validity c leaf r) = []
    \<longleftrightarrow> rep_problems r = [] \<and> xc_not_before leaf \<le> cc_now c \<and> xc_not_after leaf - cc_now c > cc_warn_days c * day"
proof -
  have "xc_not_after leaf \<le> cc_now c \<Longrightarrow> xc_not_after leaf - cc_now c \<le> cc_warn_days c * day"
    using assms(1) by (smt (verit) mult_nonneg_nonneg)
  then show ?thesis
    using within_warning_exact [OF assms, of "xc_not_after leaf" "cc_now c"] by (auto simp: judge_validity_def Let_def)
qed

lemma judge_renewal_problems:
  assumes "xc_not_before leaf \<le> now" "now < xc_not_after leaf"
  shows "rep_problems (judge_renewal (cert_check now s) leaf r) = [] \<longleftrightarrow> rep_problems r = [] \<and> \<not> renewal_missed now s leaf"
proof -
  have "time_sub (xc_not_after leaf) now > 0" "time_sub (xc_not_after leaf) (xc_not_before leaf) > 0"
    using assms time_sub_le_0 [of "xc_not_after leaf"] by (simp_all add: not_le [symmetric])
  with assms show ?thesis
    by (auto simp: judge_renewal_def renewal_missed_def cert_check_def Let_def split: prod.splits)
qed

lemma judge_renewal_keeps: "rep_problems r \<noteq> [] \<Longrightarrow> rep_problems (judge_renewal c leaf r) \<noteq> []"
  by (auto simp: judge_renewal_def Let_def split: prod.splits)

lemma judge_name_problems:
  "rep_problems (judge_name c leaf r) = [] \<longleftrightarrow> rep_problems r = [] \<and> xc_hostname leaf (cc_name c) = None"
  by (auto simp: judge_name_def Let_def split: option.splits)

lemma judge_chain_problems:
  "rep_problems (judge_chain n c leaf r) = []
    \<longleftrightarrow> rep_problems r = [] \<and> (cc_verify c \<longrightarrow> xc_verify leaf (verify_at (cc_now c) leaf) = None)"
  by (auto simp: judge_chain_def split: option.splits)

lemma checkCertificate_problems:
  assumes "0 \<le> sp_warn_days s" "sp_warn_days s \<le> MaxWarnDays"
  shows "rep_problems (checkCertificate chain (cert_check now s)) = [] \<longleftrightarrow> good_certificate now s (hd chain)"
proof -
  let ?c = "cert_check now s" and ?l = "hd chain"
  let ?v = "judge_validity ?c ?l (describe now ?l)"
  have w: "0 \<le> cc_warn_days ?c" "cc_warn_days ?c \<le> MaxWarnDays" "cc_now ?c = now" "cc_warn_days ?c = sp_warn_days s"
    using assms by (simp_all add: cert_check_def)
  have v: "rep_problems ?v = [] \<longleftrightarrow> xc_not_before ?l \<le> now \<and> xc_not_after ?l - now > sp_warn_days s * day"
    using judge_validity_problems [OF w(1,2), of ?l "describe now ?l"] w(3,4) by simp
  show ?thesis
  proof (cases "rep_problems ?v = []")
    case True
    then have "xc_not_before ?l \<le> now" "now < xc_not_after ?l"
      using v assms(1) by (auto simp: less_le_trans)
    moreover from this have "verify_at now ?l = now" by (simp add: verify_at_def Let_def)
    ultimately show ?thesis
      using True v judge_renewal_problems [of ?l now s ?v] w(3)
      by (auto simp: checkCertificate_def Let_def judge_chain_problems judge_name_problems good_certificate_def cert_check_def)
  next
    case False
    with v judge_renewal_keeps [OF False] w(3) show ?thesis
      by (auto simp: checkCertificate_def Let_def judge_chain_problems judge_name_problems good_certificate_def)
  qed
qed

text \<open>
  C34: A TLS job succeeds exactly when its settings are valid, the roots load, the server was
  reached and sent a chain, and the first certificate of it is in force, is more than
  \<^verbatim>\<open>warn_days\<close> days from its end, is not past its renewal point and grace, is valid for the
  name asked for and, unless that was turned off, verifies now.
\<close>

theorem tls_succeeds_iff:
  "rr_status (runOnceTLS e expired now s attempt started ended) = StatusSucceeded
   \<longleftrightarrow> ValidateSpec (te_url_Parse e) TLS (Some s) = None
       \<and> (\<exists>roots chain. tls_roots e s = Inr roots
           \<and> fetchChain e (JoinHostPort (sp_host s) (dec (TLSPort s))) (tlsName s) (sp_starttls s) roots = Inr chain
           \<and> good_certificate now s (hd chain))"
proof (cases "ValidateSpec (te_url_Parse e) TLS (Some s)")
  case None
  then have w: "0 \<le> sp_warn_days s" "sp_warn_days s \<le> MaxWarnDays"
    by (auto simp: ValidateSpec_def HasSpec_def Let_def split: if_splits)
  show ?thesis
    using checkCertificate_problems [OF w]
    by (auto simp: runOnceTLS_def None Let_def probeErrorResult_fails result_status split: sum.splits)
qed (simp add: runOnceTLS_def probeErrorResult_fails)

end
