(* ===== verification/Jobs_Drill.thy ===== *)
theory Jobs_Drill
  imports Jobs_Probe
begin

text \<open>
  The restore drill: \<^verbatim>\<open>internal/jobs/drill.go\<close>. The operating system is an argument with a
  state of its own: making and removing the scratch directory, looking at it, running a
  command in a directory, and whether the attempt's context has ended. \<open>traced\<close> wraps it to
  record every call, so that the order of a drill's steps can be stated.
\<close>

section \<open>The operating system\<close>

type_synonym environment = "(string \<times> string) list"

record step_result =
  sr_written :: "string list"
  sr_took :: duration
  sr_deadline :: bool
  sr_err :: "cmd_error option"

text \<open>
  \<open>os_run\<close> takes whether the command is the cleanup, which runs under a context of its own
  with \<^verbatim>\<open>drillCleanupTimeout\<close>; \<open>os_is_dir\<close> is \<^verbatim>\<open>os.Lstat\<close> finding a directory, \<open>os_parent\<close> is
  \<^verbatim>\<open>filepath.Dir\<close>, \<open>os_expired\<close> whether the attempt's deadline has passed and \<open>os_ended\<close>
  whether its context has ended at all.
\<close>

record 'w os =
  os_mkdir :: "string \<Rightarrow> 'w \<Rightarrow> (string + string) \<times> 'w"
  os_run :: "bool \<Rightarrow> string \<Rightarrow> environment \<Rightarrow> string \<Rightarrow> 'w \<Rightarrow> step_result \<times> 'w"
  os_is_dir :: "string \<Rightarrow> 'w \<Rightarrow> bool \<times> 'w"
  os_ended :: "'w \<Rightarrow> bool"
  os_expired :: "'w \<Rightarrow> bool"
  os_remove :: "string \<Rightarrow> 'w \<Rightarrow> string option \<times> 'w"
  os_make_writable :: "string \<Rightarrow> 'w \<Rightarrow> 'w"
  os_parent :: "string \<Rightarrow> string"

definition removeScratch :: "'w os \<Rightarrow> string \<Rightarrow> 'w \<Rightarrow> string option \<times> 'w" where
  "removeScratch os dir w =
     (case os_remove os dir w of
        (None, w') \<Rightarrow> (None, w')
      | (Some _, w') \<Rightarrow> os_remove os dir (os_make_writable os dir w'))"

section \<open>Steps\<close>

definition drillStepOutput :: nat where "drillStepOutput = 32768"

record drillStep =
  ds_label :: string
  ds_command :: string
  ds_status :: run_status
  ds_code :: int
  ds_took :: duration
  ds_output :: string

definition step_output :: "string list \<Rightarrow> string list \<Rightarrow> string" where
  "step_output secrets written =
     ht_text (foldl (\<lambda>h p. snd (ht_Write h p))
       \<lparr>ht_max = drillStepOutput, ht_margin = secretMargin secrets, ht_head = [], ht_ring = [], ht_pos = 0, ht_rest = 0\<rparr>
       written) secrets"

definition runDrillStep ::
  "'w os \<Rightarrow> bool \<Rightarrow> string \<Rightarrow> string \<Rightarrow> environment \<Rightarrow> string list \<Rightarrow> string \<Rightarrow> 'w \<Rightarrow> drillStep \<times> 'w" where
  "runDrillStep os cleanup label command env secrets dir w =
     (let (sr, w') = os_run os cleanup command env dir w;
          (status, code) = shellOutcome (sr_deadline sr) (sr_err sr)
      in (\<lparr>ds_label = label, ds_command = command, ds_status = status, ds_code = code, ds_took = sr_took sr,
           ds_output = step_output secrets (sr_written sr)\<rparr>, w'))"

definition env_set :: "string \<Rightarrow> string \<Rightarrow> environment \<Rightarrow> environment" where
  "env_set k v env = (k, v) # filter (\<lambda>(k', _). k' \<noteq> k) env"

text \<open>\<^verbatim>\<open>filepath.Base\<close> of a path that is not empty.\<close>

definition base_name :: "string \<Rightarrow> string" where
  "base_name p = (let q = trim_right ''/'' p in if q = [] then ''/'' else last (split_on (CHR ''/'') q))"

definition firstLine :: "string \<Rightarrow> string" where
  "firstLine command =
     (let c = trim_space command;
          line = takeWhile (\<lambda>x. x \<noteq> newline) c;
          more = newline \<in> set c;
          (line', more') = (if length line > 80 then (take 80 line, True) else (line, more))
      in if more' then line' @ '' ...'' else line')"

section \<open>The drill\<close>

record 'w drill =
  dr_report :: probeReport
  dr_status :: run_status
  dr_exit :: int
  dr_steps :: "drillStep list"
  dr_passed :: int
  dr_world :: 'w

text \<open>The first failure decides the status and the exit code.\<close>

definition failed :: "run_status \<Rightarrow> int \<Rightarrow> 'w drill \<Rightarrow> 'w drill" where
  "failed st code d = (if dr_status d = StatusSucceeded then d\<lparr>dr_status := st, dr_exit := code\<rparr> else d)"

definition problem :: "string \<Rightarrow> 'w drill \<Rightarrow> 'w drill" where
  "problem msg d = d\<lparr>dr_report := fail msg (dr_report d)\<rparr>"

definition remark :: "string \<Rightarrow> string \<Rightarrow> 'w drill \<Rightarrow> 'w drill" where
  "remark key val d = d\<lparr>dr_report := add key val (dr_report d)\<rparr>"

definition ran :: "drillStep \<Rightarrow> 'w \<Rightarrow> 'w drill \<Rightarrow> 'w drill" where
  "ran st w d = d\<lparr>dr_steps := dr_steps d @ [st], dr_world := w\<rparr>"

definition drill_restore :: "'w os \<Rightarrow> spec \<Rightarrow> environment \<Rightarrow> string list \<Rightarrow> string \<Rightarrow> 'w drill \<Rightarrow> drillStep \<times> 'w drill" where
  "drill_restore os s env secrets scratch d =
     (let (st, w) = runDrillStep os False ''restore'' (sp_restore s) env secrets scratch (dr_world d);
          took = durationText (ds_took st);
          d1 = ran st w d
      in (st, if ds_status st = StatusSucceeded then remark ''restore'' (''ok, took '' @ took) d1
              else if ds_status st = StatusTimedOut then
                failed StatusTimedOut 0 (remark ''restore'' (''timed out after '' @ took)
                  (problem (''the restore did not finish within the job's timeout ('' @ took @ '')'') d1))
              else
                failed StatusFailed (ds_code st) (remark ''restore'' (''failed (exit '' @ dec (ds_code st) @ '') after '' @ took)
                  (problem (''the restore failed (exit '' @ dec (ds_code st) @ '')'') d1))))"

definition drill_replaced :: "'w os \<Rightarrow> drillStep \<Rightarrow> string \<Rightarrow> 'w drill \<Rightarrow> bool \<times> 'w drill" where
  "drill_replaced os restore scratch d =
     (if ds_status restore = StatusSucceeded then
        let (ok, w) = os_is_dir os scratch (dr_world d); d1 = d\<lparr>dr_world := w\<rparr>
        in if ok then (False, d1)
           else (True, failed StatusFailed probeExitError
                  (problem (''the restore removed or replaced the scratch directory '' @ scratch @ ''; the checks were not run'') d1))
      else (False, d))"

definition drill_check ::
  "'w os \<Rightarrow> environment \<Rightarrow> string list \<Rightarrow> string \<Rightarrow> drillStep \<Rightarrow> bool \<Rightarrow> int \<Rightarrow> string \<Rightarrow> 'w drill \<Rightarrow> 'w drill" where
  "drill_check os env secrets scratch restore replaced i command d =
     (let label = ''check '' @ dec i in
      if ds_status restore \<noteq> StatusSucceeded then remark label ''not run (the restore did not succeed)'' d
      else if replaced then remark label ''not run (the scratch directory was replaced)'' d
      else if os_ended os (dr_world d) then remark label ''not run (the job's timeout was reached)'' d
      else
        let (c, w) = runDrillStep os False label command env secrets scratch (dr_world d);
            d1 = ran c w d
        in if ds_status c = StatusSucceeded then remark label ''ok'' (d1\<lparr>dr_passed := dr_passed d1 + 1\<rparr>)
           else if ds_status c = StatusTimedOut then
             failed StatusTimedOut 0 (remark label ''timed out''
               (problem (label @ '' did not finish within the job's timeout: '' @ firstLine command) d1))
           else
             failed StatusFailed (ds_code c) (remark label (''failed (exit '' @ dec (ds_code c) @ '')'')
               (problem (label @ '' failed (exit '' @ dec (ds_code c) @ ''): '' @ firstLine command) d1)))"

fun drill_checks ::
  "'w os \<Rightarrow> environment \<Rightarrow> string list \<Rightarrow> string \<Rightarrow> drillStep \<Rightarrow> bool \<Rightarrow> int \<Rightarrow> string list \<Rightarrow> 'w drill \<Rightarrow> 'w drill" where
  "drill_checks os env secrets scratch restore replaced i [] d = d"
| "drill_checks os env secrets scratch restore replaced i (c # cs) d =
     drill_checks os env secrets scratch restore replaced (i + 1) cs
       (drill_check os env secrets scratch restore replaced i c d)"

definition drill_limit :: "spec \<Rightarrow> drillStep \<Rightarrow> bool \<Rightarrow> 'w drill \<Rightarrow> 'w drill" where
  "drill_limit s restore replaced d =
     (let limit = seconds (sp_max_duration s) in
      if ds_status restore = StatusSucceeded \<and> \<not> replaced \<and> limit > 0 \<and> ds_took restore > limit
      then failed StatusFailed probeExitFailed
             (problem (''the restore took '' @ durationText (ds_took restore) @ '', over max_duration '' @ durationText limit) d)
      else d)"

definition drill_cleanup :: "'w os \<Rightarrow> spec \<Rightarrow> environment \<Rightarrow> string list \<Rightarrow> string \<Rightarrow> 'w drill \<Rightarrow> 'w drill" where
  "drill_cleanup os s env secrets scratch d =
     (if trim_space (sp_cleanup s) = [] then d
      else
        let (c, w) = runDrillStep os True ''cleanup'' (sp_cleanup s) env secrets (os_parent os scratch) (dr_world d);
            d1 = ran c w d
        in if ds_status c = StatusSucceeded then remark ''cleanup'' ''ok'' d1
           else if ds_status c = StatusTimedOut then
             failed StatusFailed probeExitError (remark ''cleanup'' ''timed out''
               (problem (''the cleanup did not finish within '' @ durationText drillCleanupTimeout) d1))
           else
             failed StatusFailed (ds_code c) (remark ''cleanup'' (''failed (exit '' @ dec (ds_code c) @ '')'')
               (problem (''the cleanup failed (exit '' @ dec (ds_code c) @ '')'') d1)))"

definition drill_remove :: "'w os \<Rightarrow> string \<Rightarrow> 'w drill \<Rightarrow> 'w drill" where
  "drill_remove os scratch d =
     (case removeScratch os scratch (dr_world d) of
        (Some err, w) \<Rightarrow>
          failed StatusFailed probeExitError (remark ''scratch'' (scratch @ '' (NOT removed)'')
            (problem (''the scratch directory could not be removed: '' @ err) (d\<lparr>dr_world := w\<rparr>)))
      | (None, w) \<Rightarrow> remark ''scratch'' (scratch @ '' (removed)'') (d\<lparr>dr_world := w\<rparr>))"

definition step_text :: "drillStep \<Rightarrow> string" where
  "step_text st =
     (let out = trim_right [newline] (ds_output st)
      in newline # ''--- '' @ ds_label st @ '' (exit '' @ dec (ds_code st) @ '', '' @ durationText (ds_took st) @ '')''
         @ newline # ''$ '' @ ds_command st @ [newline]
         @ (if ds_status st = StatusTimedOut then ''(timed out)'' @ [newline] else [])
         @ (if out \<noteq> [] then out @ [newline] else []))"

definition drill_verdict :: "spec \<Rightarrow> drillStep \<Rightarrow> 'w drill \<Rightarrow> string" where
  "drill_verdict s restore d =
     (if rep_problems (dr_report d) \<noteq> [] then concat (map (\<lambda>p. ''FAIL: '' @ p @ [newline]) (rep_problems (dr_report d)))
      else ''ok: restored in '' @ durationText (ds_took restore)
        @ (if length (sp_checks s) = 0 then '', no checks''
           else if length (sp_checks s) = 1 then '', 1 check passed''
           else '', '' @ dec (dr_passed d) @ '' checks passed'')
        @ (if seconds (sp_max_duration s) > 0 then '' (max_duration '' @ durationText (seconds (sp_max_duration s)) @ '')'' else [])
        @ [newline])"

definition drill_output :: "spec \<Rightarrow> drillStep \<Rightarrow> 'w drill \<Rightarrow> string" where
  "drill_output s restore d =
     trim_right [newline]
       (drill_verdict s restore d @ newline # join_with newline (rep_info (dr_report d)) @ [newline]
        @ concat (map step_text (dr_steps d)))"

definition drill_env :: "environment \<Rightarrow> string \<Rightarrow> environment" where
  "drill_env env scratch = env_set ''TEND_DRILL_ID'' (base_name scratch) (env_set ''TEND_SCRATCH'' scratch env)"

definition drill_in ::
  "'w os \<Rightarrow> spec \<Rightarrow> environment \<Rightarrow> string list \<Rightarrow> string \<Rightarrow> 'w \<Rightarrow> drillStep \<times> 'w drill" where
  "drill_in os s env secrets scratch w =
     (let stepEnv = drill_env env scratch;
          d0 = \<lparr>dr_report = empty_report, dr_status = StatusSucceeded, dr_exit = 0, dr_steps = [], dr_passed = 0, dr_world = w\<rparr>;
          (restore, d1) = drill_restore os s stepEnv secrets scratch d0;
          (replaced, d2) = drill_replaced os restore scratch d1;
          d3 = drill_checks os stepEnv secrets scratch restore replaced 1 (sp_checks s) d2;
          d4 = drill_limit s restore replaced d3;
          d5 = drill_cleanup os s stepEnv secrets scratch d4
      in (restore, drill_remove os scratch d5))"

definition runOnceDrill ::
  "url_parser \<Rightarrow> (spec_error \<Rightarrow> string) \<Rightarrow> 'w os \<Rightarrow> spec \<Rightarrow> environment \<Rightarrow> string list \<Rightarrow> int \<Rightarrow> gotime \<Rightarrow> gotime \<Rightarrow> 'w
   \<Rightarrow> run_result \<times> 'w" where
  "runOnceDrill url_Parse spec_text os s env secrets attempt started ended w =
     (case ValidateSpec url_Parse Drill (Some s) of
        Some err \<Rightarrow> (probeErrorResult (os_expired os w) attempt started ended (spec_text err), w)
      | None \<Rightarrow>
          (case os_mkdir os (sp_scratch_dir s) w of
             (Inl err, w') \<Rightarrow>
               (probeErrorResult (os_expired os w') attempt started ended (''make the scratch directory: '' @ err), w')
           | (Inr scratch, w') \<Rightarrow>
               let (restore, d) = drill_in os s env secrets scratch w'
               in (\<lparr>rr_status = dr_status d, rr_exit = dr_exit d, rr_output = drill_output s restore d,
                    rr_truncated = False, rr_attempt = attempt, rr_started = started, rr_ended = ended\<rparr>, dr_world d)))"

section \<open>The order of the steps\<close>

text \<open>The calls a drill makes, with what came of them.\<close>

datatype os_call =
    CMkdir string "string option"
  | CRun bool string string run_status
  | CLstat string bool
  | CRemove string bool
  | CChmod string

abbreviation run_outcome :: "step_result \<Rightarrow> run_status" where
  "run_outcome sr \<equiv> fst (shellOutcome (sr_deadline sr) (sr_err sr))"

definition traced :: "'w os \<Rightarrow> ('w \<times> os_call list) os" where
  "traced os =
     \<lparr>os_mkdir = (\<lambda>dir (w, tr). let (r, w') = os_mkdir os dir w in (r, w', tr @ [CMkdir dir (case r of Inl _ \<Rightarrow> None | Inr p \<Rightarrow> Some p)])),
      os_run = (\<lambda>cl cmd env dir (w, tr). let (sr, w') = os_run os cl cmd env dir w in (sr, w', tr @ [CRun cl cmd dir (run_outcome sr)])),
      os_is_dir = (\<lambda>p (w, tr). let (ok, w') = os_is_dir os p w in (ok, w', tr @ [CLstat p ok])),
      os_ended = (\<lambda>(w, tr). os_ended os w),
      os_expired = (\<lambda>(w, tr). os_expired os w),
      os_remove = (\<lambda>p (w, tr). let (e, w') = os_remove os p w in (e, w', tr @ [CRemove p (e = None)])),
      os_make_writable = (\<lambda>p (w, tr). (os_make_writable os p w, tr @ [CChmod p])),
      os_parent = os_parent os\<rparr>"

abbreviation trace :: "('w \<times> os_call list) drill \<Rightarrow> os_call list" where
  "trace d \<equiv> snd (dr_world d)"

abbreviation good :: "'w drill \<Rightarrow> bool" where
  "good d \<equiv> dr_status d = StatusSucceeded"

lemma failed_simps [simp]:
  "dr_world (failed st c d) = dr_world d" "dr_report (failed st c d) = dr_report d" "dr_steps (failed st c d) = dr_steps d"
  "st \<noteq> StatusSucceeded \<Longrightarrow> \<not> good (failed st c d)"
  by (simp_all add: failed_def)

lemma drill_notes [simp]:
  "dr_world (problem m d) = dr_world d" "dr_status (problem m d) = dr_status d"
  "dr_world (remark k v d) = dr_world d" "dr_status (remark k v d) = dr_status d"
  "dr_world (ran st w d) = w" "dr_status (ran st w d) = dr_status d"
  by (simp_all add: problem_def remark_def ran_def)

lemma traced_run:
  assumes "runDrillStep (traced os) cl l cmd env sec dir w = (st, w')"
  shows "snd w' = snd w @ [CRun cl cmd dir (ds_status st)]"
  using assms by (auto simp: runDrillStep_def traced_def Let_def split: prod.splits)

lemma traced_restore:
  assumes "drill_restore (traced os) s env sec scratch d = (st, d')"
  shows "trace d' = trace d @ [CRun False (sp_restore s) scratch (ds_status st)] \<and> (good d' \<longleftrightarrow> good d \<and> ds_status st = StatusSucceeded)"
proof -
  obtain w where r: "runDrillStep (traced os) False ''restore'' (sp_restore s) env sec scratch (dr_world d) = (st, w)"
    using assms by (auto simp: drill_restore_def Let_def split: prod.splits)
  with assms traced_run [OF r] show ?thesis by (auto simp: drill_restore_def Let_def split: if_splits)
qed

lemma traced_replaced:
  assumes "drill_replaced (traced os) st scratch d = (replaced, d')"
  shows "trace d' = trace d @ (if ds_status st = StatusSucceeded then [CLstat scratch (\<not> replaced)] else [])
    \<and> (good d' \<longleftrightarrow> good d \<and> \<not> replaced) \<and> (ds_status st \<noteq> StatusSucceeded \<longrightarrow> \<not> replaced)"
  using assms by (auto simp: drill_replaced_def traced_def Let_def split: prod.splits if_splits)

text \<open>A check is skipped, or runs in the scratch directory of a restore that succeeded.\<close>

lemma traced_check:
  obtains "trace (drill_check (traced os) env sec scratch restore replaced i c d) = trace d"
      "dr_status (drill_check (traced os) env sec scratch restore replaced i c d) = dr_status d"
      "ds_status restore \<noteq> StatusSucceeded \<or> replaced \<or> os_ended os (fst (dr_world d))"
  | st where "trace (drill_check (traced os) env sec scratch restore replaced i c d) = trace d @ [CRun False c scratch st]"
      "good (drill_check (traced os) env sec scratch restore replaced i c d) \<longleftrightarrow> good d \<and> st = StatusSucceeded"
      "ds_status restore = StatusSucceeded" "\<not> replaced"
proof (cases "ds_status restore \<noteq> StatusSucceeded \<or> replaced \<or> os_ended os (fst (dr_world d))")
  case True
  then show thesis by (intro that(1)) (auto simp: drill_check_def traced_def Let_def split: prod.splits)
next
  case False
  obtain st :: drillStep and w where r: "runDrillStep (traced os) False (''check '' @ dec i) c env sec scratch (dr_world d) = (st, w)" by (meson surj_pair)
  have "\<not> os_ended (traced os) (dr_world d)" using False by (cases "dr_world d") (simp add: traced_def)
  with False r traced_run [OF r] show thesis
    by (intro that(2) [of "ds_status st"]) (auto simp: drill_check_def Let_def)
qed

lemma traced_checks:
  "\<exists>ran. trace (drill_checks (traced os) env sec scratch restore replaced i cs d) = trace d @ map (\<lambda>(c, st). CRun False c scratch st) ran
     \<and> subseq (map fst ran) cs
     \<and> (good (drill_checks (traced os) env sec scratch restore replaced i cs d)
          \<longleftrightarrow> good d \<and> list_all (\<lambda>(c, st). st = StatusSucceeded) ran)
     \<and> (ran \<noteq> [] \<longrightarrow> ds_status restore = StatusSucceeded \<and> \<not> replaced)
     \<and> ((\<forall>w. \<not> os_ended os w) \<and> ds_status restore = StatusSucceeded \<and> \<not> replaced \<longrightarrow> map fst ran = cs)"
proof (induction cs arbitrary: i d)
  case (Cons c cs)
  let ?d = "drill_check (traced os) env sec scratch restore replaced i c d"
  from Cons.IH [of "i + 1" ?d] obtain ran where ran:
    "trace (drill_checks (traced os) env sec scratch restore replaced (i + 1) cs ?d) = trace ?d @ map (\<lambda>(c, st). CRun False c scratch st) ran"
    "subseq (map fst ran) cs"
    "good (drill_checks (traced os) env sec scratch restore replaced (i + 1) cs ?d) \<longleftrightarrow> good ?d \<and> list_all (\<lambda>(c, st). st = StatusSucceeded) ran"
    "ran \<noteq> [] \<longrightarrow> ds_status restore = StatusSucceeded \<and> \<not> replaced"
    "(\<forall>w. \<not> os_ended os w) \<and> ds_status restore = StatusSucceeded \<and> \<not> replaced \<longrightarrow> map fst ran = cs" by blast
  show ?case
  proof (cases rule: traced_check [of os env sec scratch restore replaced i c d])
    case 1
    with ran show ?thesis by (intro exI [of _ ran]) auto
  next
    case (2 st)
    with ran show ?thesis by (intro exI [of _ "(c, st) # ran"]) auto
  qed
qed simp

lemma traced_limit: "trace (drill_limit s restore replaced d) = trace d"
  "good (drill_limit s restore replaced d) \<longleftrightarrow> good d \<and> \<not> (ds_status restore = StatusSucceeded \<and> \<not> replaced
     \<and> seconds (sp_max_duration s) > 0 \<and> ds_took restore > seconds (sp_max_duration s))"
  by (auto simp: drill_limit_def Let_def)

lemma traced_cleanup:
  "\<exists>st. trace (drill_cleanup (traced os) s env sec scratch d)
       = trace d @ (if trim_space (sp_cleanup s) = [] then [] else [CRun True (sp_cleanup s) (os_parent os scratch) st])
     \<and> (good (drill_cleanup (traced os) s env sec scratch d)
          \<longleftrightarrow> good d \<and> (trim_space (sp_cleanup s) = [] \<or> st = StatusSucceeded))"
proof (cases "trim_space (sp_cleanup s) = []")
  case False
  obtain st :: drillStep and w where r: "runDrillStep (traced os) True ''cleanup'' (sp_cleanup s) env sec (os_parent (traced os) scratch) (dr_world d) = (st, w)"
    by (meson surj_pair)
  have "os_parent (traced os) scratch = os_parent os scratch" by (simp add: traced_def)
  with False r traced_run [OF r] show ?thesis
    by (intro exI [of _ "ds_status st"]) (auto simp: drill_cleanup_def Let_def)
qed (simp add: drill_cleanup_def)

text \<open>The directory is removed at once, or after its directories were made writable.\<close>

definition removal :: "string \<Rightarrow> bool \<Rightarrow> os_call list \<Rightarrow> bool" where
  "removal scratch ok calls \<longleftrightarrow>
     calls = [CRemove scratch True] \<and> ok \<or> calls = [CRemove scratch False, CChmod scratch, CRemove scratch ok]"

lemma traced_remove:
  "\<exists>calls ok. trace (drill_remove (traced os) scratch d) = trace d @ calls \<and> removal scratch ok calls
     \<and> (good (drill_remove (traced os) scratch d) \<longleftrightarrow> good d \<and> ok)"
proof -
  obtain w tr where w: "dr_world d = (w, tr)" by force
  obtain e w1 where e: "os_remove os scratch w = (e, w1)" by force
  obtain e' w2 where e': "os_remove os scratch (os_make_writable os scratch w1) = (e', w2)" by force
  show ?thesis
  proof (cases e)
    case None
    with w e show ?thesis
      by (intro exI [of _ "[CRemove scratch True]"] exI [of _ True])
        (simp add: drill_remove_def removeScratch_def traced_def removal_def)
  next
    case (Some x)
    with w e e' show ?thesis
      by (intro exI [of _ "[CRemove scratch False, CChmod scratch, CRemove scratch (e' = None)]"] exI [of _ "e' = None"])
        (cases e'; simp add: drill_remove_def removeScratch_def traced_def removal_def)
  qed
qed

lemma drill_restore_took:
  "drill_restore os s env sec scratch d = (st, d') \<Longrightarrow> ds_took st = sr_took (fst (os_run os False (sp_restore s) env scratch (dr_world d)))"
  by (auto simp: drill_restore_def runDrillStep_def Let_def split: prod.splits)

lemma traced_took: "sr_took (fst (os_run (traced os) cl cmd env dir (w, tr))) = sr_took (fst (os_run os cl cmd env dir w))"
  by (simp add: traced_def split: prod.splits)

text \<open>The calls of a drill in its scratch directory and the verdict on them.\<close>

definition drill_calls :: "'w os \<Rightarrow> spec \<Rightarrow> string \<Rightarrow> duration \<Rightarrow> os_call list \<Rightarrow> bool \<Rightarrow> bool" where
  "drill_calls os s scratch took calls verdict \<longleftrightarrow>
     (\<exists>restore intact checks cleanup removed rem.
        calls = CRun False (sp_restore s) scratch restore
          # (if restore = StatusSucceeded then [CLstat scratch intact] else [])
          @ map (\<lambda>(c, st). CRun False c scratch st) checks
          @ (if trim_space (sp_cleanup s) = [] then [] else [CRun True (sp_cleanup s) (os_parent os scratch) cleanup]) @ rem
        \<and> removal scratch removed rem
        \<and> subseq (map fst checks) (sp_checks s)
        \<and> (checks \<noteq> [] \<longrightarrow> restore = StatusSucceeded \<and> intact)
        \<and> ((\<forall>w. \<not> os_ended os w) \<and> restore = StatusSucceeded \<and> intact \<longrightarrow> map fst checks = sp_checks s)
        \<and> (verdict \<longleftrightarrow>
             restore = StatusSucceeded \<and> intact \<and> list_all (\<lambda>(c, st). st = StatusSucceeded) checks
             \<and> \<not> (seconds (sp_max_duration s) > 0 \<and> took > seconds (sp_max_duration s))
             \<and> (trim_space (sp_cleanup s) = [] \<or> cleanup = StatusSucceeded) \<and> removed))"

lemma drill_in_calls:
  assumes "drill_in (traced os) s env sec scratch (w, tr) = (restore, d)"
  shows "\<exists>calls. trace d = tr @ calls
    \<and> drill_calls os s scratch (sr_took (fst (os_run os False (sp_restore s) (drill_env env scratch) scratch w))) calls (good d)"
proof -
  let ?env = "drill_env env scratch"
  let ?d0 = "\<lparr>dr_report = empty_report, dr_status = StatusSucceeded, dr_exit = 0, dr_steps = [], dr_passed = 0, dr_world = (w, tr)\<rparr>"
  obtain d1 where 1: "drill_restore (traced os) s ?env sec scratch ?d0 = (restore, d1)"
    using assms by (auto simp: drill_in_def Let_def split: prod.splits)
  obtain replaced d2 where 2: "drill_replaced (traced os) restore scratch d1 = (replaced, d2)" by force
  define d3 where "d3 = drill_checks (traced os) ?env sec scratch restore replaced 1 (sp_checks s) d2"
  define d4 where "d4 = drill_limit s restore replaced d3"
  define d5 where "d5 = drill_cleanup (traced os) s ?env sec scratch d4"
  have d: "d = drill_remove (traced os) scratch d5"
    using assms 1 2 by (simp add: drill_in_def Let_def d3_def d4_def d5_def)
  have took: "ds_took restore = sr_took (fst (os_run os False (sp_restore s) ?env scratch w))"
    using drill_restore_took [OF 1] by (simp add: traced_took)
  note r = traced_restore [OF 1] and p = traced_replaced [OF 2]
  obtain checks where c: "trace d3 = trace d2 @ map (\<lambda>(c, st). CRun False c scratch st) checks" "subseq (map fst checks) (sp_checks s)"
    "good d3 \<longleftrightarrow> good d2 \<and> list_all (\<lambda>(c, st). st = StatusSucceeded) checks"
    "checks \<noteq> [] \<longrightarrow> ds_status restore = StatusSucceeded \<and> \<not> replaced"
    "(\<forall>w. \<not> os_ended os w) \<and> ds_status restore = StatusSucceeded \<and> \<not> replaced \<longrightarrow> map fst checks = sp_checks s"
    using traced_checks [of os ?env sec scratch restore replaced 1 "sp_checks s" d2] unfolding d3_def by blast
  obtain cl where cl: "trace d5 = trace d4 @ (if trim_space (sp_cleanup s) = [] then [] else [CRun True (sp_cleanup s) (os_parent os scratch) cl])"
    "good d5 \<longleftrightarrow> good d4 \<and> (trim_space (sp_cleanup s) = [] \<or> cl = StatusSucceeded)"
    using traced_cleanup [of os s ?env sec scratch d4] unfolding d5_def by blast
  obtain rem ok where rm: "trace d = trace d5 @ rem" "removal scratch ok rem" "good d \<longleftrightarrow> good d5 \<and> ok"
    using traced_remove [of os scratch d5] unfolding d by blast
  let ?calls = "CRun False (sp_restore s) scratch (ds_status restore)
      # (if ds_status restore = StatusSucceeded then [CLstat scratch (\<not> replaced)] else [])
      @ map (\<lambda>(c, st). CRun False c scratch st) checks
      @ (if trim_space (sp_cleanup s) = [] then [] else [CRun True (sp_cleanup s) (os_parent os scratch) cl]) @ rem"
  note l = traced_limit [of s restore replaced d3, folded d4_def]
  have "trace d = tr @ ?calls" using r p c(1) cl(1) rm(1) l(1) by simp
  moreover have "good d \<longleftrightarrow> ds_status restore = StatusSucceeded \<and> \<not> replaced
      \<and> list_all (\<lambda>(c, st). st = StatusSucceeded) checks
      \<and> \<not> (seconds (sp_max_duration s) > 0 \<and> ds_took restore > seconds (sp_max_duration s))
      \<and> (trim_space (sp_cleanup s) = [] \<or> cl = StatusSucceeded) \<and> ok"
    unfolding rm(3) cl(2) l(2) c(3) using r p by auto
  ultimately show ?thesis
    unfolding drill_calls_def took [symmetric] using c(2,4,5) rm(2) by blast
qed


text \<open>A system on which every command succeeds, and one on which the context ends after the restore.\<close>

definition calm_os :: "bool \<Rightarrow> unit os" where
  "calm_os ended =
     \<lparr>os_mkdir = (\<lambda>dir w. (Inr (dir @ ''/tend_drill_1''), w)),
      os_run = (\<lambda>cl cmd env dir w. (\<lparr>sr_written = [''done''], sr_took = 2 * second, sr_deadline = False, sr_err = None\<rparr>, w)),
      os_is_dir = (\<lambda>p w. (True, w)), os_ended = (\<lambda>w. ended), os_expired = (\<lambda>w. ended),
      os_remove = (\<lambda>p w. (None, w)), os_make_writable = (\<lambda>p w. w), os_parent = (\<lambda>p. ''/tmp'')\<rparr>"

definition sample_drill :: spec where
  "sample_drill = zero_spec\<lparr>sp_restore := ''pg_restore'', sp_checks := [''psql -c 1''], sp_cleanup := ''dropdb x'', sp_scratch_dir := ''/tmp''\<rparr>"


section \<open>Checks that never ran\<close>

lemma checks_after_the_end:
  assumes "\<forall>w. os_ended os w"
  shows "trace (drill_checks (traced os) env sec scratch restore replaced i cs d) = trace d
    \<and> dr_status (drill_checks (traced os) env sec scratch restore replaced i cs d) = dr_status d
    \<and> rep_problems (dr_report (drill_checks (traced os) env sec scratch restore replaced i cs d)) = rep_problems (dr_report d)
    \<and> fst (dr_world (drill_checks (traced os) env sec scratch restore replaced i cs d)) = fst (dr_world d)"
proof (induction cs arbitrary: i d)
  case (Cons c cs)
  have "os_ended (traced os) w" for w using assms by (cases w) (simp add: traced_def)
  then have "\<exists>v. drill_check (traced os) env sec scratch restore replaced i c d = remark (''check '' @ dec i) v d"
    by (cases "ds_status restore \<noteq> StatusSucceeded"; cases replaced) (auto simp: drill_check_def Let_def)
  then obtain v where v: "drill_check (traced os) env sec scratch restore replaced i c d = remark (''check '' @ dec i) v d" ..
  show ?case using Cons.IH [of "i + 1" "remark (''check '' @ dec i) v d"] by (simp add: v) (simp add: remark_def)
qed simp

lemma has_prefix_trim_right:
  assumes "p \<noteq> []" "last p \<notin> set cs"
  shows "has_prefix (trim_right cs (p @ rest)) p"
proof -
  let ?d = "dropWhile (\<lambda>c. c \<in> set cs)"
  have p: "?d (rev p) = rev p" using assms by (cases p rule: rev_cases) simp_all
  have "?d (rev rest @ rev p) = ?d (rev rest) @ rev p" if "?d (rev rest) \<noteq> []"
    using that by (meson dropWhile_append1 dropWhile_eq_Nil_conv)
  moreover have "?d (rev rest @ rev p) = rev p" if "?d (rev rest) = []"
    using that p by (subst dropWhile_append2) auto
  ultimately have "\<exists>r. ?d (rev rest @ rev p) = r @ rev p" by (cases "?d (rev rest) = []") auto
  then show ?thesis by (auto simp: trim_right_def has_prefix_def)
qed

abbreviation drill_start :: "'w \<Rightarrow> 'w drill" where
  "drill_start w \<equiv> \<lparr>dr_report = empty_report, dr_status = StatusSucceeded, dr_exit = 0, dr_steps = [], dr_passed = 0, dr_world = w\<rparr>"

lemma restored_in_place:
  assumes "os_run os False (sp_restore s) env scratch w1 = (sr, w2)" "run_outcome sr = StatusSucceeded" "os_is_dir os scratch w2 = (True, w3)"
  obtains st d1 d2 where "drill_restore (traced os) s env secrets scratch (drill_start (w1, tr)) = (st, d1)"
    "drill_replaced (traced os) st scratch d1 = (False, d2)" "ds_took st = sr_took sr" "dr_status d2 = StatusSucceeded"
    "rep_problems (dr_report d2) = []"
    "dr_world d2 = (w3, tr @ [CRun False (sp_restore s) scratch StatusSucceeded, CLstat scratch True])"
proof -
  obtain st d1 where r: "drill_restore (traced os) s env secrets scratch (drill_start (w1, tr)) = (st, d1)" by (meson surj_pair)
  then have 1: "ds_status st = StatusSucceeded" "ds_took st = sr_took sr" "dr_status d1 = StatusSucceeded" "rep_problems (dr_report d1) = []"
    "dr_world d1 = (w2, tr @ [CRun False (sp_restore s) scratch StatusSucceeded])"
    using assms(1,2) by (auto simp: drill_restore_def runDrillStep_def traced_def ran_def remark_def Let_def split: prod.splits)
  show thesis
    by (rule that [OF r, of "d1\<lparr>dr_world := (w3, tr @ [CRun False (sp_restore s) scratch StatusSucceeded, CLstat scratch True])\<rparr>"])
      (use 1 assms(3) in \<open>simp_all add: drill_replaced_def traced_def\<close>)
qed

lemma verdict_prefix:
  assumes "rep_problems (dr_report d) = []" "length (sp_checks s) = 1"
  shows "has_prefix (drill_output s st d) (''ok: restored in '' @ durationText (ds_took st) @ '', 1 check passed'')"
proof -
  let ?p = "''ok: restored in '' @ durationText (ds_took st) @ '', 1 check passed''"
  have "\<exists>rest. drill_verdict s st d = ?p @ rest" using assms by (simp add: drill_verdict_def)
  then obtain rest where "drill_output s st d = trim_right [newline] (?p @ rest)" by (auto simp: drill_output_def)
  with has_prefix_trim_right [of ?p "[newline]" rest] show ?thesis by (simp add: newline_def)
qed



end
