(* ===== verification/Store_Tx.thy ===== *)
theory Store_Tx
  imports Heartbeat_Model Notify_Pacing "HOL-Library.Option_ord"
begin

text \<open>
  The database and its transactions (\<^verbatim>\<open>internal/store\<close>).

  A database is a record of tables; a table is the list of its rows in the order they were
  inserted, with the next row id beside it (ids are never used again). NULL is \<^const>\<open>None\<close>.
  Stored timestamps are fixed-width UTC text, whose order is the order of the instants they
  stand for, so a stored timestamp is the instant.

  A store operation is a function of the database and of the world: the faults that the
  statements still to come meet, the clock, and the JSON decoder for plain texts. A
  statement that meets a fault returns an error and changes nothing. A commit can also
  fail after it took effect, in which case the caller sees an error although everything was
  written. A transaction that returns an error, or that the code leaves without
  committing, leaves the database as it found it.
\<close>

section \<open>Tables\<close>

record job_row =
  jr_job :: job             \<comment> \<open>the columns a job is read from and written to\<close>
  jr_failed_runs :: int
  jr_failing_since :: "gotime option"
  jr_unreadable :: bool     \<comment> \<open>a column that is decoded holds something that does not decode\<close>

record run_row =
  rw_id :: int
  rw_org :: int
  rw_job :: int
  rw_status :: run_status
  rw_attempt :: int
  rw_exit :: int
  rw_output :: string
  rw_claimed_by :: "string option"
  rw_started :: "gotime option"
  rw_ended :: "gotime option"
  rw_created :: gotime

datatype delivery_state = DeliveryPending | DeliveryDelivered | DeliveryFailed

record delivery =
  dl_id :: int
  dl_org :: int
  dl_event :: int
  dl_channel :: int
  dl_attempts :: int
  dl_state :: delivery_state
  dl_next :: gotime
  dl_created :: gotime
  dl_first :: "gotime option"

record channel =
  ch_id :: int
  ch_org :: int
  ch_name :: string
  ch_kind :: channel_kind
  ch_config :: "string option"
  ch_created :: gotime

record rule =
  ru_id :: int
  ru_org :: int
  ru_channel :: int
  ru_event :: event_type
  ru_job :: int
  ru_enabled :: bool
  ru_repeat :: "int option"   \<comment> \<open>seconds\<close>
  ru_created :: gotime

record alert_row =
  al_org :: int
  al_channel :: int
  al_job :: int
  al_last_sent :: "gotime option"
  al_held :: "int option"

record hb_row =
  hr_id :: int
  hr_org :: int
  hr_name :: string
  hr_token :: string
  hr_last_seen :: "gotime option"
  hr_period :: int
  hr_grace :: int
  hr_status :: hb_status
  hr_created :: gotime
  hr_started :: "gotime option"
  hr_rid :: string

record ping_row =
  pw_id :: int
  pw_org :: int
  pw_hb :: int
  pw_kind :: ping_kind
  pw_exit :: "int option"
  pw_rid :: string
  pw_duration :: "int option"
  pw_body :: string
  pw_created :: gotime
  pw_bytes :: int

text \<open>The tables of organisations, users and credentials, kept together in one field.\<close>

record org_row =
  og_id :: int
  og_name :: string
  og_created :: gotime
  og_ping_key :: "string option"

record user_row =
  us_id :: int
  us_org :: int
  us_email :: string
  us_hash :: "string option"
  us_created :: gotime

record membership =
  me_id :: int
  me_org :: int
  me_user :: int
  me_role :: string
  me_created :: gotime

record api_token =
  at_id :: int
  at_org :: int
  at_name :: string
  at_hash :: string
  at_created :: gotime

record secret_row =
  se_org :: int
  se_name :: string
  se_ciphertext :: string
  se_created :: gotime
  se_updated :: gotime

record accounts =
  t_orgs :: "org_row list"
  t_users :: "user_row list"
  t_members :: "membership list"
  t_tokens :: "api_token list"
  t_secrets :: "secret_row list"
  n_orgs :: int
  n_users :: int
  n_members :: int
  n_tokens :: int

record db =
  t_accounts :: accounts
  t_jobs :: "job_row list"
  t_runs :: "run_row list"
  t_events :: "event list"
  t_deliveries :: "delivery list"
  t_channels :: "channel list"
  t_rules :: "rule list"
  t_alerts :: "alert_row list"
  t_hbs :: "hb_row list"
  t_pings :: "ping_row list"
  n_jobs :: int
  n_runs :: int
  n_events :: int
  n_deliveries :: int
  n_channels :: int
  n_rules :: int
  n_hbs :: int
  n_pings :: int

definition empty_accounts :: accounts where
  "empty_accounts = \<lparr>t_orgs = [], t_users = [], t_members = [], t_tokens = [], t_secrets = [],
     n_orgs = 1, n_users = 1, n_members = 1, n_tokens = 1\<rparr>"

definition empty_db :: db where
  "empty_db = \<lparr>t_accounts = empty_accounts, t_jobs = [], t_runs = [], t_events = [], t_deliveries = [], t_channels = [], t_rules = [],
     t_alerts = [], t_hbs = [], t_pings = [], n_jobs = 1, n_runs = 1, n_events = 1, n_deliveries = 1,
     n_channels = 1, n_rules = 1, n_hbs = 1, n_pings = 1\<rparr>"

section \<open>Operations on a database\<close>

datatype store_error =
    ErrNotFound | ErrRunGone | ErrRunNotRunning | ErrUnreadable int | ErrInput string | DbError

datatype fault = NoFault | Fault | LateFault

record world =
  w_faults :: "fault list"
  w_clock :: gotime
  w_steps :: "nat list"
  w_cancelled :: "bool list"
  w_json :: json_reader

type_synonym 'a tx = "db \<Rightarrow> world \<Rightarrow> (store_error + 'a) \<times> db \<times> world"

definition ret :: "'a \<Rightarrow> 'a tx" where
  "ret a d w = (Inr a, d, w)"

definition throw :: "store_error \<Rightarrow> 'a tx" where
  "throw e d w = (Inl e, d, w)"

definition bnd :: "'a tx \<Rightarrow> ('a \<Rightarrow> 'b tx) \<Rightarrow> 'b tx" where
  "bnd m f d w =
     (case m d w of
        (Inl e, d', w') \<Rightarrow> (Inl e, d', w')
      | (Inr a, d', w') \<Rightarrow> f a d' w')"

definition next_fault :: "world \<Rightarrow> fault \<times> world" where
  "next_fault w =
     (case w_faults w of
        [] \<Rightarrow> (NoFault, w)
      | f # fs \<Rightarrow> (f, w\<lparr>w_faults := fs\<rparr>))"

text \<open>A statement, a query that reads, one that writes, the clock and the JSON decoder.\<close>

definition stmt :: "(db \<Rightarrow> 'a \<times> db) \<Rightarrow> 'a tx" where
  "stmt f d w =
     (case next_fault w of
        (NoFault, w') \<Rightarrow> (let (a, d') = f d in (Inr a, d', w'))
      | (_, w') \<Rightarrow> (Inl DbError, d, w'))"

definition query :: "(db \<Rightarrow> 'a) \<Rightarrow> 'a tx" where
  "query f = stmt (\<lambda>d. (f d, d))"

definition exec_stmt :: "(db \<Rightarrow> db) \<Rightarrow> unit tx" where
  "exec_stmt f = stmt (\<lambda>d. ((), f d))"

definition time_now :: "gotime tx" where
  "time_now d w =
     (case w_steps w of
        [] \<Rightarrow> (Inr (w_clock w), d, w)
      | s # ss \<Rightarrow> (Inr (w_clock w + int s), d, w\<lparr>w_clock := w_clock w + int s, w_steps := ss\<rparr>))"

definition get_json :: "json_reader tx" where
  "get_json d w = (Inr (w_json w), d, w)"

text \<open>Whether the context was cancelled when the code asks.\<close>

definition ctx_err :: "bool tx" where
  "ctx_err d w =
     (case w_cancelled w of
        [] \<Rightarrow> (Inr False, d, w)
      | c # cs \<Rightarrow> (Inr c, d, w\<lparr>w_cancelled := cs\<rparr>))"

text \<open>The result of an operation as a value, for a caller that goes on after an error.\<close>

definition attempt :: "'a tx \<Rightarrow> (store_error + 'a) tx" where
  "attempt m d w = (case m d w of (r, d', w') \<Rightarrow> (Inr r, d', w'))"

text \<open>How the code leaves a transaction: with a commit, or by the deferred rollback.\<close>

datatype 'a outcome = Commit 'a | Rollback 'a

definition transact :: "'a outcome tx \<Rightarrow> 'a tx" where
  "transact m d w =
     (case next_fault w of
        (NoFault, w0) \<Rightarrow>
          (case m d w0 of
             (Inl e, _, w1) \<Rightarrow> (Inl e, d, w1)
           | (Inr (Rollback a), _, w1) \<Rightarrow> (Inr a, d, w1)
           | (Inr (Commit a), d1, w1) \<Rightarrow>
               (case next_fault w1 of
                  (NoFault, w2) \<Rightarrow> (Inr a, d1, w2)
                | (Fault, w2) \<Rightarrow> (Inl DbError, d, w2)
                | (LateFault, w2) \<Rightarrow> (Inl DbError, d1, w2)))
      | (_, w0) \<Rightarrow> (Inl DbError, d, w0))"

text \<open>A statement outside a transaction commits by itself, so its error can come late too.\<close>

definition auto_stmt :: "(db \<Rightarrow> 'a \<times> db) \<Rightarrow> 'a tx" where
  "auto_stmt f d w =
     (case next_fault w of
        (NoFault, w') \<Rightarrow> (let (a, d') = f d in (Inr a, d', w'))
      | (Fault, w') \<Rightarrow> (Inl DbError, d, w')
      | (LateFault, w') \<Rightarrow> (Inl DbError, snd (f d), w'))"

fun for_each :: "'a list \<Rightarrow> ('a \<Rightarrow> unit tx) \<Rightarrow> unit tx" where
  "for_each [] f = ret ()"
| "for_each (x # xs) f = bnd (f x) (\<lambda>_. for_each xs f)"

section \<open>Reasoning about operations\<close>

text \<open>
  An operation keeps an invariant when it does so however it ends, and it satisfies a
  triple when every successful execution ends in its postcondition.
\<close>

definition keeps :: "(db \<Rightarrow> bool) \<Rightarrow> 'a tx \<Rightarrow> bool" where
  "keeps I m \<longleftrightarrow> (\<forall>d w. I d \<longrightarrow> I (fst (snd (m d w))))"

definition triple :: "(db \<Rightarrow> bool) \<Rightarrow> 'a tx \<Rightarrow> ('a \<Rightarrow> db \<Rightarrow> bool) \<Rightarrow> bool" where
  "triple P m Q \<longleftrightarrow> (\<forall>d w a d' w'. P d \<longrightarrow> m d w = (Inr a, d', w') \<longrightarrow> Q a d')"

named_theorems tx_rules \<open>introduction rules for \<open>keeps\<close> and \<open>triple\<close>\<close>

lemma keepsD: "keeps I m \<Longrightarrow> I d \<Longrightarrow> m d w = (r, d', w') \<Longrightarrow> I d'"
  by (metis keeps_def fst_conv snd_conv)

lemma tripleD: "triple P m Q \<Longrightarrow> P d \<Longrightarrow> m d w = (Inr a, d', w') \<Longrightarrow> Q a d'"
  unfolding triple_def by blast

lemma tripleI: "(\<And>d w a d' w'. P d \<Longrightarrow> m d w = (Inr a, d', w') \<Longrightarrow> Q a d') \<Longrightarrow> triple P m Q"
  unfolding triple_def by blast

lemma keeps_ret [tx_rules]: "keeps I (ret a)"
  by (simp add: keeps_def ret_def)

lemma keeps_throw [tx_rules]: "keeps I (throw e)"
  by (simp add: keeps_def throw_def)

lemma keeps_bnd [tx_rules]:
  "keeps I m \<Longrightarrow> (\<And>a. keeps I (f a)) \<Longrightarrow> keeps I (bnd m f)"
proof (unfold keeps_def, intro allI impI)
  fix d w
  assume m: "\<forall>d w. I d \<longrightarrow> I (fst (snd (m d w)))" and f: "\<And>a. \<forall>d w. I d \<longrightarrow> I (fst (snd (f a d w)))"
    and "I d"
  obtain r d1 w1 where 1: "m d w = (r, d1, w1)" using prod_cases3 by blast
  with m \<open>I d\<close> have "I d1" by (metis fst_conv snd_conv)
  with 1 f show "I (fst (snd (bnd m f d w)))" by (cases r) (simp_all add: bnd_def)
qed

lemma keeps_stmt: "(\<And>d. I d \<Longrightarrow> I (snd (f d))) \<Longrightarrow> keeps I (stmt f)"
  unfolding keeps_def stmt_def by (auto simp: case_prod_beta Let_def split: fault.split)

lemma keeps_query [tx_rules]: "keeps I (query f)"
  unfolding query_def by (rule keeps_stmt) simp

lemma keeps_exec [tx_rules]: "(\<And>d. I d \<Longrightarrow> I (f d)) \<Longrightarrow> keeps I (exec_stmt f)"
  unfolding exec_stmt_def by (rule keeps_stmt) simp

lemma keeps_time_now [tx_rules]: "keeps I time_now"
  by (simp add: keeps_def time_now_def split: list.splits)

lemma keeps_get_json [tx_rules]: "keeps I get_json"
  by (simp add: keeps_def get_json_def)

lemma keeps_ctx_err [tx_rules]: "keeps I ctx_err"
  by (simp add: keeps_def ctx_err_def split: list.splits)

lemma keeps_attempt [tx_rules]: "keeps I m \<Longrightarrow> keeps I (attempt m)"
  by (simp add: keeps_def attempt_def split: prod.splits) (metis fst_conv snd_conv)

lemma keeps_if [tx_rules]: "(c \<Longrightarrow> keeps I a) \<Longrightarrow> (\<not> c \<Longrightarrow> keeps I b) \<Longrightarrow> keeps I (if c then a else b)"
  by simp

lemma keeps_case_option [tx_rules]:
  "(x = None \<Longrightarrow> keeps I a) \<Longrightarrow> (\<And>y. x = Some y \<Longrightarrow> keeps I (b y)) \<Longrightarrow> keeps I (case x of None \<Rightarrow> a | Some y \<Rightarrow> b y)"
  by (cases x) simp_all

lemma keeps_case_sum [tx_rules]:
  "(\<And>y. x = Inl y \<Longrightarrow> keeps I (a y)) \<Longrightarrow> (\<And>y. x = Inr y \<Longrightarrow> keeps I (b y)) \<Longrightarrow>
   keeps I (case x of Inl y \<Rightarrow> a y | Inr y \<Rightarrow> b y)"
  by (cases x) simp_all

lemma keeps_case_prod [tx_rules]:
  "(\<And>y z. x = (y, z) \<Longrightarrow> keeps I (a y z)) \<Longrightarrow> keeps I (case x of (y, z) \<Rightarrow> a y z)"
  by (cases x) simp_all

lemma keeps_for_each [tx_rules]: "(\<And>x. x \<in> set xs \<Longrightarrow> keeps I (f x)) \<Longrightarrow> keeps I (for_each xs f)"
  by (induction xs) (auto intro: tx_rules)

lemma keeps_auto_stmt: "(\<And>d. I d \<Longrightarrow> I (snd (f d))) \<Longrightarrow> keeps I (auto_stmt f)"
  unfolding keeps_def auto_stmt_def by (auto simp: case_prod_beta Let_def split: fault.split)

text \<open>
  What a transaction leaves behind: the database it found, or the one its body committed.
\<close>

lemma transact_all_or_nothing:
  assumes "transact m d w = (r, d', w')"
  shows "d' = d \<or> (\<exists>w0 a w1. m d w0 = (Inr (Commit a), d', w1) \<and> (r = Inr a \<or> r = Inl DbError))"
  using assms unfolding transact_def
  by (auto split: prod.splits sum.splits fault.splits outcome.splits)

lemma transact_success:
  assumes "transact m d w = (Inr a, d', w')"
  shows "(\<exists>w0 w1. m d w0 = (Inr (Commit a), d', w1))
    \<or> d' = d \<and> (\<exists>w0 d1 w1. m d w0 = (Inr (Rollback a), d1, w1))"
  using assms unfolding transact_def
  by (auto split: prod.splits sum.splits fault.splits outcome.splits)

lemma keeps_transact [tx_rules]:
  assumes "triple I m (\<lambda>r d. case r of Commit _ \<Rightarrow> I d | Rollback _ \<Rightarrow> True)"
  shows "keeps I (transact m)"
  unfolding keeps_def
proof (intro allI impI)
  fix d w assume "I d"
  obtain r d' w' where t: "transact m d w = (r, d', w')" using prod_cases3 by blast
  from transact_all_or_nothing [OF t] \<open>I d\<close> tripleD [OF assms \<open>I d\<close>]
  show "I (fst (snd (transact m d w)))" by (fastforce simp: t)
qed

lemma triple_keeps: "keeps I m \<Longrightarrow> triple I m (\<lambda>_. I)"
  by (rule tripleI) (rule keepsD)


lemma keeps_transact_body: "keeps I m \<Longrightarrow> keeps I (transact m)"
proof (rule keeps_transact)
  assume "keeps I m"
  then show "triple I m (\<lambda>r d. case r of Commit _ \<Rightarrow> I d | Rollback _ \<Rightarrow> True)"
    by (intro tripleI) (auto split: outcome.split dest: keepsD)
qed

lemma triple_bnd:
  assumes "triple P m R" "\<And>a. triple (R a) (f a) Q"
  shows "triple P (bnd m f) Q"
  unfolding triple_def
proof (intro allI impI)
  fix d w b d' w'
  assume "P d" "bnd m f d w = (Inr b, d', w')"
  then obtain a d1 w1 where "m d w = (Inr a, d1, w1)" "f a d1 w1 = (Inr b, d', w')"
    by (auto simp: bnd_def split: prod.splits sum.splits)
  with \<open>P d\<close> assms show "Q b d'" by (meson tripleD)
qed

lemma triple_ret: "(\<And>d. P d \<Longrightarrow> Q a d) \<Longrightarrow> triple P (ret a) Q"
  by (simp add: triple_def ret_def)

lemma triple_throw: "triple P (throw e) Q"
  by (simp add: triple_def throw_def)

lemma triple_stmt: "(\<And>d. P d \<Longrightarrow> Q (fst (f d)) (snd (f d))) \<Longrightarrow> triple P (stmt f) Q"
  by (rule tripleI) (auto simp: stmt_def case_prod_beta Let_def split: fault.splits)

lemma triple_query: "(\<And>d. P d \<Longrightarrow> Q (f d) d) \<Longrightarrow> triple P (query f) Q"
  unfolding query_def by (rule triple_stmt) simp

lemma triple_exec: "(\<And>d. P d \<Longrightarrow> Q () (f d)) \<Longrightarrow> triple P (exec_stmt f) Q"
  unfolding exec_stmt_def by (rule triple_stmt) simp

lemma triple_time_now: "(\<And>d t. P d \<Longrightarrow> Q t d) \<Longrightarrow> triple P time_now Q"
  by (auto simp: triple_def time_now_def split: list.splits)

lemma triple_get_json: "(\<And>d j. P d \<Longrightarrow> Q j d) \<Longrightarrow> triple P get_json Q"
  by (auto simp: triple_def get_json_def)

lemma triple_conseq:
  "triple P m R \<Longrightarrow> (\<And>d. P' d \<Longrightarrow> P d) \<Longrightarrow> (\<And>a d. R a d \<Longrightarrow> Q a d) \<Longrightarrow> triple P' m Q"
  unfolding triple_def by blast

lemma triple_for_each:
  "(\<And>x. x \<in> set xs \<Longrightarrow> triple I (f x) (\<lambda>_. I)) \<Longrightarrow> triple I (for_each xs f) (\<lambda>_. I)"
  by (induction xs) (auto intro: triple_bnd triple_ret)

lemma triple_conj:
  "triple P m Q \<Longrightarrow> triple P' m Q' \<Longrightarrow> triple (\<lambda>d. P d \<and> P' d) m (\<lambda>a d. Q a d \<and> Q' a d)"
  by (rule tripleI) (meson tripleD)

lemma triple_frame: "keeps I m \<Longrightarrow> triple P m Q \<Longrightarrow> triple (\<lambda>d. I d \<and> P d) m (\<lambda>a d. I d \<and> Q a d)"
  using triple_keeps triple_conj by blast

end
