(* ===== verification/Store_Accounts.thy ===== *)
theory Store_Accounts
  imports Store_Tx "HOL-Library.Char_ord" "HOL-Library.List_Lexorder"
begin

text \<open>
  Organisations, their ping keys, users, memberships, API tokens and secrets
  (\<^verbatim>\<open>internal/store/sqlite.go\<close>, \<^verbatim>\<open>pings.go\<close>): what is stored, how it is found
  again, and that a credential leads to one organisation only.
\<close>

section \<open>Writing and reading the account tables\<close>

definition upd_accounts :: "(accounts \<Rightarrow> 'a \<times> accounts) \<Rightarrow> 'a tx" where
  "upd_accounts f = auto_stmt (\<lambda>d. let (a, x) = f (t_accounts d) in (a, d\<lparr>t_accounts := x\<rparr>))"

definition get_accounts :: "(accounts \<Rightarrow> 'a) \<Rightarrow> 'a tx" where
  "get_accounts f = query (\<lambda>d. f (t_accounts d))"

text \<open>A row that is missing is \<^verbatim>\<open>ErrNotFound\<close>; a violated constraint is an error of the database.\<close>

definition or_not_found :: "'a option \<Rightarrow> 'a tx" where
  "or_not_found r = (case r of None \<Rightarrow> throw ErrNotFound | Some a \<Rightarrow> ret a)"

definition or_db_error :: "'a option \<Rightarrow> 'a tx" where
  "or_db_error r = (case r of None \<Rightarrow> throw DbError | Some a \<Rightarrow> ret a)"

section \<open>Organisations\<close>

definition BootstrapDefaultOrg :: "(int \<times> string \<times> gotime) tx" where
  "BootstrapDefaultOrg =
     bnd time_now (\<lambda>now.
     bnd (upd_accounts (\<lambda>a.
       if list_ex (\<lambda>o1. og_name o1 = ''default'') (t_orgs a) then ((), a)
       else ((), a\<lparr>t_orgs := t_orgs a @
                 [\<lparr>og_id = n_orgs a, og_name = ''default'', og_created = now, og_ping_key = None\<rparr>],
               n_orgs := n_orgs a + 1\<rparr>))) (\<lambda>_.
     bnd (get_accounts (\<lambda>a. List.find (\<lambda>o1. og_name o1 = ''default'') (t_orgs a))) (\<lambda>row.
     bnd (or_db_error row) (\<lambda>o1. ret (og_id o1, og_name o1, og_created o1)))))"

text \<open>The key column is unique, so a key that another organisation has is refused.\<close>

definition key_of :: "string \<Rightarrow> string option" where
  "key_of key = (if key = [] then None else Some key)"

definition key_taken :: "int \<Rightarrow> string \<Rightarrow> accounts \<Rightarrow> bool" where
  "key_taken orgID key a \<longleftrightarrow>
     key \<noteq> [] \<and> list_ex (\<lambda>o1. og_id o1 \<noteq> orgID \<and> og_ping_key o1 = Some key) (t_orgs a)"

definition setOrgPingKey :: "int \<Rightarrow> string \<Rightarrow> unit tx" where
  "setOrgPingKey orgID key =
     bnd (upd_accounts (\<lambda>a.
       if \<not> list_ex (\<lambda>o1. og_id o1 = orgID) (t_orgs a) then (Inl ErrNotFound, a)
       else if key_taken orgID key a then (Inl DbError, a)
       else (Inr (), a\<lparr>t_orgs := map (\<lambda>o1. if og_id o1 = orgID then o1\<lparr>og_ping_key := key_of key\<rparr> else o1) (t_orgs a)\<rparr>)))
     (\<lambda>r. case r of Inl e \<Rightarrow> throw e | Inr _ \<Rightarrow> ret ())"

definition getOrgPingKey :: "int \<Rightarrow> string tx" where
  "getOrgPingKey orgID =
     bnd (get_accounts (\<lambda>a. List.find (\<lambda>o1. og_id o1 = orgID) (t_orgs a))) (\<lambda>row.
     bnd (or_not_found row) (\<lambda>o1. ret (case og_ping_key o1 of None \<Rightarrow> [] | Some k \<Rightarrow> k)))"

definition orgByPingKey :: "string \<Rightarrow> int tx" where
  "orgByPingKey key =
     (if key = [] then throw ErrNotFound
      else
        bnd (get_accounts (\<lambda>a. List.find (\<lambda>o1. og_ping_key o1 = Some key) (t_orgs a))) (\<lambda>row.
        bnd (or_not_found row) (\<lambda>o1. ret (og_id o1))))"

section \<open>Users and memberships\<close>

definition CreateUser :: "int \<Rightarrow> string \<Rightarrow> string \<Rightarrow> int tx" where
  "CreateUser orgID email hash =
     bnd time_now (\<lambda>now.
     bnd (upd_accounts (\<lambda>a.
       if list_ex (\<lambda>u. us_org u = orgID \<and> us_email u = email) (t_users a) then (None, a)
       else (Some (n_users a),
             a\<lparr>t_users := t_users a @
                 [\<lparr>us_id = n_users a, us_org = orgID, us_email = email,
                   us_hash = (if hash = [] then None else Some hash), us_created = now\<rparr>],
               n_users := n_users a + 1\<rparr>))) or_db_error)"

definition GetUserByEmail :: "int \<Rightarrow> string \<Rightarrow> user_row tx" where
  "GetUserByEmail orgID email =
     bnd (get_accounts (\<lambda>a. List.find (\<lambda>u. us_org u = orgID \<and> us_email u = email) (t_users a))) or_not_found"

definition GetUserByID :: "int \<Rightarrow> int \<Rightarrow> user_row tx" where
  "GetUserByID orgID i =
     bnd (get_accounts (\<lambda>a. List.find (\<lambda>u. us_org u = orgID \<and> us_id u = i) (t_users a))) or_not_found"

definition CreateMembership :: "int \<Rightarrow> int \<Rightarrow> string \<Rightarrow> int tx" where
  "CreateMembership orgID userID role =
     bnd time_now (\<lambda>now.
     bnd (upd_accounts (\<lambda>a.
       if list_ex (\<lambda>m. me_org m = orgID \<and> me_user m = userID) (t_members a) then (None, a)
       else (Some (n_members a),
             a\<lparr>t_members := t_members a @
                 [\<lparr>me_id = n_members a, me_org = orgID, me_user = userID, me_role = role, me_created = now\<rparr>],
               n_members := n_members a + 1\<rparr>))) or_db_error)"

definition GetMembership :: "int \<Rightarrow> int \<Rightarrow> membership tx" where
  "GetMembership orgID userID =
     bnd (get_accounts (\<lambda>a. List.find (\<lambda>m. me_org m = orgID \<and> me_user m = userID) (t_members a))) or_not_found"

section \<open>API tokens\<close>

text \<open>A token's hash is unique over all organisations.\<close>

definition CreateToken :: "int \<Rightarrow> string \<Rightarrow> string \<Rightarrow> int tx" where
  "CreateToken orgID name hash =
     bnd time_now (\<lambda>now.
     bnd (upd_accounts (\<lambda>a.
       if hash \<in> set (map at_hash (t_tokens a)) then (None, a)
       else (Some (n_tokens a),
             a\<lparr>t_tokens := t_tokens a @
                 [\<lparr>at_id = n_tokens a, at_org = orgID, at_name = name, at_hash = hash, at_created = now\<rparr>],
               n_tokens := n_tokens a + 1\<rparr>))) or_db_error)"

definition AuthenticateToken :: "string \<Rightarrow> (int \<times> string) tx" where
  "AuthenticateToken hash =
     bnd (get_accounts (\<lambda>a. List.find (\<lambda>t. at_hash t = hash) (t_tokens a))) (\<lambda>row.
     bnd (or_not_found row) (\<lambda>t. ret (at_org t, at_name t)))"

definition scanTokenMeta :: "api_token \<Rightarrow> api_token" where
  "scanTokenMeta t = t\<lparr>at_hash := []\<rparr>"

definition ListTokens :: "int \<Rightarrow> api_token list tx" where
  "ListTokens orgID =
     get_accounts (\<lambda>a. map scanTokenMeta (sort_key at_id (filter (\<lambda>t. at_org t = orgID) (t_tokens a))))"

definition DeleteToken :: "int \<Rightarrow> int \<Rightarrow> unit tx" where
  "DeleteToken orgID i =
     upd_accounts (\<lambda>a. ((), a\<lparr>t_tokens := filter (\<lambda>t. \<not> (at_org t = orgID \<and> at_id t = i)) (t_tokens a)\<rparr>))"

section \<open>Secrets\<close>

definition same_secret :: "int \<Rightarrow> string \<Rightarrow> secret_row \<Rightarrow> bool" where
  "same_secret orgID name s \<longleftrightarrow> se_org s = orgID \<and> se_name s = name"

definition PutSecret :: "int \<Rightarrow> string \<Rightarrow> string \<Rightarrow> unit tx" where
  "PutSecret orgID name ct =
     bnd time_now (\<lambda>now.
     upd_accounts (\<lambda>a. ((),
       if list_ex (same_secret orgID name) (t_secrets a)
       then a\<lparr>t_secrets := map (\<lambda>s. if same_secret orgID name s
                then s\<lparr>se_ciphertext := ct, se_updated := now\<rparr> else s) (t_secrets a)\<rparr>
       else a\<lparr>t_secrets := t_secrets a @
                [\<lparr>se_org = orgID, se_name = name, se_ciphertext = ct, se_created = now, se_updated = now\<rparr>]\<rparr>)))"

definition GetSecret :: "int \<Rightarrow> string \<Rightarrow> string tx" where
  "GetSecret orgID name =
     bnd (get_accounts (\<lambda>a. List.find (same_secret orgID name) (t_secrets a))) (\<lambda>row.
     bnd (or_not_found row) (\<lambda>s. ret (se_ciphertext s)))"

text \<open>The names and times only: there is no way from here to a ciphertext.\<close>

definition scanSecretMeta :: "secret_row \<Rightarrow> string \<times> gotime" where
  "scanSecretMeta s = (se_name s, se_created s)"

definition ListSecrets :: "int \<Rightarrow> (string \<times> gotime) list tx" where
  "ListSecrets orgID =
     get_accounts (\<lambda>a. map scanSecretMeta (sort_key se_name (filter (\<lambda>s. se_org s = orgID) (t_secrets a))))"

end
