(* ===== verification/Store_Emit.thy ===== *)
theory Store_Emit
  imports Store_Tx
begin

text \<open>
  How every event is recorded (\<^verbatim>\<open>internal/store/emit.go\<close>, \<^verbatim>\<open>streak.go\<close> and
  \<^verbatim>\<open>pacing.go\<close>): the event row, the failing streak kept on its job and the pending
  deliveries its rules match, in one transaction, and the release of held failures.
\<close>

section \<open>Reading tables\<close>

definition find_run :: "int \<Rightarrow> db \<Rightarrow> run_row option" where
  "find_run runID d = List.find (\<lambda>r. rw_id r = runID) (t_runs d)"

definition find_job :: "int \<Rightarrow> int \<Rightarrow> db \<Rightarrow> job_row option" where
  "find_job orgID jobID d = List.find (\<lambda>r. j_org (jr_job r) = orgID \<and> j_id (jr_job r) = jobID) (t_jobs d)"

definition find_alert :: "int \<Rightarrow> int \<Rightarrow> db \<Rightarrow> alert_row option" where
  "find_alert chID jobID d = List.find (\<lambda>a. al_channel a = chID \<and> al_job a = jobID) (t_alerts d)"

definition find_event :: "int \<Rightarrow> db \<Rightarrow> event option" where
  "find_event eid d = List.find (\<lambda>e. ev_id e = eid) (t_events d)"

text \<open>Runs that have an outcome, and the one of them that ended last.\<close>

definition finished :: "run_row \<Rightarrow> bool" where
  "finished r \<longleftrightarrow> rw_status r \<noteq> StatusPending \<and> rw_status r \<noteq> StatusRunning \<and> rw_ended r \<noteq> None"

definition later_run :: "run_row \<Rightarrow> run_row \<Rightarrow> bool" where
  "later_run r b \<longleftrightarrow> rw_ended b < rw_ended r \<or> rw_ended b = rw_ended r \<and> rw_id b < rw_id r"

definition latest_run :: "run_row list \<Rightarrow> run_row option" where
  "latest_run rs =
     fold (\<lambda>r acc. case acc of None \<Rightarrow> Some r | Some b \<Rightarrow> Some (if later_run r b then r else b)) rs None"

definition previousRunStatus :: "int \<Rightarrow> db \<Rightarrow> run_status option" where
  "previousRunStatus runID d =
     (case find_run runID d of
        None \<Rightarrow> None
      | Some r \<Rightarrow> map_option rw_status (latest_run
          (filter (\<lambda>p. rw_org p = rw_org r \<and> rw_job p = rw_job r \<and> rw_id p \<noteq> rw_id r \<and> finished p)
             (t_runs d))))"

definition lastRunStatus :: "int \<Rightarrow> int \<Rightarrow> db \<Rightarrow> run_status option" where
  "lastRunStatus orgID jobID d =
     map_option rw_status (latest_run
       (filter (\<lambda>p. rw_org p = orgID \<and> rw_job p = jobID \<and> finished p) (t_runs d)))"

section \<open>Failing streaks\<close>

type_synonym streak = "int \<times> gotime"

definition afterSuccess :: "event \<Rightarrow> bool tx" where
  "afterSuccess e =
     bnd get_json (\<lambda>json.
       if EventRunID json e \<le> 0 then ret False
       else query (\<lambda>d. previousRunStatus (EventRunID json e) d = Some StatusSucceeded))"

definition set_job_rows :: "int \<Rightarrow> int \<Rightarrow> (job_row \<Rightarrow> job_row) \<Rightarrow> db \<Rightarrow> db" where
  "set_job_rows orgID jobID f d =
     d\<lparr>t_jobs := map (\<lambda>r. if j_org (jr_job r) = orgID \<and> j_id (jr_job r) = jobID then f r else r) (t_jobs d)\<rparr>"

definition start_streak :: "gotime \<Rightarrow> job_row \<Rightarrow> job_row" where
  "start_streak at r = r\<lparr>jr_failed_runs := 1, jr_failing_since := Some at\<rparr>"

definition extend_streak :: "gotime \<Rightarrow> job_row \<Rightarrow> job_row" where
  "extend_streak at r =
     r\<lparr>jr_failed_runs := jr_failed_runs r + 1,
       jr_failing_since := (case jr_failing_since r of None \<Rightarrow> Some at | Some t \<Rightarrow> Some t)\<rparr>"

definition streak_of_row :: "int \<Rightarrow> job_row option \<Rightarrow> int \<times> streak" where
  "streak_of_row jobID row =
     (case row of
        None \<Rightarrow> (0, (0, 0))
      | Some r \<Rightarrow>
          (jobID, if jr_failed_runs r \<le> 0 then (0, 0)
                  else (jr_failed_runs r, parseTime (jr_failing_since r))))"

definition streakOf :: "event \<Rightarrow> gotime \<Rightarrow> (int \<times> streak) tx" where
  "streakOf e at =
     bnd get_json (\<lambda>json.
       let jobID = EventJobID json e in
       if jobID \<le> 0 then ret (0, (0, 0))
       else if ev_type e = RunFailed then
         bnd (afterSuccess e) (\<lambda>fresh.
         bnd (stmt (\<lambda>d.
                let d' = set_job_rows (ev_org e) jobID
                           (if fresh then start_streak at else extend_streak at) d
                in (find_job (ev_org e) jobID d', d'))) (\<lambda>row.
         ret (streak_of_row jobID row)))
       else if ev_type e = RunRecovered then
         bnd (query (find_job (ev_org e) jobID)) (\<lambda>row. ret (streak_of_row jobID row))
       else ret (0, (0, 0)))"

definition withStreak :: "event \<Rightarrow> streak \<Rightarrow> event" where
  "withStreak e s =
     (if fst s \<le> 0 then e
      else if ev_type e = RunFailed then e\<lparr>ev_detail := WithStreak (ev_detail e) (fst s) (snd s)\<rparr>
      else if ev_type e = RunRecovered \<and> ev_detail e = DNone
      then e\<lparr>ev_detail := RecoveryDetail (fst s) (snd s)\<rparr>
      else e)"

section \<open>Alert states\<close>

definition alertState :: "int \<Rightarrow> int \<Rightarrow> (alert_state \<times> bool \<times> int) tx" where
  "alertState chID jobID =
     query (\<lambda>d. case find_alert chID jobID d of
         None \<Rightarrow> (no_state, False, 0)
       | Some a \<Rightarrow> (\<lparr>LastSentAt = parseTime (al_last_sent a), Held = al_held a \<noteq> None\<rparr>, True,
                    case al_held a of None \<Rightarrow> 0 | Some i \<Rightarrow> i))"

definition put_alert :: "int \<Rightarrow> int \<Rightarrow> int \<Rightarrow> alert_state \<Rightarrow> int option \<Rightarrow> db \<Rightarrow> db" where
  "put_alert orgID chID jobID st held d =
     (if find_alert chID jobID d = None
      then d\<lparr>t_alerts := t_alerts d @
               [\<lparr>al_org = orgID, al_channel = chID, al_job = jobID,
                 al_last_sent = nullTime (LastSentAt st), al_held = held\<rparr>]\<rparr>
      else d\<lparr>t_alerts := map (\<lambda>a. if al_channel a = chID \<and> al_job a = jobID
                 then a\<lparr>al_last_sent := nullTime (LastSentAt st), al_held := held\<rparr> else a) (t_alerts d)\<rparr>)"

definition saveAlertState :: "int \<Rightarrow> int \<Rightarrow> int \<Rightarrow> alert_state \<Rightarrow> int option \<Rightarrow> unit tx" where
  "saveAlertState orgID chID jobID st held = exec_stmt (put_alert orgID chID jobID st held)"

definition drop_held :: "int \<Rightarrow> db \<Rightarrow> db" where
  "drop_held runID d =
     (case find_run runID d of
        None \<Rightarrow> d
      | Some r \<Rightarrow> d\<lparr>t_alerts := map (\<lambda>a. if al_job a = rw_job r then a\<lparr>al_held := None\<rparr> else a) (t_alerts d)\<rparr>)"

definition dropHeld :: "int \<Rightarrow> unit tx" where
  "dropHeld runID = exec_stmt (drop_held runID)"

definition clear_streak :: "int \<Rightarrow> db \<Rightarrow> db" where
  "clear_streak runID d =
     (case find_run runID d of
        None \<Rightarrow> d
      | Some r \<Rightarrow> d\<lparr>t_jobs := map (\<lambda>j. if j_id (jr_job j) = rw_job r \<and> jr_failed_runs j \<noteq> 0
                        then j\<lparr>jr_failed_runs := 0, jr_failing_since := None\<rparr> else j) (t_jobs d)\<rparr>)"

definition endStreak :: "int \<Rightarrow> unit tx" where
  "endStreak runID = bnd (exec_stmt (clear_streak runID)) (\<lambda>_. dropHeld runID)"

text \<open>\<^verbatim>\<open>deleteAlertStates\<close> with the column it is given, as a selector.\<close>

definition deleteAlertStates :: "int \<Rightarrow> (alert_row \<Rightarrow> int) \<Rightarrow> int \<Rightarrow> unit tx" where
  "deleteAlertStates orgID column i =
     exec_stmt (\<lambda>d. d\<lparr>t_alerts := filter (\<lambda>a. \<not> (al_org a = orgID \<and> column a = i)) (t_alerts d)\<rparr>)"

section \<open>Routing\<close>

record matched_channel =
  mc_id :: int
  mc_kind :: channel_kind
  mc_repeat :: duration

definition repeatOf :: "int option \<Rightarrow> duration option" where
  "repeatOf n = map_option dur_seconds n"

definition add_match :: "matched_channel list \<Rightarrow> matched_channel \<Rightarrow> matched_channel list" where
  "add_match out m =
     (if out \<noteq> [] \<and> mc_id (last out) = mc_id m
      then butlast out @ [(last out)\<lparr>mc_repeat := min (mc_repeat (last out)) (mc_repeat m)\<rparr>]
      else out @ [m])"

definition rule_routes :: "int \<Rightarrow> event_type \<Rightarrow> int \<Rightarrow> rule \<Rightarrow> bool" where
  "rule_routes orgID typ jobID r \<longleftrightarrow>
     ru_org r = orgID \<and> ru_enabled r \<and> ru_event r = typ \<and> (ru_job r = 0 \<or> ru_job r = jobID)"

definition matched_rows :: "event \<Rightarrow> int \<Rightarrow> db \<Rightarrow> matched_channel list" where
  "matched_rows e jobID d =
     concat (map (\<lambda>r. map (\<lambda>c. \<lparr>mc_id = ru_channel r, mc_kind = ch_kind c,
                              mc_repeat = EffectiveRepeat (ch_kind c) (repeatOf (ru_repeat r))\<rparr>)
                     (filter (\<lambda>c. ch_id c = ru_channel r \<and> ch_org c = ru_org r) (t_channels d)))
        (sort_key ru_channel (sort_key ru_id (filter (rule_routes (ev_org e) (ev_type e) jobID) (t_rules d)))))"

definition matchedChannels :: "event \<Rightarrow> int \<Rightarrow> matched_channel list tx" where
  "matchedChannels e jobID = query (\<lambda>d. foldl add_match [] (matched_rows e jobID d))"

definition failed_repeat :: "int \<Rightarrow> int \<Rightarrow> int \<Rightarrow> channel_kind \<Rightarrow> db \<Rightarrow> duration option" where
  "failed_repeat orgID chID jobID kind d =
     foldl (\<lambda>best r.
         let n = EffectiveRepeat kind (repeatOf (ru_repeat r)) in
         case best of None \<Rightarrow> Some n | Some b \<Rightarrow> Some (if n < b then n else b))
       None (filter (\<lambda>r. ru_channel r = chID \<and> rule_routes orgID RunFailed jobID r) (t_rules d))"

definition failedRepeat :: "int \<Rightarrow> int \<Rightarrow> int \<Rightarrow> channel_kind \<Rightarrow> duration option tx" where
  "failedRepeat orgID chID jobID kind = query (failed_repeat orgID chID jobID kind)"

definition paced :: "event \<Rightarrow> int \<Rightarrow> streak \<Rightarrow> matched_channel \<Rightarrow> bool tx" where
  "paced e jobID streak ch =
     (if jobID \<le> 0 then ret True
      else if ev_type e = RunFailed then
        (if fst streak \<le> 0 then ret True
         else
           bnd (alertState (mc_id ch) jobID) (\<lambda>(st, known, _).
           let (send, next) = PaceFailure st known (ev_created e) (snd streak) (mc_repeat ch);
               held = (if Held next then Some (ev_id e) else None)
           in bnd (saveAlertState (ev_org e) (mc_id ch) jobID next held) (\<lambda>_. ret send)))
      else if ev_type e = RunRecovered then
        bnd (failedRepeat (ev_org e) (mc_id ch) jobID (mc_kind ch)) (\<lambda>routed.
        if routed = None then ret True
        else bnd (alertState (mc_id ch) jobID) (\<lambda>(st, known, _).
             ret (PaceRecovery st known (snd streak))))
      else ret True)"

section \<open>Recording events\<close>

definition add_delivery :: "int \<Rightarrow> int \<Rightarrow> int \<Rightarrow> gotime \<Rightarrow> db \<Rightarrow> db" where
  "add_delivery orgID eventID chID now d =
     d\<lparr>t_deliveries := t_deliveries d @
         [\<lparr>dl_id = n_deliveries d, dl_org = orgID, dl_event = eventID, dl_channel = chID,
           dl_attempts = 0, dl_state = DeliveryPending, dl_next = now, dl_created = now, dl_first = None\<rparr>],
       n_deliveries := n_deliveries d + 1\<rparr>"

definition insertDelivery :: "int \<Rightarrow> int \<Rightarrow> int \<Rightarrow> unit tx" where
  "insertDelivery orgID eventID chID =
     bnd time_now (\<lambda>now. exec_stmt (add_delivery orgID eventID chID now))"

definition enqueue_one :: "event \<Rightarrow> int \<Rightarrow> streak \<Rightarrow> matched_channel \<Rightarrow> unit tx" where
  "enqueue_one e jobID streak ch =
     bnd (paced e jobID streak ch) (\<lambda>send.
     if \<not> send then ret () else insertDelivery (ev_org e) (ev_id e) (mc_id ch))"

definition enqueueDeliveries :: "event \<Rightarrow> int \<Rightarrow> streak \<Rightarrow> unit tx" where
  "enqueueDeliveries e jobID0 streak =
     (if \<not> Alertable (ev_type e) then ret ()
      else
        bnd get_json (\<lambda>json.
        let jobID = (if jobID0 \<le> 0 then EventJobID json e else jobID0) in
        bnd (matchedChannels e jobID) (\<lambda>channels.
        for_each channels (enqueue_one e jobID streak))))"

definition add_event :: "event \<Rightarrow> db \<Rightarrow> int \<times> db" where
  "add_event e d =
     (n_events d,
      d\<lparr>t_events := t_events d @ [e\<lparr>ev_id := n_events d\<rparr>], n_events := n_events d + 1\<rparr>)"

definition recordEvent :: "event \<Rightarrow> event tx" where
  "recordEvent e0 =
     bnd (if ev_created e0 = 0 then bnd time_now (\<lambda>t. ret (e0\<lparr>ev_created := t\<rparr>)) else ret e0) (\<lambda>e1.
     bnd (streakOf e1 (ev_created e1)) (\<lambda>(jobID, streak).
     let e2 = withStreak e1 streak in
     bnd (stmt (add_event e2)) (\<lambda>i.
     let e3 = e2\<lparr>ev_id := i\<rparr> in
     bnd (enqueueDeliveries e3 jobID streak) (\<lambda>_. ret e3))))"

definition emitEvent :: "event \<Rightarrow> int tx" where
  "emitEvent e = bnd (recordEvent e) (\<lambda>r. ret (ev_id r))"

definition EmitEvent :: "event \<Rightarrow> int tx" where
  "EmitEvent e = transact (bnd (emitEvent e) (\<lambda>i. ret (Commit i)))"

section \<open>Releasing held failures\<close>

record held_candidate =
  hc_org :: int
  hc_channel :: int
  hc_job :: int
  hc_event :: int
  hc_kind :: channel_kind

definition held_candidates :: "db \<Rightarrow> held_candidate list" where
  "held_candidates d =
     concat (map (\<lambda>a. case al_held a of None \<Rightarrow> []
         | Some i \<Rightarrow> map (\<lambda>c. \<lparr>hc_org = al_org a, hc_channel = al_channel a, hc_job = al_job a,
                            hc_event = i, hc_kind = ch_kind c\<rparr>)
             (filter (\<lambda>c. ch_id c = al_channel a \<and> ch_org c = al_org a) (t_channels d)))
       (sort_key al_last_sent (sort_key al_channel (sort_key al_job (t_alerts d)))))"

definition forget_held :: "held_candidate \<Rightarrow> db \<Rightarrow> db" where
  "forget_held c d =
     d\<lparr>t_alerts := map (\<lambda>a. if al_channel a = hc_channel c \<and> al_job a = hc_job c
            \<and> al_held a = Some (hc_event c) then a\<lparr>al_held := None\<rparr> else a) (t_alerts d)\<rparr>"

definition release_drop :: "held_candidate \<Rightarrow> bool outcome tx" where
  "release_drop c = bnd (exec_stmt (forget_held c)) (\<lambda>_. ret (Commit False))"

definition stillHeld :: "held_candidate \<Rightarrow> (alert_state \<times> bool) tx" where
  "stillHeld c =
     bnd (alertState (hc_channel c) (hc_job c)) (\<lambda>(st, known, held).
     ret (st, known \<and> held = hc_event c))"

text \<open>The second half of \<^verbatim>\<open>releaseOne\<close>, once the job's row is locked.\<close>

definition release_locked :: "held_candidate \<Rightarrow> gotime \<Rightarrow> duration \<Rightarrow> bool outcome tx" where
  "release_locked c now rep =
     bnd (query (lastRunStatus (hc_org c) (hc_job c))) (\<lambda>last.
     if last = Some StatusSucceeded then release_drop c
     else
       bnd (stillHeld c) (\<lambda>(st, held).
       if \<not> held \<or> \<not> ReleaseDue st now rep then ret (Rollback False)
       else
         bnd (query (find_event (hc_event c))) (\<lambda>ev.
         if ev = None then release_drop c
         else
           bnd (saveAlertState (hc_org c) (hc_channel c) (hc_job c) (Released now) None) (\<lambda>_.
           bnd (insertDelivery (hc_org c) (hc_event c) (hc_channel c)) (\<lambda>_.
           ret (Commit True))))))"

definition releaseOne :: "held_candidate \<Rightarrow> gotime \<Rightarrow> bool tx" where
  "releaseOne c now = transact (
     bnd (stillHeld c) (\<lambda>(st, held).
     if \<not> held then ret (Rollback False)
     else
       bnd (failedRepeat (hc_org c) (hc_channel c) (hc_job c) (hc_kind c)) (\<lambda>routed.
       case routed of
         None \<Rightarrow> release_drop c
       | Some rep \<Rightarrow>
           if \<not> ReleaseDue st now rep then ret (Rollback False)
           else
             bnd (query (find_job (hc_org c) (hc_job c))) (\<lambda>job.
             case job of
               None \<Rightarrow> release_drop c
             | Some r \<Rightarrow> if jr_failed_runs r \<le> 0 then release_drop c else release_locked c now rep))))"

text \<open>The loop over the candidates: the number released, and whether anything failed.\<close>

fun release_each :: "held_candidate list \<Rightarrow> gotime \<Rightarrow> nat \<Rightarrow> bool \<Rightarrow> (nat \<times> bool) tx" where
  "release_each [] now released failed = ret (released, failed)"
| "release_each (c # cs) now released failed =
     bnd (attempt (releaseOne c now)) (\<lambda>r.
     case r of
       Inl e \<Rightarrow> bnd ctx_err (\<lambda>stop. if stop then ret (released, True) else release_each cs now released True)
     | Inr ok \<Rightarrow> release_each cs now (if ok then Suc released else released) failed)"

definition ReleaseHeldAlerts :: "gotime \<Rightarrow> (nat \<times> bool) tx" where
  "ReleaseHeldAlerts now =
     bnd (query held_candidates) (\<lambda>cands. release_each cands now 0 False)"

section \<open>What recording an event leaves alone\<close>

text \<open>
  Enqueueing the deliveries of event \<open>i\<close> writes to the database only by keeping an alert
  state, holding nothing or that event, and by queueing that event. A property of the
  database that survives these two writes survives the whole enqueueing.
\<close>

locale enqueue_invariant =
  fixes I :: "db \<Rightarrow> bool" and i :: int
  assumes put_alert_inv: "I d \<Longrightarrow> held = None \<or> held = Some i \<Longrightarrow> I (put_alert orgID chID jobID st held d)"
    and add_delivery_inv: "I d \<Longrightarrow> I (add_delivery orgID i chID now d)"
begin

lemma keeps_paced: "ev_id e = i \<Longrightarrow> keeps I (paced e jobID s ch)"
  unfolding paced_def alertState_def saveAlertState_def failedRepeat_def Let_def case_prod_beta
  by (auto intro!: tx_rules put_alert_inv)

lemma keeps_enqueue_one:
  assumes "ev_id e = i"
  shows "keeps I (enqueue_one e jobID s ch)"
  unfolding enqueue_one_def insertDelivery_def assms
  by (intro tx_rules keeps_paced add_delivery_inv assms)

lemma keeps_enqueue: "ev_id e = i \<Longrightarrow> keeps I (enqueueDeliveries e jobID s)"
  unfolding enqueueDeliveries_def matchedChannels_def Let_def
  by (auto intro!: tx_rules keeps_enqueue_one)

end

text \<open>The tables that recording an event never touches; a job's own columns are among them.\<close>

definition untouched where
  "untouched d = (t_runs d, t_hbs d, t_pings d, t_channels d, t_rules d, map jr_job (t_jobs d),
     (n_jobs d, n_runs d, n_channels d, n_rules d, n_hbs d, n_pings d))"

lemma untouched_put_alert [simp]:
  "untouched (put_alert orgID chID jobID st held d) = untouched d"
  "t_events (put_alert orgID chID jobID st held d) = t_events d"
  "n_events (put_alert orgID chID jobID st held d) = n_events d"
  by (simp_all add: untouched_def put_alert_def)

lemma untouched_add_delivery [simp]:
  "untouched (add_delivery orgID i chID now d) = untouched d"
  "t_events (add_delivery orgID i chID now d) = t_events d"
  "n_events (add_delivery orgID i chID now d) = n_events d"
  by (simp_all add: untouched_def add_delivery_def)

lemma map_jr_job_set:
  "(\<And>r. jr_job (f r) = jr_job r) \<Longrightarrow> map jr_job (t_jobs (set_job_rows orgID jobID f d)) = map jr_job (t_jobs d)"
  by (simp add: set_job_rows_def)

lemma untouched_streak [simp]:
  "untouched (set_job_rows orgID jobID (start_streak at) d) = untouched d"
  "untouched (set_job_rows orgID jobID (extend_streak at) d) = untouched d"
  "t_events (set_job_rows orgID jobID f d) = t_events d"
  "n_events (set_job_rows orgID jobID f d) = n_events d"
  "t_deliveries (set_job_rows orgID jobID f d) = t_deliveries d"
  "t_alerts (set_job_rows orgID jobID f d) = t_alerts d"
  by (simp_all add: untouched_def set_job_rows_def start_streak_def extend_streak_def)

interpretation frame_enqueue: enqueue_invariant "\<lambda>d. untouched d = u \<and> t_events d = es \<and> n_events d = n" i
  for u es n i
  by unfold_locales simp_all

lemma keeps_streakOf:
  assumes "\<And>d orgID jobID at. I d \<Longrightarrow> I (set_job_rows orgID jobID (start_streak at) d)"
    and "\<And>d orgID jobID at. I d \<Longrightarrow> I (set_job_rows orgID jobID (extend_streak at) d)"
  shows "keeps I (streakOf e at)"
  unfolding streakOf_def afterSuccess_def Let_def
  by (auto intro!: tx_rules keeps_stmt assms)

lemma withStreak_same:
  "ev_type (withStreak e s) = ev_type e" "ev_org (withStreak e s) = ev_org e"
  "ev_payload (withStreak e s) = ev_payload e" "ev_created (withStreak e s) = ev_created e"
  "ev_dedup (withStreak e s) = ev_dedup e"
  "ev_type e \<noteq> RunFailed \<Longrightarrow> ev_type e \<noteq> RunRecovered \<Longrightarrow> ev_detail (withStreak e s) = ev_detail e"
  by (simp_all add: withStreak_def)

text \<open>An event as it was recorded says the same as the event that was to be recorded.\<close>

definition recorded_as :: "event \<Rightarrow> event \<Rightarrow> bool" where
  "recorded_as e r \<longleftrightarrow>
     ev_type r = ev_type e \<and> ev_org r = ev_org e \<and> ev_payload r = ev_payload e \<and> ev_dedup r = ev_dedup e
     \<and> (ev_type e \<noteq> RunFailed \<longrightarrow> ev_type e \<noteq> RunRecovered \<longrightarrow> ev_detail r = ev_detail e)"

text \<open>
  Recording an event appends exactly that event and touches none of the other tables but the
  queue, the alert states and the streaks.
\<close>

lemma recordEvent_effect:
  "triple (\<lambda>d. untouched d = u \<and> t_events d = es \<and> n_events d = n) (recordEvent e)
     (\<lambda>r d. untouched d = u \<and> t_events d = es @ [r] \<and> n_events d = n + 1 \<and> ev_id r = n \<and> recorded_as e r)"
proof -
  let ?P = "\<lambda>d. untouched d = u \<and> t_events d = es \<and> n_events d = n"
  let ?Q = "\<lambda>r d. untouched d = u \<and> t_events d = es @ [r] \<and> n_events d = n + 1 \<and> ev_id r = n \<and> recorded_as e r"
  have enq: "triple (\<lambda>d. ?Q e3 d) (bnd (enqueueDeliveries e3 jobID s) (\<lambda>_. ret e3)) ?Q" for e3 jobID s
  proof (rule triple_bnd [where R = "\<lambda>_ d. ?Q e3 d"])
    have "keeps (\<lambda>d. untouched d = u \<and> t_events d = es @ [e3] \<and> n_events d = n + 1) (enqueueDeliveries e3 jobID s)"
      by (rule frame_enqueue.keeps_enqueue) (rule refl)
    then show "triple (\<lambda>d. ?Q e3 d) (enqueueDeliveries e3 jobID s) (\<lambda>_ d. ?Q e3 d)"
      by (intro tripleI) (auto dest: keepsD)
  qed (rule triple_ret)
  have add: "triple ?P (stmt (add_event e2)) (\<lambda>i d. ?Q (e2\<lparr>ev_id := i\<rparr>) d)" if "recorded_as e e2" for e2
    using that by (intro triple_stmt) (simp add: add_event_def untouched_def recorded_as_def)
  have rest: "triple ?P (bnd (streakOf e1 (ev_created e1)) (\<lambda>(jobID, streak).
     let e2 = withStreak e1 streak in
     bnd (stmt (add_event e2)) (\<lambda>i.
     let e3 = e2\<lparr>ev_id := i\<rparr> in
     bnd (enqueueDeliveries e3 jobID streak) (\<lambda>_. ret e3)))) ?Q" if "recorded_as e e1" for e1
  proof (rule triple_bnd [where R = "\<lambda>_. ?P"])
    have "keeps ?P (streakOf e1 (ev_created e1))" by (rule keeps_streakOf) simp_all
    then show "triple ?P (streakOf e1 (ev_created e1)) (\<lambda>_. ?P)" by (rule triple_keeps)
    have "recorded_as e (withStreak e1 s)" for s
      using that by (auto simp: recorded_as_def withStreak_same)
    then show "triple ?P (case js of (jobID, streak) \<Rightarrow> let e2 = withStreak e1 streak in
       bnd (stmt (add_event e2)) (\<lambda>i. let e3 = e2\<lparr>ev_id := i\<rparr> in
       bnd (enqueueDeliveries e3 jobID streak) (\<lambda>_. ret e3))) ?Q" for js
      unfolding Let_def case_prod_beta by (intro triple_bnd [OF add enq])
  qed
  show ?thesis
    unfolding recordEvent_def
  proof (rule triple_bnd [where R = "\<lambda>e1 d. ?P d \<and> recorded_as e e1"])
    show "triple ?P (if ev_created e = 0 then bnd time_now (\<lambda>t. ret (e\<lparr>ev_created := t\<rparr>)) else ret e)
       (\<lambda>e1 d. ?P d \<and> recorded_as e e1)"
      by (auto intro!: triple_bnd [where R = "\<lambda>_. ?P"] triple_time_now triple_ret simp: recorded_as_def)
    show "triple (\<lambda>d. ?P d \<and> recorded_as e e1) (bnd (streakOf e1 (ev_created e1)) (\<lambda>(jobID, streak).
       let e2 = withStreak e1 streak in
       bnd (stmt (add_event e2)) (\<lambda>i. let e3 = e2\<lparr>ev_id := i\<rparr> in
       bnd (enqueueDeliveries e3 jobID streak) (\<lambda>_. ret e3)))) ?Q" for e1
    proof (cases "recorded_as e e1")
      case True
      from rest [OF True] show ?thesis by (rule triple_conseq) simp_all
    qed (simp add: triple_def)
  qed
qed

lemma emitEvent_effect:
  "triple (\<lambda>d. untouched d = u \<and> t_events d = es) (emitEvent e)
     (\<lambda>i d. untouched d = u \<and> (\<exists>r. t_events d = es @ [r] \<and> recorded_as e r))"
proof (rule tripleI)
  fix d w i d' w'
  assume P: "untouched d = u \<and> t_events d = es" and m: "emitEvent e d w = (Inr i, d', w')"
  from m obtain r d1 w1 where "recordEvent e d w = (Inr r, d1, w1)" "d' = d1"
    by (auto simp: emitEvent_def bnd_def ret_def split: prod.splits sum.splits)
  with P tripleD [OF recordEvent_effect, of d u es "n_events d" e w r d1 w1]
  show "untouched d' = u \<and> (\<exists>r. t_events d' = es @ [r] \<and> recorded_as e r)" by blast
qed

end
