(* ===== verification/Store_Runs.thy ===== *)
theory Store_Runs
  imports Store_Emit
begin

text \<open>
  Jobs and the run queue (\<^verbatim>\<open>internal/store/sqlite.go\<close>): creating, reading, updating and
  deleting jobs, finding the due ones, and the life of a run from pending through running
  to a terminal status, with the events recorded on the way.
\<close>

section \<open>Jobs\<close>

definition RollbackGuardCommand :: string where
  "RollbackGuardCommand =
     ''echo \"tend: this job needs tend v0.5 or later; it was not run\" >&2; exit 2''"

definition storedCommand :: "job \<Rightarrow> string" where
  "storedCommand j = (if HasSpec (j_type j) then RollbackGuardCommand else j_command j)"

text \<open>A row as a job: the job, or the error that names a row that does not decode.\<close>

definition scanJob :: "job_row \<Rightarrow> store_error + job" where
  "scanJob r =
     (let j = jr_job r; j' = (if HasSpec (j_type j) then j\<lparr>j_command := []\<rparr> else j)
      in if jr_unreadable r then Inl (ErrUnreadable (j_id j)) else Inr j')"

definition name_taken :: "int \<Rightarrow> string \<Rightarrow> int \<Rightarrow> db \<Rightarrow> bool" where
  "name_taken orgID name self d \<longleftrightarrow>
     (\<exists>r \<in> set (t_jobs d). j_org (jr_job r) = orgID \<and> j_name (jr_job r) = name \<and> j_id (jr_job r) \<noteq> self)"

definition CreateJob :: "job \<Rightarrow> int tx" where
  "CreateJob j =
     bnd time_now (\<lambda>now.
     bnd (auto_stmt (\<lambda>d.
        if name_taken (j_org j) (j_name j) 0 d then (None, d)
        else (Some (n_jobs d),
              d\<lparr>t_jobs := t_jobs d @
                  [\<lparr>jr_job = j\<lparr>j_id := n_jobs d, j_command := storedCommand j, j_created := now, j_updated := now\<rparr>,
                    jr_failed_runs = 0, jr_failing_since = None, jr_unreadable = False\<rparr>],
                n_jobs := n_jobs d + 1\<rparr>))) (\<lambda>r.
     case r of None \<Rightarrow> throw DbError | Some i \<Rightarrow> ret i))"

definition GetJob :: "int \<Rightarrow> int \<Rightarrow> job tx" where
  "GetJob orgID jobID =
     bnd (query (find_job orgID jobID)) (\<lambda>row.
     case row of
       None \<Rightarrow> throw ErrNotFound
     | Some r \<Rightarrow> (case scanJob r of Inl e \<Rightarrow> throw e | Inr j \<Rightarrow> ret j))"

definition update_job_row :: "job \<Rightarrow> gotime \<Rightarrow> job_row \<Rightarrow> job_row" where
  "update_job_row j now r =
     r\<lparr>jr_job := j\<lparr>j_id := j_id (jr_job r), j_org := j_org (jr_job r), j_command := storedCommand j,
                   j_created := j_created (jr_job r), j_updated := now\<rparr>,
       jr_unreadable := False\<rparr>"

definition UpdateJob :: "job \<Rightarrow> unit tx" where
  "UpdateJob j =
     bnd time_now (\<lambda>now.
     bnd (auto_stmt (\<lambda>d.
        if find_job (j_org j) (j_id j) d = None then (Inl ErrNotFound, d)
        else if name_taken (j_org j) (j_name j) (j_id j) d then (Inl DbError, d)
        else (Inr (), set_job_rows (j_org j) (j_id j) (update_job_row j now) d))) (\<lambda>r.
     case r of Inl e \<Rightarrow> throw e | Inr _ \<Rightarrow> ret ()))"

definition DeleteJob :: "int \<Rightarrow> int \<Rightarrow> unit tx" where
  "DeleteJob orgID jobID = transact (
     bnd (query (find_job orgID jobID)) (\<lambda>row.
     case row of
       None \<Rightarrow> throw ErrNotFound
     | Some r \<Rightarrow>
         bnd (emitEvent (JobRemovedEvent orgID jobID (j_name (jr_job r)))) (\<lambda>_.
         bnd (exec_stmt (\<lambda>d. d\<lparr>t_runs := filter (\<lambda>x. \<not> (rw_org x = orgID \<and> rw_job x = jobID)) (t_runs d)\<rparr>)) (\<lambda>_.
         bnd (exec_stmt (\<lambda>d. d\<lparr>t_rules := filter (\<lambda>x. \<not> (ru_org x = orgID \<and> ru_job x = jobID)) (t_rules d)\<rparr>)) (\<lambda>_.
         bnd (exec_stmt (\<lambda>d. d\<lparr>t_jobs := filter (\<lambda>x. \<not> (j_org (jr_job x) = orgID \<and> j_id (jr_job x) = jobID)) (t_jobs d)\<rparr>)) (\<lambda>_.
         bnd (deleteAlertStates orgID al_job jobID) (\<lambda>_.
         ret (Commit ()))))))))"

definition active :: "run_row \<Rightarrow> bool" where
  "active r \<longleftrightarrow> rw_status r = StatusPending \<or> rw_status r = StatusRunning"

definition due_row :: "gotime \<Rightarrow> db \<Rightarrow> job_row \<Rightarrow> bool" where
  "due_row now d r \<longleftrightarrow>
     j_enabled (jr_job r) \<and> j_next_run (jr_job r) \<noteq> 0 \<and> j_next_run (jr_job r) \<le> now
     \<and> \<not> (\<exists>x \<in> set (t_runs d). rw_job x = j_id (jr_job r) \<and> active x)"

text \<open>The due jobs that could be read, and the rows that could not.\<close>

definition DueJobs :: "gotime \<Rightarrow> (job list \<times> job_row list) tx" where
  "DueJobs now =
     query (\<lambda>d.
       let due = sort_key (\<lambda>r. j_id (jr_job r)) (filter (due_row now d) (t_jobs d))
       in (List.map_filter (\<lambda>r. case scanJob r of Inr j \<Rightarrow> Some j | Inl _ \<Rightarrow> None) due,
           filter jr_unreadable due))"

section \<open>Runs\<close>

definition scanRun :: "run_row \<Rightarrow> run" where
  "scanRun r =
     \<lparr>r_id = rw_id r, r_org = rw_org r, r_job = rw_job r, r_status = rw_status r, r_attempt = rw_attempt r,
      r_exit = rw_exit r, r_output = rw_output r,
      r_claimed_by = (case rw_claimed_by r of None \<Rightarrow> [] | Some s \<Rightarrow> s),
      r_started = parseTime (rw_started r), r_ended = parseTime (rw_ended r), r_created = rw_created r\<rparr>"

definition add_run :: "run_row \<Rightarrow> db \<Rightarrow> int \<times> db" where
  "add_run r d = (n_runs d, d\<lparr>t_runs := t_runs d @ [r\<lparr>rw_id := n_runs d\<rparr>], n_runs := n_runs d + 1\<rparr>)"

definition pending_run :: "int \<Rightarrow> int \<Rightarrow> gotime \<Rightarrow> run_row" where
  "pending_run orgID jobID now =
     \<lparr>rw_id = 0, rw_org = orgID, rw_job = jobID, rw_status = StatusPending, rw_attempt = 1, rw_exit = 0,
      rw_output = [], rw_claimed_by = None, rw_started = None, rw_ended = None, rw_created = now\<rparr>"

definition EnqueueRun :: "int \<Rightarrow> int \<Rightarrow> int tx" where
  "EnqueueRun orgID jobID =
     bnd time_now (\<lambda>now. auto_stmt (add_run (pending_run orgID jobID now)))"

definition set_run_rows :: "(run_row \<Rightarrow> bool) \<Rightarrow> (run_row \<Rightarrow> run_row) \<Rightarrow> db \<Rightarrow> db" where
  "set_run_rows P f d = d\<lparr>t_runs := map (\<lambda>r. if P r then f r else r) (t_runs d)\<rparr>"

definition oldest_pending :: "db \<Rightarrow> run_row option" where
  "oldest_pending d = List.find (\<lambda>r. rw_status r = StatusPending) (sort_key rw_id (t_runs d))"

definition claim_run :: "string \<Rightarrow> gotime \<Rightarrow> db \<Rightarrow> run option \<times> db" where
  "claim_run worker now d =
     (case oldest_pending d of
        None \<Rightarrow> (None, d)
      | Some r \<Rightarrow>
          let claim = (\<lambda>x. x\<lparr>rw_status := StatusRunning, rw_claimed_by := Some worker, rw_started := Some now\<rparr>)
          in (Some (scanRun (claim r)), set_run_rows (\<lambda>x. rw_id x = rw_id r) claim d))"

definition ClaimRun :: "string \<Rightarrow> run option tx" where
  "ClaimRun worker = bnd time_now (\<lambda>now. auto_stmt (claim_run worker now))"

definition is_running :: "int \<Rightarrow> run_row \<Rightarrow> bool" where
  "is_running runID r \<longleftrightarrow> rw_id r = runID \<and> rw_status r = StatusRunning"

definition end_run :: "run_status \<Rightarrow> int \<Rightarrow> string \<Rightarrow> gotime \<Rightarrow> run_row \<Rightarrow> run_row" where
  "end_run status exitCode out now r =
     r\<lparr>rw_status := status, rw_exit := exitCode, rw_output := out, rw_ended := Some now\<rparr>"

definition finishRunTx :: "int \<Rightarrow> run_status \<Rightarrow> int \<Rightarrow> string \<Rightarrow> unit tx" where
  "finishRunTx runID status exitCode out =
     bnd time_now (\<lambda>now.
     bnd (stmt (\<lambda>d. (list_ex (is_running runID) (t_runs d),
                    set_run_rows (is_running runID) (end_run status exitCode out now) d))) (\<lambda>changed.
     if changed then ret ()
     else
       bnd (query (find_run runID)) (\<lambda>row.
       if row = None then throw ErrRunGone else throw ErrRunNotRunning)))"

definition FinishRun :: "int \<Rightarrow> run_status \<Rightarrow> int \<Rightarrow> string \<Rightarrow> unit tx" where
  "FinishRun runID status exitCode out =
     transact (bnd (finishRunTx runID status exitCode out) (\<lambda>_. ret (Commit ())))"

definition set_attempt :: "int \<Rightarrow> int \<Rightarrow> db \<Rightarrow> db" where
  "set_attempt runID attempts = set_run_rows (\<lambda>r. rw_id r = runID) (\<lambda>r. r\<lparr>rw_attempt := attempts\<rparr>)"

text \<open>What a success adds: the recovery event when the job had failed, and the end of its streak.\<close>

definition finish_success :: "int \<Rightarrow> event \<Rightarrow> unit tx" where
  "finish_success runID ev =
     bnd (query (previousRunStatus runID)) (\<lambda>prev.
     bnd (case prev of
            Some s \<Rightarrow> if s \<noteq> StatusSucceeded then bnd (emitEvent (RecoveredEvent ev runID)) (\<lambda>_. ret ())
                       else ret ()
          | None \<Rightarrow> ret ()) (\<lambda>_.
     endStreak runID))"

definition FinishRunAndEmit :: "int \<Rightarrow> run_status \<Rightarrow> int \<Rightarrow> int \<Rightarrow> string \<Rightarrow> event \<Rightarrow> int tx" where
  "FinishRunAndEmit runID status exitCode attempts out ev = transact (
     bnd (finishRunTx runID status exitCode out) (\<lambda>_.
     bnd (exec_stmt (set_attempt runID attempts)) (\<lambda>_.
     bnd (emitEvent ev) (\<lambda>i.
     bnd (if status = StatusSucceeded then finish_success runID ev else ret ()) (\<lambda>_.
     ret (Commit i))))))"

definition ListRunningRuns :: "run list tx" where
  "ListRunningRuns =
     query (\<lambda>d. map scanRun (sort_key rw_id (filter (\<lambda>r. rw_status r = StatusRunning) (t_runs d))))"

definition ReapStaleRun :: "int \<Rightarrow> string \<Rightarrow> event \<Rightarrow> bool tx" where
  "ReapStaleRun runID out ev = transact (
     bnd time_now (\<lambda>now.
     bnd (stmt (\<lambda>d. (list_ex (is_running runID) (t_runs d),
                    set_run_rows (is_running runID) (end_run StatusFailed (-1) out now) d))) (\<lambda>changed.
     if \<not> changed then ret (Rollback False)
     else bnd (emitEvent ev) (\<lambda>_. ret (Commit True)))))"

definition ManualClaimantPrefix :: string where
  "ManualClaimantPrefix = ''run:''"

text \<open>SQLite's \<^verbatim>\<open>LIKE\<close> with a prefix pattern ignores the case of ASCII letters.\<close>

definition manual_claim :: "run_row \<Rightarrow> bool" where
  "manual_claim r \<longleftrightarrow>
     (case rw_claimed_by r of
        None \<Rightarrow> False
      | Some s \<Rightarrow> map lower (take (length ManualClaimantPrefix) s) = ManualClaimantPrefix)"

definition orphaned :: "run_row \<Rightarrow> bool" where
  "orphaned r \<longleftrightarrow> rw_status r = StatusRunning \<and> \<not> manual_claim r"

definition RequeueOrphanedRuns :: "nat tx" where
  "RequeueOrphanedRuns =
     auto_stmt (\<lambda>d. (length (filter orphaned (t_runs d)),
       set_run_rows orphaned
         (\<lambda>r. r\<lparr>rw_status := StatusPending, rw_claimed_by := None, rw_started := None\<rparr>) d))"

definition workerName :: string where "workerName = ''runner''"

definition failed_run :: "int \<Rightarrow> int \<Rightarrow> string \<Rightarrow> gotime \<Rightarrow> run_row" where
  "failed_run orgID jobID out now =
     \<lparr>rw_id = 0, rw_org = orgID, rw_job = jobID, rw_status = StatusFailed, rw_attempt = 1, rw_exit = -1,
      rw_output = out, rw_claimed_by = Some workerName, rw_started = Some now, rw_ended = Some now,
      rw_created = now\<rparr>"

definition FailUnreadableJob :: "int \<Rightarrow> int \<Rightarrow> string \<Rightarrow> string \<Rightarrow> event tx" where
  "FailUnreadableJob orgID jobID name out = transact (
     bnd time_now (\<lambda>now.
     bnd (stmt (add_run (failed_run orgID jobID out now))) (\<lambda>runID.
     let ev = RunEvent (scanRun ((failed_run orgID jobID out now)\<lparr>rw_id := runID\<rparr>)) name RunFailed StatusFailed (-1)
     in bnd (recordEvent (ev\<lparr>ev_detail := UnreadableFailureDetail out\<rparr>)) (\<lambda>rec.
        bnd (exec_stmt (set_job_rows orgID jobID (\<lambda>r. r\<lparr>jr_job := (jr_job r)\<lparr>j_next_run := 0\<rparr>\<rparr>))) (\<lambda>_.
        ret (Commit rec))))))"

definition PruneJobRuns :: "gotime \<Rightarrow> nat tx" where
  "PruneJobRuns before =
     auto_stmt (\<lambda>d. let old = (\<lambda>r. rw_created r < before \<and> \<not> active r)
                   in (length (filter old (t_runs d)), d\<lparr>t_runs := filter (\<lambda>r. \<not> old r) (t_runs d)\<rparr>))"

end
