(* ===== verification/Store_Heartbeats.thy ===== *)
theory Store_Heartbeats
  imports Store_Emit
begin

text \<open>
  Heartbeats in the store (\<^verbatim>\<open>internal/store/pings.go\<close> and the heartbeat part of
  \<^verbatim>\<open>sqlite.go\<close>): creating and deleting them, recording a ping with its log entry and the
  event of the transition it makes, finding the overdue ones and taking them down.
\<close>

section \<open>Rows\<close>

definition scanHeartbeat :: "hb_row \<Rightarrow> heartbeat" where
  "scanHeartbeat r =
     \<lparr>hb_id = hr_id r, hb_org = hr_org r, hb_name = hr_name r, hb_token = hr_token r,
      hb_last_seen = parseTime (hr_last_seen r), hb_period = hr_period r, hb_grace = hr_grace r,
      hb_status = hr_status r, hb_created = hr_created r, hb_started = parseTime (hr_started r),
      hb_rid = hr_rid r\<rparr>"

definition same_name :: "int \<Rightarrow> string \<Rightarrow> hb_row \<Rightarrow> bool" where
  "same_name orgID name r \<longleftrightarrow> hr_org r = orgID \<and> hr_name r = name"

definition new_hb_row :: "heartbeat \<Rightarrow> int \<Rightarrow> gotime \<Rightarrow> hb_row" where
  "new_hb_row hb i now =
     \<lparr>hr_id = i, hr_org = hb_org hb, hr_name = hb_name hb, hr_token = hb_token hb, hr_last_seen = None,
      hr_period = hb_period hb, hr_grace = hb_grace hb, hr_status = HbNew, hr_created = now,
      hr_started = None, hr_rid = []\<rparr>"

definition add_hb :: "heartbeat \<Rightarrow> gotime \<Rightarrow> db \<Rightarrow> db" where
  "add_hb hb now d =
     d\<lparr>t_hbs := t_hbs d @ [new_hb_row hb (n_hbs d) now], n_hbs := n_hbs d + 1\<rparr>"

definition set_hb_rows :: "(hb_row \<Rightarrow> bool) \<Rightarrow> (hb_row \<Rightarrow> hb_row) \<Rightarrow> db \<Rightarrow> db" where
  "set_hb_rows P f d = d\<lparr>t_hbs := map (\<lambda>r. if P r then f r else r) (t_hbs d)\<rparr>"

text \<open>The token is unique over all heartbeats; inserting one that is taken is an error.\<close>

definition token_taken :: "string \<Rightarrow> db \<Rightarrow> bool" where
  "token_taken token d \<longleftrightarrow> token \<in> set (map hr_token (t_hbs d))"

definition CreateHeartbeat :: "heartbeat \<Rightarrow> (int \<times> string) tx" where
  "CreateHeartbeat hb =
     bnd time_now (\<lambda>now.
     bnd (auto_stmt (\<lambda>d.
       case List.find (same_name (hb_org hb) (hb_name hb)) (t_hbs d) of
         Some r \<Rightarrow> (Some (hr_id r, hr_token r),
                    set_hb_rows (same_name (hb_org hb) (hb_name hb))
                      (\<lambda>r. r\<lparr>hr_period := hb_period hb, hr_grace := hb_grace hb\<rparr>) d)
       | None \<Rightarrow> if token_taken (hb_token hb) d then (None, d)
                 else (Some (n_hbs d, hb_token hb), add_hb hb now d))) (\<lambda>r.
     case r of None \<Rightarrow> throw DbError | Some x \<Rightarrow> ret x))"

definition createHeartbeatIfAbsent :: "heartbeat \<Rightarrow> (string \<times> bool) tx" where
  "createHeartbeatIfAbsent hb =
     bnd time_now (\<lambda>now.
     bnd (auto_stmt (\<lambda>d.
       if List.find (same_name (hb_org hb) (hb_name hb)) (t_hbs d) \<noteq> None then (Inr None, d)
       else if token_taken (hb_token hb) d then (Inl DbError, d)
       else (Inr (Some (hb_token hb)), add_hb hb now d))) (\<lambda>r.
     case r of
       Inl e \<Rightarrow> throw e
     | Inr (Some token) \<Rightarrow> ret (token, True)
     | Inr None \<Rightarrow>
         bnd (query (\<lambda>d. List.find (same_name (hb_org hb) (hb_name hb)) (t_hbs d))) (\<lambda>row.
         case row of None \<Rightarrow> throw DbError | Some x \<Rightarrow> ret (hr_token x, False))))"

definition DeleteHeartbeat :: "int \<Rightarrow> int \<Rightarrow> unit tx" where
  "DeleteHeartbeat orgID hid = transact (
     bnd (stmt (\<lambda>d. (map_option hr_name (List.find (\<lambda>r. hr_org r = orgID \<and> hr_id r = hid) (t_hbs d)),
                    d\<lparr>t_hbs := filter (\<lambda>r. \<not> (hr_org r = orgID \<and> hr_id r = hid)) (t_hbs d)\<rparr>))) (\<lambda>found.
     case found of
       None \<Rightarrow> throw ErrNotFound
     | Some name \<Rightarrow>
         bnd (exec_stmt (\<lambda>d. d\<lparr>t_pings := filter (\<lambda>p. \<not> (pw_org p = orgID \<and> pw_hb p = hid)) (t_pings d)\<rparr>)) (\<lambda>_.
         bnd (emitEvent (HbRemovedEvent orgID name)) (\<lambda>_.
         ret (Commit ())))))"

section \<open>Recording a ping\<close>

definition maxPingsPerHeartbeat :: nat where "maxPingsPerHeartbeat = 1000"
definition maxPingLogBytes :: int where "maxPingLogBytes = 10000000"

type_synonym hb_key = "int \<times> int \<times> string"

text \<open>An \<^verbatim>\<open>UPDATE ... WHERE token = ? AND guard RETURNING id, org_id, name\<close>.\<close>

definition update_by_token :: "string \<Rightarrow> (hb_row \<Rightarrow> bool) \<Rightarrow> (hb_row \<Rightarrow> hb_row) \<Rightarrow> hb_key option tx" where
  "update_by_token token guard f =
     stmt (\<lambda>d. (map_option (\<lambda>r. (hr_id r, hr_org r, hr_name r))
                 (List.find (\<lambda>r. hr_token r = token \<and> guard r) (t_hbs d)),
               set_hb_rows (\<lambda>r. hr_token r = token \<and> guard r) f d))"

text \<open>The guarded update first, the unguarded one when no row passed the guard.\<close>

definition update_transition ::
  "string \<Rightarrow> (hb_row \<Rightarrow> hb_row) \<Rightarrow> (hb_row \<Rightarrow> bool) \<Rightarrow> (hb_key option \<times> bool) tx" where
  "update_transition token f guard =
     bnd (update_by_token token guard f) (\<lambda>r.
     case r of
       Some k \<Rightarrow> ret (Some k, True)
     | None \<Rightarrow> bnd (update_by_token token (\<lambda>_. True) f) (\<lambda>r'. ret (r', False)))"

definition ping_start :: "string \<Rightarrow> gotime \<Rightarrow> hb_row \<Rightarrow> hb_row" where
  "ping_start rid now r = r\<lparr>hr_started := Some now, hr_rid := rid\<rparr>"

definition ping_success :: "string \<Rightarrow> gotime \<Rightarrow> hb_row \<Rightarrow> hb_row" where
  "ping_success rid now r =
     r\<lparr>hr_last_seen := Some now, hr_status := HbUp,
       hr_started := (if rid = [] \<or> hr_rid r = rid then None else hr_started r),
       hr_rid := (if rid = [] \<or> hr_rid r = rid then [] else hr_rid r)\<rparr>"

definition ping_fail :: "gotime \<Rightarrow> hb_row \<Rightarrow> hb_row" where
  "ping_fail now r = r\<lparr>hr_last_seen := Some now, hr_status := HbDown, hr_started := None, hr_rid := []\<rparr>"

text \<open>The state change of a ping: whose heartbeat it is, and the event it makes.\<close>

definition ping_state :: "string \<Rightarrow> ping_input \<Rightarrow> gotime \<Rightarrow> (hb_key option \<times> event option) tx" where
  "ping_state token inp now =
     (case pi_kind inp of
        PingStart \<Rightarrow>
          bnd (update_by_token token (\<lambda>_. True) (ping_start (pi_rid inp) now)) (\<lambda>k. ret (k, None))
      | PingSuccess \<Rightarrow>
          bnd (update_transition token (ping_success (pi_rid inp) now) (\<lambda>r. hr_status r = HbDown)) (\<lambda>(k, recovered).
          ret (k, case k of Some (hid, orgID, name) \<Rightarrow>
                      if recovered then Some (HbRecoveredEvent orgID hid name) else None
                  | None \<Rightarrow> None))
      | PingFail \<Rightarrow>
          bnd (update_transition token (ping_fail now) (\<lambda>r. hr_status r \<noteq> HbDown)) (\<lambda>(k, wentDown).
          ret (k, case k of Some (hid, orgID, name) \<Rightarrow>
                      if wentDown then Some (FailedEvent orgID hid name (pi_exit inp) (pi_body inp)) else None
                  | None \<Rightarrow> None))
      | _ \<Rightarrow>
          bnd (query (\<lambda>d. map_option (\<lambda>r. (hr_id r, hr_org r, hr_name r))
                           (List.find (\<lambda>r. hr_token r = token) (t_hbs d)))) (\<lambda>k. ret (k, None)))"

text \<open>The newest log entry that can be the start of the run a completion ends.\<close>

definition run_start :: "int \<Rightarrow> string \<Rightarrow> gotime \<Rightarrow> db \<Rightarrow> ping_row option" where
  "run_start hid rid since d =
     List.find (\<lambda>p. pw_hb p = hid \<and> pw_rid p = rid \<and> pw_kind p \<in> {PingStart, PingSuccess, PingFail}
                  \<and> since \<le> pw_created p)
       (rev (sort_key pw_id (t_pings d)))"

definition runDuration :: "int \<Rightarrow> ping_input \<Rightarrow> gotime \<Rightarrow> int option tx" where
  "runDuration hid inp now =
     (if pi_kind inp \<noteq> PingSuccess \<and> pi_kind inp \<noteq> PingFail then ret None
      else
        bnd (query (run_start hid (pi_rid inp) (now + - MaxRunDuration))) (\<lambda>row.
        case row of
          None \<Rightarrow> ret None
        | Some p \<Rightarrow>
            if pw_kind p \<noteq> PingStart \<or> now < pw_created p then ret None
            else ret (Some (quot (time_sub now (pw_created p)) millisecond))))"

definition add_ping :: "hb_key \<Rightarrow> ping_input \<Rightarrow> int option \<Rightarrow> gotime \<Rightarrow> db \<Rightarrow> db" where
  "add_ping k inp dur now d =
     (case k of (hid, orgID, _) \<Rightarrow>
       d\<lparr>t_pings := t_pings d @
           [\<lparr>pw_id = n_pings d, pw_org = orgID, pw_hb = hid, pw_kind = pi_kind inp, pw_exit = pi_exit inp,
             pw_rid = pi_rid inp, pw_duration = dur, pw_body = pi_body inp, pw_created = now,
             pw_bytes = int (length (pi_body inp))\<rparr>],
         n_pings := n_pings d + 1\<rparr>)"

text \<open>A heartbeat's log, newest first; the entry past the count, and the one past the bytes.\<close>

definition hb_log :: "int \<Rightarrow> db \<Rightarrow> ping_row list" where
  "hb_log hid d = rev (sort_key pw_id (filter (\<lambda>p. pw_hb p = hid) (t_pings d)))"

definition count_bound :: "ping_row list \<Rightarrow> int option" where
  "count_bound log =
     (if maxPingsPerHeartbeat < length log then Some (pw_id (log ! maxPingsPerHeartbeat)) else None)"

fun bytes_bound :: "int \<Rightarrow> ping_row list \<Rightarrow> int option" where
  "bytes_bound kept [] = None"
| "bytes_bound kept (p # log) =
     (if maxPingLogBytes < kept + pw_bytes p then Some (pw_id p) else bytes_bound (kept + pw_bytes p) log)"

definition drop_upto :: "int \<Rightarrow> int option \<Rightarrow> db \<Rightarrow> db" where
  "drop_upto hid bound d =
     (case bound of
        None \<Rightarrow> d
      | Some b \<Rightarrow> d\<lparr>t_pings := filter (\<lambda>p. \<not> (pw_hb p = hid \<and> pw_id p \<le> b)) (t_pings d)\<rparr>)"

definition trim_count :: "int \<Rightarrow> db \<Rightarrow> db" where
  "trim_count hid d = drop_upto hid (count_bound (hb_log hid d)) d"

definition trim_bytes :: "int \<Rightarrow> db \<Rightarrow> db" where
  "trim_bytes hid d = drop_upto hid (bytes_bound 0 (hb_log hid d)) d"

definition recordHeartbeatPing :: "string \<Rightarrow> ping_input \<Rightarrow> gotime \<Rightarrow> ping_result tx" where
  "recordHeartbeatPing token inp now =
     (if \<not> ValidPingKind (pi_kind inp) then throw (ErrInput ''unknown kind'')
      else transact (
        bnd (ping_state token inp now) (\<lambda>(key, event).
        case key of
          None \<Rightarrow> throw ErrNotFound
        | Some k \<Rightarrow>
            bnd (runDuration (fst k) inp now) (\<lambda>dur.
            bnd (exec_stmt (add_ping k inp dur now)) (\<lambda>_.
            bnd (exec_stmt (trim_count (fst k))) (\<lambda>_.
            bnd (exec_stmt (trim_bytes (fst k))) (\<lambda>_.
            bnd (case event of None \<Rightarrow> ret () | Some e \<Rightarrow> bnd (emitEvent e) (\<lambda>_. ret ())) (\<lambda>_.
            ret (Commit \<lparr>pr_org = fst (snd k), pr_hb = fst k, pr_name = snd (snd k), pr_event = event\<rparr>)))))))))"

definition RecordPing :: "string \<Rightarrow> gotime \<Rightarrow> (int \<times> string \<times> bool) tx" where
  "RecordPing token now =
     bnd (recordHeartbeatPing token \<lparr>pi_kind = PingSuccess, pi_exit = None, pi_rid = [], pi_body = []\<rparr> now) (\<lambda>res.
     ret (pr_org res, pr_name res, pr_event res \<noteq> None))"

section \<open>Watching\<close>

definition dueFromCandidates :: "heartbeat list \<Rightarrow> gotime \<Rightarrow> heartbeat list" where
  "dueFromCandidates candidates now = filter (\<lambda>hb. overdue hb now) candidates"

definition candidate :: "hb_row \<Rightarrow> bool" where
  "candidate r \<longleftrightarrow> hr_status r = HbUp \<and> hr_last_seen r \<noteq> None \<or> hr_status r = HbNew"

definition DueHeartbeats :: "gotime \<Rightarrow> heartbeat list tx" where
  "DueHeartbeats now =
     query (\<lambda>d. dueFromCandidates (map scanHeartbeat (sort_key hr_id (filter candidate (t_hbs d)))) now)"

definition as_observed :: "heartbeat \<Rightarrow> hb_row \<Rightarrow> bool" where
  "as_observed ob r \<longleftrightarrow>
     hr_id r = hb_id ob \<and> hr_status r = hb_status ob \<and> hr_last_seen r = nullTime (hb_last_seen ob)
     \<and> hr_started r = nullTime (hb_started ob)"

definition take_down :: "hb_row \<Rightarrow> hb_row" where
  "take_down r = r\<lparr>hr_status := HbDown, hr_started := None, hr_rid := []\<rparr>"

definition markHeartbeatDown :: "heartbeat \<Rightarrow> event \<Rightarrow> bool tx" where
  "markHeartbeatDown ob ev = transact (
     bnd (stmt (\<lambda>d. (list_ex (as_observed ob) (t_hbs d), set_hb_rows (as_observed ob) take_down d))) (\<lambda>changed.
     if \<not> changed then ret (Rollback False)
     else bnd (emitEvent ev) (\<lambda>_. ret (Commit True))))"

text \<open>
  Older forms of the transition, which guard on the status and \<^verbatim>\<open>last_seen_at\<close> only; the
  store still offers them.
\<close>

definition SetHeartbeatStatus :: "int \<Rightarrow> hb_status \<Rightarrow> unit tx" where
  "SetHeartbeatStatus hid st =
     auto_stmt (\<lambda>d. ((), set_hb_rows (\<lambda>r. hr_id r = hid) (\<lambda>r. r\<lparr>hr_status := st\<rparr>) d))"

definition status_observed :: "int \<Rightarrow> hb_status \<Rightarrow> gotime \<Rightarrow> hb_row \<Rightarrow> bool" where
  "status_observed hid from_status lastSeenAt r \<longleftrightarrow>
     hr_id r = hid \<and> hr_status r = from_status
     \<and> (if lastSeenAt = 0 then hr_last_seen r = None else hr_last_seen r = Some lastSeenAt)"

definition status_if :: "int \<Rightarrow> hb_status \<Rightarrow> hb_status \<Rightarrow> gotime \<Rightarrow> db \<Rightarrow> bool \<times> db" where
  "status_if hid from_status to_status lastSeenAt d =
     (list_ex (status_observed hid from_status lastSeenAt) (t_hbs d),
      set_hb_rows (status_observed hid from_status lastSeenAt) (\<lambda>r. r\<lparr>hr_status := to_status\<rparr>) d)"

definition SetHeartbeatStatusIf :: "int \<Rightarrow> hb_status \<Rightarrow> hb_status \<Rightarrow> gotime \<Rightarrow> bool tx" where
  "SetHeartbeatStatusIf hid from_status to_status lastSeenAt =
     auto_stmt (status_if hid from_status to_status lastSeenAt)"

definition SetHeartbeatStatusIfAndEmit ::
  "int \<Rightarrow> hb_status \<Rightarrow> hb_status \<Rightarrow> gotime \<Rightarrow> event \<Rightarrow> bool tx" where
  "SetHeartbeatStatusIfAndEmit hid from_status to_status lastSeenAt ev = transact (
     bnd (stmt (status_if hid from_status to_status lastSeenAt)) (\<lambda>fired.
     if \<not> fired then ret (Rollback False)
     else bnd (emitEvent ev) (\<lambda>_. ret (Commit True))))"

section \<open>The ping log\<close>

definition scanPing :: "ping_row \<Rightarrow> ping" where
  "scanPing r =
     \<lparr>pg_id = pw_id r, pg_org = pw_org r, pg_hb = pw_hb r, pg_kind = pw_kind r, pg_exit = pw_exit r,
      pg_rid = pw_rid r, pg_duration = pw_duration r, pg_body = pw_body r, pg_created = pw_created r\<rparr>"

definition defaultListLimit :: nat where "defaultListLimit = 50"

definition listHeartbeatPings :: "int \<Rightarrow> int \<Rightarrow> int \<Rightarrow> ping list tx" where
  "listHeartbeatPings orgID hid limit =
     query (\<lambda>d. map scanPing (take (if limit \<le> 0 then defaultListLimit else nat limit)
       (filter (\<lambda>p. pw_org p = orgID) (hb_log hid d))))"

definition pruneHeartbeatPings :: "gotime \<Rightarrow> nat tx" where
  "pruneHeartbeatPings before =
     auto_stmt (\<lambda>d. (length (filter (\<lambda>p. pw_created p < before) (t_pings d)),
                    d\<lparr>t_pings := filter (\<lambda>p. \<not> pw_created p < before) (t_pings d)\<rparr>))"

end
