(* ===== verification/Store_Deliveries.thy ===== *)
theory Store_Deliveries
  imports Store_Emit
begin

text \<open>
  Notification channels and rules, the durable delivery queue and retention
  (\<^verbatim>\<open>internal/store/sqlite.go\<close>), and the queue the delivery worker of the notification
  package drives (\<^verbatim>\<open>internal/notify/worker.go\<close>).
\<close>

section \<open>Channels and rules\<close>

definition same_channel :: "channel \<Rightarrow> channel \<Rightarrow> bool" where
  "same_channel a b \<longleftrightarrow> ch_org a = ch_org b \<and> ch_name a = ch_name b"

definition nullIfEmpty :: "string \<Rightarrow> string option" where
  "nullIfEmpty s = (if s = [] then None else Some s)"

definition CreateChannel :: "channel \<Rightarrow> string \<Rightarrow> int tx" where
  "CreateChannel ch configBlob =
     bnd time_now (\<lambda>now.
     auto_stmt (\<lambda>d.
       case List.find (same_channel ch) (t_channels d) of
         Some c \<Rightarrow> (ch_id c,
            d\<lparr>t_channels := map (\<lambda>x. if same_channel ch x
                then x\<lparr>ch_kind := ch_kind ch, ch_config := nullIfEmpty configBlob\<rparr> else x) (t_channels d)\<rparr>)
       | None \<Rightarrow> (n_channels d,
            d\<lparr>t_channels := t_channels d @
                [ch\<lparr>ch_id := n_channels d, ch_config := nullIfEmpty configBlob, ch_created := now\<rparr>],
              n_channels := n_channels d + 1\<rparr>)))"

definition GetChannel :: "int \<Rightarrow> int \<Rightarrow> (channel \<times> string) tx" where
  "GetChannel orgID chID =
     bnd (query (\<lambda>d. List.find (\<lambda>c. ch_org c = orgID \<and> ch_id c = chID) (t_channels d))) (\<lambda>row.
     case row of
       None \<Rightarrow> throw ErrNotFound
     | Some c \<Rightarrow> ret (c, case ch_config c of None \<Rightarrow> [] | Some s \<Rightarrow> s))"

definition DeleteChannel :: "int \<Rightarrow> int \<Rightarrow> unit tx" where
  "DeleteChannel orgID chID = transact (
     bnd (exec_stmt (\<lambda>d. d\<lparr>t_rules := filter (\<lambda>r. \<not> (ru_org r = orgID \<and> ru_channel r = chID)) (t_rules d)\<rparr>)) (\<lambda>_.
     bnd (deleteAlertStates orgID al_channel chID) (\<lambda>_.
     bnd (exec_stmt (\<lambda>d. d\<lparr>t_deliveries := map (\<lambda>x. if dl_org x = orgID \<and> dl_channel x = chID \<and> dl_state x = DeliveryPending
            then x\<lparr>dl_state := DeliveryFailed\<rparr> else x) (t_deliveries d)\<rparr>)) (\<lambda>_.
     bnd (exec_stmt (\<lambda>d. d\<lparr>t_channels := filter (\<lambda>c. \<not> (ch_org c = orgID \<and> ch_id c = chID)) (t_channels d)\<rparr>)) (\<lambda>_.
     ret (Commit ()))))))"

definition same_rule :: "rule \<Rightarrow> rule \<Rightarrow> bool" where
  "same_rule a b \<longleftrightarrow>
     ru_org a = ru_org b \<and> ru_channel a = ru_channel b \<and> ru_event a = ru_event b \<and> ru_job a = ru_job b"

text \<open>\<^verbatim>\<open>repeatSeconds\<close>: the interval as stored; the rule's own interval is a duration.\<close>

definition repeatSeconds :: "duration option \<Rightarrow> int option" where
  "repeatSeconds r = map_option (\<lambda>d. quot d second) r"

definition CreateRule :: "rule \<Rightarrow> duration option \<Rightarrow> int tx" where
  "CreateRule r rep =
     bnd time_now (\<lambda>now.
     auto_stmt (\<lambda>d.
       case List.find (same_rule r) (t_rules d) of
         Some x \<Rightarrow> (ru_id x,
            d\<lparr>t_rules := map (\<lambda>x. if same_rule r x
                then x\<lparr>ru_enabled := ru_enabled r, ru_repeat := repeatSeconds rep\<rparr> else x) (t_rules d)\<rparr>)
       | None \<Rightarrow> (n_rules d,
            d\<lparr>t_rules := t_rules d @
                [r\<lparr>ru_id := n_rules d, ru_repeat := repeatSeconds rep, ru_created := now\<rparr>],
              n_rules := n_rules d + 1\<rparr>)))"

definition DeleteRule :: "int \<Rightarrow> int \<Rightarrow> unit tx" where
  "DeleteRule orgID ruleID =
     auto_stmt (\<lambda>d. ((), d\<lparr>t_rules := filter (\<lambda>r. \<not> (ru_org r = orgID \<and> ru_id r = ruleID)) (t_rules d)\<rparr>))"

definition MatchingRules :: "int \<Rightarrow> event_type \<Rightarrow> int \<Rightarrow> rule list tx" where
  "MatchingRules orgID typ jobID =
     query (\<lambda>d. sort_key ru_id (filter (rule_routes orgID typ jobID) (t_rules d)))"

section \<open>The delivery queue\<close>

text \<open>An older pending delivery on the channel that was not attempted yet, or only lately.\<close>

definition holds_back :: "gotime \<Rightarrow> duration \<Rightarrow> delivery \<Rightarrow> delivery \<Rightarrow> bool" where
  "holds_back now hold x old \<longleftrightarrow>
     dl_channel old = dl_channel x \<and> dl_state old = DeliveryPending \<and> dl_id old < dl_id x
     \<and> (case dl_first old of None \<Rightarrow> True | Some t \<Rightarrow> t > now + - hold)"

definition claimable :: "gotime \<Rightarrow> duration \<Rightarrow> db \<Rightarrow> delivery \<Rightarrow> bool" where
  "claimable now hold d x \<longleftrightarrow>
     dl_state x = DeliveryPending \<and> dl_next x \<le> now
     \<and> (hold \<le> 0 \<or> \<not> list_ex (holds_back now hold x) (t_deliveries d))"

definition claim_ids :: "gotime \<Rightarrow> duration \<Rightarrow> nat \<Rightarrow> db \<Rightarrow> int list" where
  "claim_ids now hold limit d =
     take limit (map dl_id (sort_key dl_id (filter (claimable now hold d) (t_deliveries d))))"

definition claim_delivery :: "gotime \<Rightarrow> duration \<Rightarrow> delivery \<Rightarrow> delivery" where
  "claim_delivery now lease x =
     x\<lparr>dl_attempts := dl_attempts x + 1, dl_next := now + lease,
       dl_first := (case dl_first x of None \<Rightarrow> Some now | Some t \<Rightarrow> Some t)\<rparr>"

definition claim_rows ::
  "gotime \<Rightarrow> duration \<Rightarrow> duration \<Rightarrow> nat \<Rightarrow> db \<Rightarrow> delivery list \<times> db" where
  "claim_rows now lease hold limit d =
     (let ids = claim_ids now hold limit d;
          claim = (\<lambda>x. if dl_id x \<in> set ids then claim_delivery now lease x else x)
      in (map (claim_delivery now lease) (filter (\<lambda>x. dl_id x \<in> set ids) (t_deliveries d)),
          d\<lparr>t_deliveries := map claim (t_deliveries d)\<rparr>))"

fun join_events :: "delivery list \<Rightarrow> (delivery \<times> event) list tx" where
  "join_events [] = ret []"
| "join_events (x # xs) =
     bnd (query (find_event (dl_event x))) (\<lambda>ev.
     case ev of
       None \<Rightarrow> throw DbError
     | Some e \<Rightarrow> bnd (join_events xs) (\<lambda>rest. ret ((x, e) # rest)))"

definition ClaimDueDeliveries ::
  "gotime \<Rightarrow> duration \<Rightarrow> duration \<Rightarrow> int \<Rightarrow> (delivery \<times> event) list tx" where
  "ClaimDueDeliveries now lease hold limit =
     (let n = (if limit \<le> 0 then 50 else nat limit) in
      transact (
        bnd (stmt (claim_rows now lease hold n)) (\<lambda>claimed.
        bnd (join_events claimed) (\<lambda>out. ret (Commit out)))))"

definition set_delivery :: "(delivery \<Rightarrow> bool) \<Rightarrow> (delivery \<Rightarrow> delivery) \<Rightarrow> db \<Rightarrow> db" where
  "set_delivery P f d = d\<lparr>t_deliveries := map (\<lambda>x. if P x then f x else x) (t_deliveries d)\<rparr>"

definition MarkDeliveryDelivered :: "int \<Rightarrow> unit tx" where
  "MarkDeliveryDelivered i =
     auto_stmt (\<lambda>d. ((), set_delivery (\<lambda>x. dl_id x = i) (\<lambda>x. x\<lparr>dl_state := DeliveryDelivered\<rparr>) d))"

definition RescheduleDelivery :: "int \<Rightarrow> gotime \<Rightarrow> unit tx" where
  "RescheduleDelivery i at =
     auto_stmt (\<lambda>d. ((), set_delivery (\<lambda>x. dl_id x = i \<and> dl_state x = DeliveryPending) (\<lambda>x. x\<lparr>dl_next := at\<rparr>) d))"

definition FailDelivery :: "int \<Rightarrow> unit tx" where
  "FailDelivery i =
     auto_stmt (\<lambda>d. ((), set_delivery (\<lambda>x. dl_id x = i) (\<lambda>x. x\<lparr>dl_state := DeliveryFailed\<rparr>) d))"

definition is_pending :: "int \<Rightarrow> delivery \<Rightarrow> bool" where
  "is_pending i x \<longleftrightarrow> dl_id x = i \<and> dl_state x = DeliveryPending"

definition FailDeliveryAndEmit :: "int \<Rightarrow> event \<Rightarrow> unit tx" where
  "FailDeliveryAndEmit i ev = transact (
     bnd (stmt (\<lambda>d. (list_ex (is_pending i) (t_deliveries d),
                    set_delivery (is_pending i) (\<lambda>x. x\<lparr>dl_state := DeliveryFailed\<rparr>) d))) (\<lambda>changed.
     if \<not> changed then ret (Rollback ())
     else bnd (emitEvent ev) (\<lambda>_. ret (Commit ()))))"

section \<open>The worker's queue\<close>

definition queue_Claim ::
  "gotime \<Rightarrow> duration \<Rightarrow> duration \<Rightarrow> int \<Rightarrow> (delivery \<times> event) list tx" where
  "queue_Claim now lease hold limit =
     bnd (attempt (ReleaseHeldAlerts now)) (\<lambda>_. ClaimDueDeliveries now lease hold limit)"

definition queue_MarkSent :: "delivery \<times> event \<Rightarrow> unit tx" where
  "queue_MarkSent x = MarkDeliveryDelivered (dl_id (fst x))"

definition queue_Retry :: "delivery \<times> event \<Rightarrow> gotime \<Rightarrow> unit tx" where
  "queue_Retry x at = RescheduleDelivery (dl_id (fst x)) at"

definition notification_failed :: "delivery \<times> event \<Rightarrow> event" where
  "notification_failed x =
     \<lparr>ev_id = 0, ev_org = dl_org (fst x), ev_type = NotificationFailed, ev_source = ''notify'',
      ev_payload = PText (event_name (ev_type (snd x))), ev_dedup = [], ev_created = 0, ev_detail = DNone\<rparr>"

definition queue_GiveUp :: "delivery \<times> event \<Rightarrow> unit tx" where
  "queue_GiveUp x =
     (if ev_type (snd x) = NotificationFailed then FailDelivery (dl_id (fst x))
      else FailDeliveryAndEmit (dl_id (fst x)) (notification_failed x))"

section \<open>Retention\<close>

definition prunable_event :: "gotime \<Rightarrow> db \<Rightarrow> event \<Rightarrow> bool" where
  "prunable_event before d e \<longleftrightarrow>
     ev_created e < before
     \<and> ev_id e \<notin> set (map dl_event (filter (\<lambda>x. dl_state x = DeliveryPending) (t_deliveries d)))
     \<and> ev_id e \<notin> set (List.map_filter al_held (t_alerts d))"

definition PruneEvents :: "gotime \<Rightarrow> nat tx" where
  "PruneEvents before =
     auto_stmt (\<lambda>d. (length (filter (prunable_event before d) (t_events d)),
                    d\<lparr>t_events := filter (\<lambda>e. \<not> prunable_event before d e) (t_events d)\<rparr>))"

definition PruneDeliveries :: "gotime \<Rightarrow> nat tx" where
  "PruneDeliveries before =
     auto_stmt (\<lambda>d. let old = (\<lambda>x. dl_created x < before \<and> dl_state x \<noteq> DeliveryPending)
                   in (length (filter old (t_deliveries d)),
                       d\<lparr>t_deliveries := filter (\<lambda>x. \<not> old x) (t_deliveries d)\<rparr>))"

end
