(* ===== verification/Store_Reads.thy ===== *)
theory Store_Reads
  imports Store_Accounts Store_Runs Store_Heartbeats Store_Deliveries
begin

text \<open>
  The reading side of the store (\<^verbatim>\<open>internal/store/sqlite.go\<close>): single rows and lists,
  each scoped to one organisation, which the API, the dashboard and the command line show.
\<close>

section \<open>Jobs and runs\<close>

text \<open>The rows that could be read, and the ones to name in the error.\<close>

definition scanJobs :: "job_row list \<Rightarrow> job list \<times> job_row list" where
  "scanJobs rows =
     (List.map_filter (\<lambda>r. case scanJob r of Inr j \<Rightarrow> Some j | Inl _ \<Rightarrow> None) rows,
      filter (\<lambda>r. case scanJob r of Inr _ \<Rightarrow> False | Inl _ \<Rightarrow> True) rows)"

definition or_none :: "'r option \<Rightarrow> ('r \<Rightarrow> 'a) \<Rightarrow> 'a tx" where
  "or_none row f = (case row of None \<Rightarrow> throw ErrNotFound | Some r \<Rightarrow> ret (f r))"

definition list_limit :: "int \<Rightarrow> nat" where
  "list_limit limit = (if limit \<le> 0 then defaultListLimit else nat limit)"

definition GetJobByName :: "int \<Rightarrow> string \<Rightarrow> job tx" where
  "GetJobByName orgID name =
     bnd (query (\<lambda>d. List.find (\<lambda>r. j_org (jr_job r) = orgID \<and> j_name (jr_job r) = name) (t_jobs d))) (\<lambda>row.
     case row of
       None \<Rightarrow> throw ErrNotFound
     | Some r \<Rightarrow> (case scanJob r of Inl e \<Rightarrow> throw e | Inr j \<Rightarrow> ret j))"

definition ListJobs :: "int \<Rightarrow> (job list \<times> job_row list) tx" where
  "ListJobs orgID =
     query (\<lambda>d. scanJobs (sort_key (\<lambda>r. j_id (jr_job r)) (filter (\<lambda>r. j_org (jr_job r) = orgID) (t_jobs d))))"

definition newest_first :: "('r \<Rightarrow> int) \<Rightarrow> 'r list \<Rightarrow> 'r list" where
  "newest_first key rows = rev (sort_key key rows)"

definition ListRuns :: "int \<Rightarrow> int \<Rightarrow> int \<Rightarrow> run list tx" where
  "ListRuns orgID jobID limit =
     query (\<lambda>d. map scanRun (take (list_limit limit)
       (newest_first rw_id (filter (\<lambda>r. rw_org r = orgID \<and> rw_job r = jobID) (t_runs d)))))"

definition GetRun :: "int \<Rightarrow> int \<Rightarrow> run tx" where
  "GetRun orgID runID =
     bnd (query (\<lambda>d. List.find (\<lambda>r. rw_org r = orgID \<and> rw_id r = runID) (t_runs d))) (\<lambda>row. or_none row scanRun)"

section \<open>Channels, rules and events\<close>

text \<open>A channel as it is listed: without its configuration.\<close>

definition scanChannel :: "channel \<Rightarrow> channel \<times> string" where
  "scanChannel c = (c\<lparr>ch_config := None\<rparr>, case ch_config c of None \<Rightarrow> [] | Some s \<Rightarrow> s)"

definition ListChannels :: "int \<Rightarrow> channel list tx" where
  "ListChannels orgID =
     query (\<lambda>d. map (\<lambda>c. fst (scanChannel c)) (sort_key ch_id (filter (\<lambda>c. ch_org c = orgID) (t_channels d))))"

definition ListRules :: "int \<Rightarrow> rule list tx" where
  "ListRules orgID = query (\<lambda>d. sort_key ru_id (filter (\<lambda>r. ru_org r = orgID) (t_rules d)))"

definition ListEvents :: "int \<Rightarrow> int \<Rightarrow> event list tx" where
  "ListEvents orgID limit =
     query (\<lambda>d. take (list_limit limit) (newest_first ev_id (filter (\<lambda>e. ev_org e = orgID) (t_events d))))"

section \<open>Heartbeats\<close>

definition ListHeartbeats :: "int \<Rightarrow> heartbeat list tx" where
  "ListHeartbeats orgID =
     query (\<lambda>d. map scanHeartbeat (sort_key hr_id (filter (\<lambda>r. hr_org r = orgID) (t_hbs d))))"

definition GetHeartbeatByName :: "int \<Rightarrow> string \<Rightarrow> heartbeat tx" where
  "GetHeartbeatByName orgID name =
     bnd (query (\<lambda>d. List.find (\<lambda>r. hr_org r = orgID \<and> hr_name r = name) (t_hbs d))) (\<lambda>row. or_none row scanHeartbeat)"

definition GetHeartbeat :: "int \<Rightarrow> int \<Rightarrow> heartbeat tx" where
  "GetHeartbeat orgID hid =
     bnd (query (\<lambda>d. List.find (\<lambda>r. hr_org r = orgID \<and> hr_id r = hid) (t_hbs d))) (\<lambda>row. or_none row scanHeartbeat)"

text \<open>A heartbeat event carries the heartbeat's name as its payload.\<close>

definition ListHeartbeatEvents :: "int \<Rightarrow> string \<Rightarrow> int \<Rightarrow> event list tx" where
  "ListHeartbeatEvents orgID name limit =
     query (\<lambda>d. take (list_limit limit) (newest_first ev_id
       (filter (\<lambda>e. ev_org e = orgID \<and> ev_source e = ''heartbeat'' \<and> ev_payload e = PText name) (t_events d))))"

end
