(* ===== verification/Store_Steps.thy ===== *)
theory Store_Steps
  imports Store_Reads
begin

text \<open>
  Every way the program writes to the database, as one datatype of operations, and the
  states that sequences of them reach from an empty database. Each operation is atomic for
  the others (a transaction or a single statement), so the concurrent workers, the watcher,
  the HTTP handlers, the delivery worker and the command line interleave as sequences of
  operations; any of them can also fail at any statement.
\<close>

section \<open>Operations and reachable states\<close>

datatype store_op =
    OpCreateJob job
  | OpUpdateJob job
  | OpDeleteJob int int
  | OpEnqueueRun int int
  | OpClaimRun string
  | OpFinishRun int run_status int int string event
  | OpReapRun int string event
  | OpRequeue
  | OpFailUnreadable int int string string
  | OpEmit event
  | OpCreateHeartbeat heartbeat
  | OpCreateHeartbeatIfAbsent heartbeat
  | OpDeleteHeartbeat int int
  | OpPing string ping_input gotime
  | OpMarkDown heartbeat event
  | OpCreateChannel channel string
  | OpDeleteChannel int int
  | OpCreateRule rule "duration option"
  | OpDeleteRule int int
  | OpReleaseHeld gotime
  | OpClaimDeliveries gotime duration duration int
  | OpDelivered int
  | OpReschedule int gotime
  | OpFailDelivery int
  | OpFailDeliveryAndEmit int event
  | OpPruneEvents gotime
  | OpPruneRuns gotime
  | OpPruneDeliveries gotime
  | OpPrunePings gotime
  | OpFinishRunOnly int run_status int string
  | OpSetStatus int hb_status
  | OpSetStatusIf int hb_status hb_status gotime
  | OpSetStatusIfAndEmit int hb_status hb_status gotime event
  | OpBootstrapOrg
  | OpSetPingKey int string
  | OpCreateUser int string string
  | OpCreateMembership int int string
  | OpCreateToken int string string
  | OpDeleteToken int int
  | OpPutSecret int string string

definition void :: "'a tx \<Rightarrow> unit tx" where
  "void m = bnd m (\<lambda>_. ret ())"

fun exec_op :: "store_op \<Rightarrow> unit tx" where
  "exec_op (OpCreateJob j) = void (CreateJob j)"
| "exec_op (OpUpdateJob j) = UpdateJob j"
| "exec_op (OpDeleteJob orgID i) = DeleteJob orgID i"
| "exec_op (OpEnqueueRun orgID i) = void (EnqueueRun orgID i)"
| "exec_op (OpClaimRun worker) = void (ClaimRun worker)"
| "exec_op (OpFinishRun i status exitCode attempts out ev) =
     void (FinishRunAndEmit i status exitCode attempts out ev)"
| "exec_op (OpReapRun i out ev) = void (ReapStaleRun i out ev)"
| "exec_op OpRequeue = void RequeueOrphanedRuns"
| "exec_op (OpFailUnreadable orgID i name out) = void (FailUnreadableJob orgID i name out)"
| "exec_op (OpEmit ev) = void (EmitEvent ev)"
| "exec_op (OpCreateHeartbeat hb) = void (CreateHeartbeat hb)"
| "exec_op (OpCreateHeartbeatIfAbsent hb) = void (createHeartbeatIfAbsent hb)"
| "exec_op (OpDeleteHeartbeat orgID i) = DeleteHeartbeat orgID i"
| "exec_op (OpPing token inp now) = void (recordHeartbeatPing token inp now)"
| "exec_op (OpMarkDown hb ev) = void (markHeartbeatDown hb ev)"
| "exec_op (OpCreateChannel ch blob) = void (CreateChannel ch blob)"
| "exec_op (OpDeleteChannel orgID i) = DeleteChannel orgID i"
| "exec_op (OpCreateRule r rep) = void (CreateRule r rep)"
| "exec_op (OpDeleteRule orgID i) = DeleteRule orgID i"
| "exec_op (OpReleaseHeld now) = void (ReleaseHeldAlerts now)"
| "exec_op (OpClaimDeliveries now lease hold limit) = void (ClaimDueDeliveries now lease hold limit)"
| "exec_op (OpDelivered i) = MarkDeliveryDelivered i"
| "exec_op (OpReschedule i at) = RescheduleDelivery i at"
| "exec_op (OpFailDelivery i) = FailDelivery i"
| "exec_op (OpFailDeliveryAndEmit i ev) = FailDeliveryAndEmit i ev"
| "exec_op (OpPruneEvents before) = void (PruneEvents before)"
| "exec_op (OpPruneRuns before) = void (PruneJobRuns before)"
| "exec_op (OpPruneDeliveries before) = void (PruneDeliveries before)"
| "exec_op (OpPrunePings before) = void (pruneHeartbeatPings before)"
| "exec_op (OpFinishRunOnly i status exitCode out) = FinishRun i status exitCode out"
| "exec_op (OpSetStatus i st) = SetHeartbeatStatus i st"
| "exec_op (OpSetStatusIf i st st' seen) = void (SetHeartbeatStatusIf i st st' seen)"
| "exec_op (OpSetStatusIfAndEmit i st st' seen ev) = void (SetHeartbeatStatusIfAndEmit i st st' seen ev)"
| "exec_op OpBootstrapOrg = void BootstrapDefaultOrg"
| "exec_op (OpSetPingKey orgID key) = setOrgPingKey orgID key"
| "exec_op (OpCreateUser orgID email hash) = void (CreateUser orgID email hash)"
| "exec_op (OpCreateMembership orgID userID role) = void (CreateMembership orgID userID role)"
| "exec_op (OpCreateToken orgID name hash) = void (CreateToken orgID name hash)"
| "exec_op (OpDeleteToken orgID i) = DeleteToken orgID i"
| "exec_op (OpPutSecret orgID name ct) = PutSecret orgID name ct"

text \<open>A step is an operation in some world: with some faults, some clock.\<close>

inductive store_step :: "db \<Rightarrow> store_op \<Rightarrow> db \<Rightarrow> bool" where
  step: "exec_op op d w = (r, d', w') \<Longrightarrow> store_step d op d'"

inductive_cases store_stepE: "store_step d op d'"

inductive reachable :: "db \<Rightarrow> bool" where
  start: "reachable empty_db"
| after: "reachable d \<Longrightarrow> store_step d op d' \<Longrightarrow> reachable d'"

lemma keeps_void [tx_rules]: "keeps I m \<Longrightarrow> keeps I (void m)"
  unfolding void_def by (intro tx_rules)

lemma keeps_step: "keeps I (exec_op op) \<Longrightarrow> store_step d op d' \<Longrightarrow> I d \<Longrightarrow> I d'"
  by (erule store_stepE) (rule keepsD)

lemma reachable_invariant:
  assumes "I empty_db" "\<And>op. keeps I (exec_op op)" "reachable d"
  shows "I d"
  using assms(3) by induction (use assms keeps_step in blast)+

section \<open>The queue never points at nothing\<close>

definition has_event :: "int \<Rightarrow> db \<Rightarrow> bool" where
  "has_event i d \<longleftrightarrow> list_ex (\<lambda>e. ev_id e = i) (t_events d)"

definition refs_ok :: "db \<Rightarrow> bool" where
  "refs_ok d \<longleftrightarrow>
     list_all (\<lambda>x. dl_state x = DeliveryPending \<longrightarrow> has_event (dl_event x) d) (t_deliveries d)
     \<and> list_all (\<lambda>a. case al_held a of None \<Rightarrow> True | Some i \<Rightarrow> has_event i d) (t_alerts d)"

lemma has_event_iff: "has_event i d \<longleftrightarrow> i \<in> ev_id ` set (t_events d)"
  by (auto simp: has_event_def list_ex_iff)

lemma refs_ok_iff:
  "refs_ok d \<longleftrightarrow>
     (\<forall>x \<in> set (t_deliveries d). dl_state x = DeliveryPending \<longrightarrow> dl_event x \<in> ev_id ` set (t_events d))
     \<and> (\<forall>a \<in> set (t_alerts d). \<forall>i. al_held a = Some i \<longrightarrow> i \<in> ev_id ` set (t_events d))"
  unfolding refs_ok_def list_all_iff has_event_iff
  by (intro conj_cong ball_cong refl) (auto split: option.split)

text \<open>The invariant depends on three tables; an update of another one keeps it.\<close>

lemma refs_ok_cong:
  "t_events d' = t_events d \<Longrightarrow> t_deliveries d' = t_deliveries d \<Longrightarrow> t_alerts d' = t_alerts d \<Longrightarrow>
   refs_ok d' = refs_ok d"
  by (simp add: refs_ok_iff)

lemma refs_ok_put_alert:
  assumes "refs_ok d" "held = None \<or> held = Some i \<and> has_event i d"
  shows "refs_ok (put_alert orgID chID jobID st held d)"
  using assms by (auto simp: refs_ok_iff put_alert_def has_event_iff)

lemma refs_ok_add_delivery:
  "refs_ok d \<Longrightarrow> has_event i d \<Longrightarrow> refs_ok (add_delivery orgID i chID now d)"
  by (auto simp: refs_ok_iff add_delivery_def has_event_iff)

lemma has_event_simps [simp]:
  "has_event i (put_alert orgID chID jobID st held d) = has_event i d"
  "has_event i (add_delivery orgID k chID now d) = has_event i d"
  "has_event i (set_job_rows orgID jobID f d) = has_event i d"
  by (simp_all add: has_event_def)

interpretation refs_enqueue: enqueue_invariant "\<lambda>d. refs_ok d \<and> has_event i d" i for i
  by unfold_locales (auto intro: refs_ok_put_alert refs_ok_add_delivery)

lemma refs_ok_add_event: "refs_ok d \<Longrightarrow> refs_ok (snd (add_event e d)) \<and> has_event (fst (add_event e d)) (snd (add_event e d))"
  by (auto simp: refs_ok_iff has_event_iff add_event_def)

text \<open>Composition where the second part relies on what the first established.\<close>

lemma keeps_bnd_dep:
  assumes "keeps I m" "triple I m R" "\<And>a. keeps (\<lambda>d. I d \<and> R a d) (f a)"
  shows "keeps I (bnd m f)"
  unfolding keeps_def
proof (intro allI impI)
  fix d w assume "I d"
  obtain r d1 w1 where 1: "m d w = (r, d1, w1)" using prod_cases3 by blast
  show "I (fst (snd (bnd m f d w)))"
  proof (cases r)
    case (Inl e)
    with 1 keepsD [OF assms(1) \<open>I d\<close> 1] show ?thesis by (simp add: bnd_def)
  next
    case (Inr a)
    with 1 have "I d1" "R a d1" using keepsD [OF assms(1) \<open>I d\<close>] tripleD [OF assms(2) \<open>I d\<close>] by auto
    with 1 Inr assms(3) [of a] show ?thesis by (auto simp: bnd_def keeps_def)
  qed
qed

lemma keeps_refs_record: "keeps refs_ok (recordEvent e)"
proof -
  have enq: "keeps (\<lambda>d. refs_ok d \<and> has_event i d) (let e3 = e2\<lparr>ev_id := i\<rparr> in
      bnd (enqueueDeliveries e3 jobID s) (\<lambda>_. ret e3))" for i e2 jobID s
    unfolding Let_def by (intro tx_rules refs_enqueue.keeps_enqueue) simp
  have add: "keeps refs_ok (stmt (add_event e2))" "triple refs_ok (stmt (add_event e2)) has_event" for e2
    using refs_ok_add_event by (auto intro: keeps_stmt triple_stmt)
  have streak: "keeps refs_ok (streakOf e1 at)" for e1 at
    by (rule keeps_streakOf) (simp_all add: refs_ok_iff)
  show ?thesis
    unfolding recordEvent_def
    by (intro tx_rules streak) (auto simp: Let_def intro!: keeps_bnd_dep [OF add] enq [unfolded Let_def])
qed

lemma keeps_refs_emit: "keeps refs_ok (emitEvent e)"
  unfolding emitEvent_def by (intro tx_rules keeps_refs_record)

text \<open>The operations, one by one.\<close>

lemma refs_ok_frame:
  assumes "refs_ok d" "t_events d' = t_events d" "t_deliveries d' = t_deliveries d"
    and "set (t_alerts d') \<subseteq> set (t_alerts d) \<union> {a. al_held a = None}"
  shows "refs_ok d'"
  using assms by (auto simp: refs_ok_iff)

lemma keeps_refs_jobs:
  "keeps refs_ok (CreateJob j)" "keeps refs_ok (UpdateJob j)" "keeps refs_ok (DeleteJob orgID i)"
proof -
  show "keeps refs_ok (CreateJob j)"
    unfolding CreateJob_def by (intro tx_rules keeps_auto_stmt) (auto simp: refs_ok_iff)
  show "keeps refs_ok (UpdateJob j)"
    unfolding UpdateJob_def by (intro tx_rules keeps_auto_stmt) (auto simp: refs_ok_iff)
  show "keeps refs_ok (DeleteJob orgID i)"
    unfolding DeleteJob_def deleteAlertStates_def
    by (intro keeps_transact_body tx_rules keeps_refs_emit) (auto simp: refs_ok_iff)
qed

lemma refs_ok_run_rows [simp]: "refs_ok (set_run_rows P f d) = refs_ok d"
  by (simp add: refs_ok_iff set_run_rows_def)

lemma refs_ok_job_rows [simp]: "refs_ok (set_job_rows orgID i f d) = refs_ok d"
  by (simp add: refs_ok_iff)

lemma refs_ok_add_run [simp]: "refs_ok (snd (add_run r d)) = refs_ok d"
  by (simp add: refs_ok_iff add_run_def)

lemma refs_ok_streak_end [simp]: "refs_ok d \<Longrightarrow> refs_ok (clear_streak i d)" "refs_ok d \<Longrightarrow> refs_ok (drop_held i d)"
  by (auto simp: refs_ok_iff clear_streak_def drop_held_def split: option.split)

lemma keeps_refs_runs:
  "keeps refs_ok (EnqueueRun orgID i)" "keeps refs_ok (ClaimRun worker)"
  "keeps refs_ok (ReapStaleRun i out ev)" "keeps refs_ok RequeueOrphanedRuns"
  "keeps refs_ok (PruneJobRuns before)"
proof -
  show "keeps refs_ok (EnqueueRun orgID i)"
    unfolding EnqueueRun_def by (intro tx_rules keeps_auto_stmt) simp
  show "keeps refs_ok (ClaimRun worker)"
    unfolding ClaimRun_def claim_run_def
    by (intro tx_rules keeps_auto_stmt) (simp add: Let_def split: option.split)
  show "keeps refs_ok (ReapStaleRun i out ev)"
    unfolding ReapStaleRun_def by (intro keeps_transact_body tx_rules keeps_stmt keeps_refs_emit) simp
  show "keeps refs_ok RequeueOrphanedRuns"
    unfolding RequeueOrphanedRuns_def by (intro keeps_auto_stmt) simp
  show "keeps refs_ok (PruneJobRuns before)"
    unfolding PruneJobRuns_def by (intro keeps_auto_stmt) (simp add: refs_ok_iff)
qed

lemma keeps_refs_finish: "keeps refs_ok (FinishRunAndEmit i status exitCode attempts out ev)"
  unfolding FinishRunAndEmit_def finishRunTx_def finish_success_def endStreak_def dropHeld_def set_attempt_def
  by (intro keeps_transact_body tx_rules keeps_stmt keeps_refs_emit) simp_all

lemma keeps_refs_unreadable: "keeps refs_ok (FailUnreadableJob orgID i name out)"
  unfolding FailUnreadableJob_def Let_def
  by (intro keeps_transact_body tx_rules keeps_stmt keeps_refs_record) simp_all

lemma refs_ok_hb_rows [simp]: "refs_ok (set_hb_rows P f d) = refs_ok d" "refs_ok (add_hb hb now d) = refs_ok d"
  by (simp_all add: refs_ok_iff set_hb_rows_def add_hb_def)

lemma refs_ok_pings [simp]:
  "refs_ok (add_ping k inp dur now d) = refs_ok d" "refs_ok (trim_count i d) = refs_ok d"
  "refs_ok (trim_bytes i d) = refs_ok d"
  by (simp_all add: refs_ok_iff add_ping_def trim_count_def trim_bytes_def drop_upto_def
      split: prod.split option.split)

lemma keeps_refs_heartbeats:
  "keeps refs_ok (CreateHeartbeat hb)" "keeps refs_ok (createHeartbeatIfAbsent hb)"
  "keeps refs_ok (DeleteHeartbeat orgID i)" "keeps refs_ok (markHeartbeatDown hb ev)"
  "keeps refs_ok (pruneHeartbeatPings before)"
proof -
  show "keeps refs_ok (CreateHeartbeat hb)"
    unfolding CreateHeartbeat_def by (intro tx_rules keeps_auto_stmt) (simp split: option.split)
  show "keeps refs_ok (createHeartbeatIfAbsent hb)"
    unfolding createHeartbeatIfAbsent_def by (intro tx_rules keeps_auto_stmt) simp
  show "keeps refs_ok (DeleteHeartbeat orgID i)"
    unfolding DeleteHeartbeat_def
    by (intro keeps_transact_body tx_rules keeps_stmt keeps_refs_emit) (simp_all add: refs_ok_iff)
  show "keeps refs_ok (markHeartbeatDown hb ev)"
    unfolding markHeartbeatDown_def by (intro keeps_transact_body tx_rules keeps_stmt keeps_refs_emit) simp
  show "keeps refs_ok (pruneHeartbeatPings before)"
    unfolding pruneHeartbeatPings_def by (intro keeps_auto_stmt) (simp add: refs_ok_iff)
qed

lemma keeps_refs_ping: "keeps refs_ok (recordHeartbeatPing token inp now)"
proof -
  have upd: "keeps refs_ok (update_by_token token guard f)" for guard f
    unfolding update_by_token_def by (intro keeps_stmt) simp
  have state: "keeps refs_ok (ping_state token inp now)"
    unfolding ping_state_def update_transition_def
    by (cases "pi_kind inp") (simp_all, (intro tx_rules upd)+)
  show ?thesis
    unfolding recordHeartbeatPing_def runDuration_def
    by (intro tx_rules keeps_transact_body state keeps_refs_emit) simp_all
qed

lemma refs_ok_set_delivery:
  "refs_ok d \<Longrightarrow> (\<And>x. dl_state (f x) = DeliveryPending \<Longrightarrow> dl_state x = DeliveryPending) \<Longrightarrow>
   (\<And>x. dl_event (f x) = dl_event x) \<Longrightarrow> refs_ok (set_delivery P f d)"
  by (auto simp: refs_ok_iff set_delivery_def)

lemma keeps_refs_notify:
  "keeps refs_ok (CreateChannel ch blob)" "keeps refs_ok (DeleteChannel orgID i)"
  "keeps refs_ok (CreateRule r rep)" "keeps refs_ok (DeleteRule orgID i)"
proof -
  show "keeps refs_ok (CreateChannel ch blob)"
    unfolding CreateChannel_def by (intro tx_rules keeps_auto_stmt) (simp add: refs_ok_iff split: option.split)
  show "keeps refs_ok (DeleteChannel orgID i)"
    unfolding DeleteChannel_def deleteAlertStates_def
    by (intro keeps_transact_body tx_rules) (auto simp: refs_ok_iff)
  show "keeps refs_ok (CreateRule r rep)"
    unfolding CreateRule_def by (intro tx_rules keeps_auto_stmt) (simp add: refs_ok_iff split: option.split)
  show "keeps refs_ok (DeleteRule orgID i)"
    unfolding DeleteRule_def by (intro keeps_auto_stmt) (simp add: refs_ok_iff)
qed

lemma keeps_refs_deliveries:
  "keeps refs_ok (MarkDeliveryDelivered i)" "keeps refs_ok (RescheduleDelivery i at)"
  "keeps refs_ok (FailDelivery i)" "keeps refs_ok (FailDeliveryAndEmit i ev)"
  "keeps refs_ok (PruneEvents before)" "keeps refs_ok (PruneDeliveries before)"
proof -
  show "keeps refs_ok (MarkDeliveryDelivered i)"
    unfolding MarkDeliveryDelivered_def by (intro keeps_auto_stmt) (auto intro!: refs_ok_set_delivery)
  show "keeps refs_ok (RescheduleDelivery i at)"
    unfolding RescheduleDelivery_def by (intro keeps_auto_stmt) (auto intro!: refs_ok_set_delivery)
  show "keeps refs_ok (FailDelivery i)"
    unfolding FailDelivery_def by (intro keeps_auto_stmt) (auto intro!: refs_ok_set_delivery)
  show "keeps refs_ok (FailDeliveryAndEmit i ev)"
    unfolding FailDeliveryAndEmit_def
    by (intro keeps_transact_body tx_rules keeps_stmt keeps_refs_emit) (auto intro!: refs_ok_set_delivery)
  show "keeps refs_ok (PruneEvents before)"
    unfolding PruneEvents_def
    by (intro keeps_auto_stmt)
      (fastforce simp: refs_ok_iff prunable_event_def image_iff List.map_filter_def)
  show "keeps refs_ok (PruneDeliveries before)"
    unfolding PruneDeliveries_def by (intro keeps_auto_stmt) (auto simp: refs_ok_iff Let_def)
qed

lemma keeps_refs_claim: "keeps refs_ok (ClaimDueDeliveries now lease hold limit)"
proof -
  have join: "keeps refs_ok (join_events xs)" for xs
    by (induction xs) (auto intro!: tx_rules)
  have "refs_ok d \<Longrightarrow> refs_ok (snd (claim_rows now lease hold n d))" for d n
    by (auto simp: refs_ok_iff claim_rows_def claim_delivery_def Let_def)
  then show ?thesis
    unfolding ClaimDueDeliveries_def Let_def by (intro keeps_transact_body tx_rules keeps_stmt join)
qed

text \<open>A held failure is queued only after its event was found.\<close>

lemma keeps_refs_send:
  "keeps (\<lambda>d. refs_ok d \<and> has_event i d)
     (bnd (saveAlertState orgID chID jobID st None) (\<lambda>_. bnd (insertDelivery orgID i chID) (\<lambda>_. ret x)))"
  unfolding saveAlertState_def insertDelivery_def
  by (intro tx_rules) (auto intro: refs_ok_put_alert refs_ok_add_delivery)

lemma keeps_weaken: "keeps J m \<Longrightarrow> (\<And>d. I d \<Longrightarrow> J d) \<Longrightarrow> (\<And>d. J d \<Longrightarrow> I d) \<Longrightarrow> keeps I m"
  unfolding keeps_def by blast

lemma keeps_refs_drop: "keeps refs_ok (release_drop c)"
  unfolding release_drop_def
  by (intro tx_rules) (auto simp: refs_ok_iff forget_held_def)

lemma find_event_Some: "find_event i d = Some e \<Longrightarrow> e \<in> set (t_events d) \<and> ev_id e = i"
  unfolding find_event_def by (drule find_Some_iff_set) simp

lemma find_event_has: "find_event i d = Some e \<Longrightarrow> has_event i d"
  by (drule find_event_Some) (auto simp: has_event_iff)

lemma keeps_refs_locked: "keeps refs_ok (release_locked c now rep)"
proof -
  let ?R = "\<lambda>ev d. ev \<noteq> None \<longrightarrow> has_event (hc_event c) d"
  have send: "keeps refs_ok (bnd (query (find_event (hc_event c))) (\<lambda>ev.
      if ev = None then release_drop c
      else bnd (saveAlertState (hc_org c) (hc_channel c) (hc_job c) (Released now) None) (\<lambda>_.
           bnd (insertDelivery (hc_org c) (hc_event c) (hc_channel c)) (\<lambda>_. ret (Commit True)))))"
  proof (rule keeps_bnd_dep [where R = ?R])
    show "triple refs_ok (query (find_event (hc_event c))) ?R"
      by (rule triple_query) (auto intro: find_event_has)
    show "keeps (\<lambda>d. refs_ok d \<and> ?R ev d) (if ev = None then release_drop c
      else bnd (saveAlertState (hc_org c) (hc_channel c) (hc_job c) (Released now) None) (\<lambda>_.
           bnd (insertDelivery (hc_org c) (hc_event c) (hc_channel c)) (\<lambda>_. ret (Commit True))))" for ev
      by (cases ev) (simp_all add: keeps_refs_drop, rule keeps_weaken [OF keeps_refs_send], simp_all)
  qed (rule keeps_query)
  show ?thesis
    unfolding release_locked_def stillHeld_def alertState_def
    by (rule send keeps_refs_drop keeps_bnd keeps_query keeps_if keeps_case_prod keeps_ret)+
qed

lemma keeps_refs_release: "keeps refs_ok (ReleaseHeldAlerts now)"
proof -
  have one: "keeps refs_ok (releaseOne c now)" for c
    unfolding releaseOne_def stillHeld_def alertState_def failedRepeat_def
    by (rule keeps_transact_body keeps_refs_locked keeps_refs_drop keeps_bnd keeps_query keeps_if
        keeps_case_prod keeps_case_option keeps_ret)+
  have each: "keeps refs_ok (release_each cs now n f)" for cs n f
    by (induction cs arbitrary: n f) (auto intro!: tx_rules one)
  show ?thesis unfolding ReleaseHeldAlerts_def by (intro tx_rules each)
qed

text \<open>The account tables are a world of their own: nothing else depends on them.\<close>

lemma keeps_upd_accounts [tx_rules]: "(\<And>d x. I d \<Longrightarrow> I (d\<lparr>t_accounts := x\<rparr>)) \<Longrightarrow> keeps I (upd_accounts f)"
  unfolding upd_accounts_def by (rule keeps_auto_stmt) (simp add: case_prod_beta Let_def)

lemma keeps_accounts:
  assumes "\<And>d x. I d \<Longrightarrow> I (d\<lparr>t_accounts := x\<rparr>)"
  shows "keeps I BootstrapDefaultOrg" "keeps I (setOrgPingKey orgID key)" "keeps I (CreateUser orgID email hash)"
    "keeps I (CreateMembership orgID userID role)" "keeps I (CreateToken orgID name hash)"
    "keeps I (DeleteToken orgID i)" "keeps I (PutSecret orgID name ct)"
  unfolding BootstrapDefaultOrg_def setOrgPingKey_def CreateUser_def CreateMembership_def CreateToken_def
    DeleteToken_def PutSecret_def get_accounts_def or_db_error_def
  by (intro tx_rules assms; assumption)+

lemma keeps_refs_accounts:
  "keeps refs_ok BootstrapDefaultOrg" "keeps refs_ok (setOrgPingKey orgID key)" "keeps refs_ok (CreateUser orgID email hash)"
  "keeps refs_ok (CreateMembership orgID userID role)" "keeps refs_ok (CreateToken orgID name hash)"
  "keeps refs_ok (DeleteToken orgID i)" "keeps refs_ok (PutSecret orgID name ct)"
  by (rule keeps_accounts, simp add: refs_ok_iff)+

lemma keeps_refs_older:
  "keeps refs_ok (FinishRun i status exitCode out)" "keeps refs_ok (SetHeartbeatStatus i st)"
  "keeps refs_ok (SetHeartbeatStatusIf i st st' seen)" "keeps refs_ok (SetHeartbeatStatusIfAndEmit i st st' seen ev)"
  unfolding FinishRun_def finishRunTx_def SetHeartbeatStatus_def SetHeartbeatStatusIf_def
    SetHeartbeatStatusIfAndEmit_def status_if_def
  by (intro keeps_transact_body tx_rules keeps_stmt keeps_auto_stmt keeps_refs_emit; simp)+

lemma keeps_refs_op: "keeps refs_ok (exec_op op)"
proof -
  have "keeps refs_ok (EmitEvent ev)" for ev
    unfolding EmitEvent_def by (intro keeps_transact_body tx_rules keeps_refs_emit)
  then show ?thesis
    by (cases op) (simp_all add: keeps_void keeps_refs_jobs keeps_refs_runs keeps_refs_finish
      keeps_refs_unreadable keeps_refs_heartbeats keeps_refs_ping keeps_refs_notify
      keeps_refs_deliveries keeps_refs_claim keeps_refs_release keeps_refs_accounts keeps_refs_older)
qed

text \<open>
  C9: Whatever operations ran and wherever they failed, every pending delivery and every
  held failure points at an event that exists. So retention never removes an event that is
  still to be sent, and a claim never meets a delivery whose event is gone.
\<close>

theorem queue_refs_exist:
  assumes "reachable d"
  shows "refs_ok d"
proof (rule reachable_invariant [OF _ keeps_refs_op assms])
  show "refs_ok empty_db" by (simp add: refs_ok_def empty_db_def)
qed

abbreviation (input) quiet :: "gotime \<Rightarrow> world" where
  "quiet t \<equiv> \<lparr>w_faults = [], w_clock = t, w_steps = [], w_cancelled = [], w_json = (\<lambda>_. (0, 0))\<rparr>"

definition sample_ops :: "store_op list" where
  "sample_ops =
     [OpCreateChannel \<lparr>ch_id = 0, ch_org = 1, ch_name = ''c'', ch_kind = Webhook, ch_config = None, ch_created = 0\<rparr> ''x'',
      OpCreateRule \<lparr>ru_id = 0, ru_org = 1, ru_channel = 1, ru_event = HeartbeatMissed, ru_job = 0, ru_enabled = True,
        ru_repeat = None, ru_created = 0\<rparr> None,
      OpCreateHeartbeat (sample_hb\<lparr>hb_token := ''t''\<rparr>),
      OpPing ''t'' \<lparr>pi_kind = PingFail, pi_exit = Some 1, pi_rid = [], pi_body = ''boom''\<rparr> 7,
      OpPruneEvents 100]"

definition run_ops :: "store_op list \<Rightarrow> db \<Rightarrow> db" where
  "run_ops ops d = fold (\<lambda>op d. fst (snd (exec_op op d (quiet 5)))) ops d"

lemma reachable_run_ops: "reachable d \<Longrightarrow> reachable (run_ops ops d)"
proof (induction ops arbitrary: d)
  case (Cons op ops)
  obtain r d' w' where "exec_op op d (quiet 5) = (r, d', w')" using prod_cases3 by blast
  moreover from this Cons.prems have "reachable d'" by (blast intro: reachable.after store_step.step)
  ultimately show ?case using Cons.IH by (simp add: run_ops_def)
qed (simp add: run_ops_def)

theorem queue_refs_exist_witness:
  "refs_ok (run_ops sample_ops empty_db) \<and> length (t_deliveries (run_ops sample_ops empty_db)) = 1"
proof -
  have "length (t_deliveries (run_ops sample_ops empty_db)) = 1" by code_simp
  moreover have "reachable (run_ops sample_ops empty_db)" by (intro reachable_run_ops reachable.start)
  ultimately show ?thesis using queue_refs_exist by blast
qed

end
