(* ===== verification/Store_History.thy ===== *)
theory Store_History
  imports Store_Steps
begin

text \<open>
  The history the events tell agrees with the state of the tables. Each finished run has
  exactly one terminal event and an unfinished one has none; a heartbeat that is down has
  one more miss than it has recoveries, and one that is not has as many of each. Both are
  one argument about ledgers: rows with a level, and events that weigh on them.
\<close>

section \<open>Ledgers\<close>

definition weight :: "(event \<Rightarrow> int \<Rightarrow> int) \<Rightarrow> event list \<Rightarrow> int \<Rightarrow> int" where
  "weight delta es i = sum_list (map (\<lambda>e. delta e i) es)"

definition balanced ::
  "('r \<Rightarrow> int) \<Rightarrow> ('r \<Rightarrow> int) \<Rightarrow> (event \<Rightarrow> int \<Rightarrow> int) \<Rightarrow> 'r list \<Rightarrow> int \<Rightarrow> event list \<Rightarrow> bool" where
  "balanced key lvl delta rs n es \<longleftrightarrow>
     distinct (map key rs)
     \<and> (\<forall>r \<in> set rs. key r < n \<and> weight delta es (key r) = lvl r)
     \<and> (\<forall>e \<in> set es. \<forall>i. delta e i \<noteq> 0 \<longrightarrow> i < n)"

locale ledger =
  fixes key :: "'r \<Rightarrow> int" and lvl :: "'r \<Rightarrow> int" and delta :: "event \<Rightarrow> int \<Rightarrow> int"
  assumes recorded: "recorded_as e r \<Longrightarrow> delta r = delta e"
begin

abbreviation (input) ok :: "'r list \<Rightarrow> int \<Rightarrow> event list \<Rightarrow> bool" where
  "ok \<equiv> balanced key lvl delta"

lemma weight_append [simp]: "weight delta (es @ [e]) i = weight delta es i + delta e i"
  by (simp add: weight_def)

lemma weight_beyond:
  assumes "ok rs n es" "n \<le> i"
  shows "weight delta es i = 0"
proof -
  have "\<forall>e \<in> set es. delta e i = 0" using assms by (force simp: balanced_def)
  then show ?thesis unfolding weight_def by (induction es) auto
qed

text \<open>A change of rows together with an event that accounts for it.\<close>

lemma transfer:
  assumes "ok rs n es" "\<And>r. r \<in> set rs \<Longrightarrow> key (f r) = key r \<and> lvl (f r) = lvl r + delta e (key r)"
    and "\<And>i. delta e i \<noteq> 0 \<Longrightarrow> i < n"
  shows "ok (map f rs) n (es @ [e])"
proof -
  have "map key (map f rs) = map key rs" using assms(2) by simp
  with assms(1) have "distinct (map key (map f rs))" by (simp only: balanced_def)
  with assms show ?thesis by (auto simp: balanced_def)
qed

lemma neutral: "ok rs n es \<Longrightarrow> (\<And>i. delta e i = 0) \<Longrightarrow> ok rs n (es @ [e])"
  using transfer [of rs n es "\<lambda>r. r" e] by simp

lemma remap:
  assumes "ok rs n es" "\<And>r. r \<in> set rs \<Longrightarrow> key (f r) = key r \<and> lvl (f r) = lvl r"
  shows "ok (map f rs) n es"
proof -
  have "map key (map f rs) = map key rs" using assms(2) by simp
  with assms(1) have "distinct (map key (map f rs))" by (simp only: balanced_def)
  with assms show ?thesis by (auto simp: balanced_def)
qed

lemma remove: "ok rs n es \<Longrightarrow> ok (filter P rs) n es"
  by (auto simp: balanced_def distinct_map_filter)

lemma fresh:
  assumes "ok rs n es" "key r = n" "lvl r = 0"
  shows "ok (rs @ [r]) (n + 1) es"
proof -
  have "weight delta es n = 0" by (rule weight_beyond [OF assms(1)]) simp
  with assms show ?thesis by (fastforce simp: balanced_def)
qed

lemma fresh_event:
  assumes "ok rs n es" "key r = n" "lvl r = delta e n" "\<And>i. i \<noteq> n \<Longrightarrow> delta e i = 0"
  shows "ok (rs @ [r]) (n + 1) (es @ [e])"
proof -
  have "weight delta es n = 0" by (rule weight_beyond [OF assms(1)]) simp
  moreover have "\<forall>x \<in> set rs. delta e (key x) = 0" using assms(1,4) by (force simp: balanced_def)
  moreover have "i \<le> n" if "delta e i \<noteq> 0" for i using assms(4) that by force
  ultimately show ?thesis using assms by (fastforce simp: balanced_def)
qed

text \<open>Recording the event that is still owed settles the account.\<close>

lemma settle: "ok rs n (es @ [e]) \<Longrightarrow> recorded_as e r \<Longrightarrow> ok rs n (es @ [r])"
  using recorded [of e r] by (auto simp: balanced_def)

end

section \<open>Runs and their terminal events\<close>

definition ends_run :: "event \<Rightarrow> int \<Rightarrow> int" where
  "ends_run e i =
     (if ev_type e = RunSucceeded \<or> ev_type e = RunFailed
      then (case ev_payload e of PRun runID _ _ _ _ \<Rightarrow> if runID = i then 1 else 0 | _ \<Rightarrow> 0)
      else 0)"

definition run_level :: "run_row \<Rightarrow> int" where
  "run_level r = (if terminal (rw_status r) then 1 else 0)"

interpretation runs: ledger rw_id run_level ends_run
  by unfold_locales (auto simp: recorded_as_def ends_run_def fun_eq_iff)

definition runs_ok :: "db \<Rightarrow> bool" where
  "runs_ok d \<longleftrightarrow> balanced rw_id run_level ends_run (t_runs d) (n_runs d) (t_events d)"

section \<open>Heartbeats and their misses and recoveries\<close>

definition moves_heartbeat :: "event \<Rightarrow> int \<Rightarrow> int" where
  "moves_heartbeat e i =
     (case ev_type e of
        HeartbeatMissed \<Rightarrow> (case ev_detail e of DMiss m \<Rightarrow> if md_id m = i then 1 else 0 | _ \<Rightarrow> 0)
      | HeartbeatRecovered \<Rightarrow> (case ev_detail e of DHeartbeat h \<Rightarrow> if h = i then -1 else 0 | _ \<Rightarrow> 0)
      | _ \<Rightarrow> 0)"

definition hb_level :: "hb_row \<Rightarrow> int" where
  "hb_level r = (if hr_status r = HbDown then 1 else 0)"

interpretation hbs: ledger hr_id hb_level moves_heartbeat
  by unfold_locales (auto simp: recorded_as_def moves_heartbeat_def fun_eq_iff split: event_type.split)

definition hbs_ok :: "db \<Rightarrow> bool" where
  "hbs_ok d \<longleftrightarrow>
     balanced hr_id hb_level moves_heartbeat (t_hbs d) (n_hbs d) (t_events d)
     \<and> distinct (map hr_token (t_hbs d)) \<and> 0 < n_hbs d \<and> (\<forall>r \<in> set (t_hbs d). 0 < hr_id r)"

section \<open>Operations keep the history\<close>

text \<open>The tables agree with the events \<open>es\<close>; with the events recorded; with one more.\<close>

definition agrees :: "event list \<Rightarrow> db \<Rightarrow> bool" where
  "agrees es d \<longleftrightarrow>
     balanced rw_id run_level ends_run (t_runs d) (n_runs d) es
     \<and> balanced hr_id hb_level moves_heartbeat (t_hbs d) (n_hbs d) es
     \<and> distinct (map hr_token (t_hbs d)) \<and> 0 < n_hbs d \<and> (\<forall>r \<in> set (t_hbs d). 0 < hr_id r)"

definition history_ok :: "db \<Rightarrow> bool" where
  "history_ok d \<longleftrightarrow> agrees (t_events d) d"

definition owes :: "event \<Rightarrow> db \<Rightarrow> bool" where
  "owes e d \<longleftrightarrow> agrees (t_events d @ [e]) d"

lemma history_ok_iff: "history_ok d \<longleftrightarrow> runs_ok d \<and> hbs_ok d"
  by (auto simp: history_ok_def agrees_def runs_ok_def hbs_ok_def)

text \<open>The part of the database the history is about.\<close>

definition hist where
  "hist d = (t_runs d, n_runs d, t_hbs d, n_hbs d, t_events d)"

lemma hist_simps:
  "hist (set_job_rows orgID i f d) = hist d" "hist (put_alert orgID chID jobID st held d) = hist d"
  "hist (add_delivery orgID i chID now d) = hist d" "hist (clear_streak i d) = hist d"
  "hist (drop_held i d) = hist d" "hist (set_delivery P g d) = hist d" "hist (forget_held c d) = hist d"
  "hist (add_ping k inp dur now d) = hist d" "hist (trim_count i d) = hist d" "hist (trim_bytes i d) = hist d"
  "hist (snd (claim_rows now lease hold n d)) = hist d"
  by (simp_all add: hist_def set_job_rows_def put_alert_def add_delivery_def clear_streak_def drop_held_def
      set_delivery_def forget_held_def add_ping_def trim_count_def trim_bytes_def drop_upto_def
      claim_rows_def Let_def split: option.split prod.split)

lemma hist_update:
  "hist (d\<lparr>t_jobs := a\<rparr>) = hist d" "hist (d\<lparr>t_rules := b\<rparr>) = hist d" "hist (d\<lparr>t_alerts := c\<rparr>) = hist d"
  "hist (d\<lparr>t_deliveries := e\<rparr>) = hist d" "hist (d\<lparr>t_channels := f\<rparr>) = hist d" "hist (d\<lparr>t_pings := g\<rparr>) = hist d"
  "hist (d\<lparr>n_jobs := h\<rparr>) = hist d" "hist (d\<lparr>n_rules := h\<rparr>) = hist d" "hist (d\<lparr>n_channels := h\<rparr>) = hist d"
  by (simp_all add: hist_def)

lemma history_cong: "hist d' = hist d \<Longrightarrow> history_ok d' = history_ok d"
  by (simp add: hist_def history_ok_def agrees_def)

lemma owes_cong: "hist d' = hist d \<Longrightarrow> owes e d' = owes e d"
  by (simp add: hist_def owes_def agrees_def)

lemmas history_same [simp] = hist_simps [THEN history_cong] hist_update [THEN history_cong]
lemmas owes_same [simp] = hist_simps [THEN owes_cong] hist_update [THEN owes_cong]

text \<open>Steps that keep an invariant when they succeed, and their composition.\<close>

named_theorems inv_rules \<open>steps that keep an invariant when they succeed\<close>

lemma inv_bnd [inv_rules]: "triple I m (\<lambda>_. I) \<Longrightarrow> (\<And>a. triple I (f a) (\<lambda>_. I)) \<Longrightarrow> triple I (bnd m f) (\<lambda>_. I)"
  by (rule triple_bnd)

lemma inv_simple [inv_rules]:
  "triple I (ret a) (\<lambda>_. I)" "triple I (throw e) (\<lambda>_. I)" "triple I (query g) (\<lambda>_. I)"
  "triple I time_now (\<lambda>_. I)" "triple I get_json (\<lambda>_. I)"
  by (auto intro: triple_ret triple_throw triple_query triple_time_now triple_get_json)

lemma inv_exec [inv_rules]: "(\<And>d. I d \<Longrightarrow> I (f d)) \<Longrightarrow> triple I (exec_stmt f) (\<lambda>_. I)"
  by (rule triple_exec)

lemma inv_stmt: "(\<And>d. I d \<Longrightarrow> I (snd (f d))) \<Longrightarrow> triple I (stmt f) (\<lambda>_. I)"
  by (rule triple_stmt)

lemma triple_if [inv_rules]:
  "(c \<Longrightarrow> triple P a Q) \<Longrightarrow> (\<not> c \<Longrightarrow> triple P b Q) \<Longrightarrow> triple P (if c then a else b) Q"
  by simp

lemma triple_case_option [inv_rules]:
  "(x = None \<Longrightarrow> triple P a Q) \<Longrightarrow> (\<And>y. x = Some y \<Longrightarrow> triple P (b y) Q) \<Longrightarrow>
   triple P (case x of None \<Rightarrow> a | Some y \<Rightarrow> b y) Q"
  by (cases x) simp_all

lemma triple_case_prod [inv_rules]:
  "(\<And>y z. x = (y, z) \<Longrightarrow> triple P (a y z) Q) \<Longrightarrow> triple P (case x of (y, z) \<Rightarrow> a y z) Q"
  by (cases x) simp_all

lemma keeps_transact_inv: "triple I m (\<lambda>_. I) \<Longrightarrow> keeps I (transact m)"
  by (rule keeps_transact, erule triple_conseq) (auto split: outcome.split)

section \<open>Recording events\<close>

lemma untouched_hist:
  "untouched d' = untouched d \<Longrightarrow>
   t_runs d' = t_runs d \<and> n_runs d' = n_runs d \<and> t_hbs d' = t_hbs d \<and> n_hbs d' = n_hbs d"
  by (simp add: untouched_def)

lemma agrees_settle: "agrees (es @ [e]) d \<Longrightarrow> recorded_as e r \<Longrightarrow> agrees (es @ [r]) d"
  by (auto simp: agrees_def intro: runs.settle hbs.settle)

text \<open>An event that accounts for a change already made.\<close>

lemma record_owed: "triple (owes e) (recordEvent e) (\<lambda>_. history_ok)"
proof (rule tripleI)
  fix d w i d' w'
  assume h: "owes e d" and m: "recordEvent e d w = (Inr i, d', w')"
  from tripleD [OF recordEvent_effect [of "untouched d" "t_events d" "n_events d"] _ m]
  obtain r where u: "untouched d' = untouched d" "t_events d' = t_events d @ [r]" "recorded_as e r" by auto
  have "agrees (t_events d @ [r]) d" using h u(3) by (auto simp: owes_def intro: agrees_settle)
  with u(2) untouched_hist [OF u(1)] show "history_ok d'" by (simp add: history_ok_def agrees_def)
qed

lemma emit_owed: "triple (owes e) (emitEvent e) (\<lambda>_. history_ok)"
  unfolding emitEvent_def by (rule triple_bnd [OF record_owed]) (rule triple_ret)

text \<open>An event that neither ends a run nor moves a heartbeat is never owed.\<close>

definition neutral_event :: "event \<Rightarrow> bool" where
  "neutral_event e \<longleftrightarrow> (\<forall>i. ends_run e i = 0) \<and> (\<forall>i. moves_heartbeat e i = 0)"

lemma neutral_owes: "neutral_event e \<Longrightarrow> history_ok d \<Longrightarrow> owes e d"
  by (auto simp: neutral_event_def history_ok_def owes_def agrees_def intro: runs.neutral hbs.neutral)

lemma emit_neutral: "neutral_event e \<Longrightarrow> triple history_ok (emitEvent e) (\<lambda>_. history_ok)"
  by (rule triple_conseq [OF emit_owed]) (auto intro: neutral_owes)

section \<open>Runs\<close>

definition ends_run_as :: "int \<Rightarrow> run_status \<Rightarrow> event \<Rightarrow> bool" where
  "ends_run_as i status ev \<longleftrightarrow>
     ev_type ev = (if status = StatusSucceeded then RunSucceeded else RunFailed)
     \<and> (case ev_payload ev of PRun runID _ _ _ _ \<Rightarrow> runID = i | _ \<Rightarrow> False)"

lemma ends_run_as_weight:
  assumes "ends_run_as i status ev"
  shows "ends_run ev k = (if k = i then 1 else 0)" "moves_heartbeat ev k = 0"
  using assms by (auto simp: ends_run_as_def ends_run_def moves_heartbeat_def split: payload.splits if_splits)

lemma same_row: "distinct (map f xs) \<Longrightarrow> x \<in> set xs \<Longrightarrow> y \<in> set xs \<Longrightarrow> f x = f y \<Longrightarrow> x = y"
  by (auto simp: distinct_map inj_on_def)

lemma end_run_owes:
  assumes h: "history_ok d" and run: "list_ex (is_running i) (t_runs d)"
    and ev: "ends_run_as i status ev" and st: "terminal st"
  shows "owes ev (set_run_rows (is_running i) (end_run st x out now) d)"
proof -
  have bal: "balanced rw_id run_level ends_run (t_runs d) (n_runs d) (t_events d)"
    using h by (simp add: history_ok_def agrees_def)
  from run obtain r0 where r0: "r0 \<in> set (t_runs d)" "rw_id r0 = i" "rw_status r0 = StatusRunning"
    by (auto simp: list_ex_iff is_running_def)
  have lvl: "run_level (end_run st x out now r) = 1" "rw_id (end_run st x out now r) = rw_id r" for r
    using st by (simp_all add: run_level_def end_run_def)
  have "balanced rw_id run_level ends_run
      (map (\<lambda>r. if is_running i r then end_run st x out now r else r) (t_runs d)) (n_runs d) (t_events d @ [ev])"
  proof (rule runs.transfer [OF bal])
    fix r assume r: "r \<in> set (t_runs d)"
    have "r = r0" if "rw_id r = i"
      using bal r r0 that by (auto simp: balanced_def intro: same_row)
    moreover have "run_level r0 = 0" using r0(3) by (simp add: run_level_def terminal_def)
    ultimately show "rw_id (if is_running i r then end_run st x out now r else r) = rw_id r
      \<and> run_level (if is_running i r then end_run st x out now r else r) = run_level r + ends_run ev (rw_id r)"
      using r0 by (auto simp: lvl ends_run_as_weight [OF ev] is_running_def)
  next
    show "k < n_runs d" if "ends_run ev k \<noteq> 0" for k
      using that bal r0 by (auto simp: ends_run_as_weight [OF ev] balanced_def split: if_splits)
  qed
  moreover have "balanced hr_id hb_level moves_heartbeat (t_hbs d) (n_hbs d) (t_events d @ [ev])"
    using h by (intro hbs.neutral) (auto simp: history_ok_def agrees_def ends_run_as_weight [OF ev])
  ultimately show ?thesis
    using h by (simp add: owes_def history_ok_def agrees_def set_run_rows_def)
qed

lemma agrees_remap_runs:
  assumes "agrees es d" "\<And>r. P r \<Longrightarrow> rw_id (f r) = rw_id r \<and> run_level (f r) = run_level r"
  shows "agrees es (set_run_rows P f d)"
  using assms by (auto simp: agrees_def set_run_rows_def intro!: runs.remap)

lemma t_events_run_rows [simp]: "t_events (set_run_rows P f d) = t_events d"
  by (simp add: set_run_rows_def)

lemma owes_set_attempt: "owes ev d \<Longrightarrow> owes ev (set_attempt i n d)"
  unfolding owes_def set_attempt_def by (simp add: agrees_remap_runs run_level_def)

lemma finishRunTx_owes:
  assumes "ends_run_as i status ev" "terminal st"
  shows "triple history_ok (finishRunTx i st x out) (\<lambda>_. owes ev)"
proof -
  let ?upd = "\<lambda>now. stmt (\<lambda>d. (list_ex (is_running i) (t_runs d),
        set_run_rows (is_running i) (end_run st x out now) d))"
  have upd: "triple history_ok (?upd now) (\<lambda>changed d. changed \<longrightarrow> owes ev d)" for now
    by (rule triple_stmt) (auto intro: end_run_owes [OF _ _ assms])
  have rest: "triple (\<lambda>d. changed \<longrightarrow> owes ev d)
       (if changed then ret () else bnd (query (find_run i)) (\<lambda>row. if row = None then throw ErrRunGone else throw ErrRunNotRunning))
       (\<lambda>_. owes ev)" for changed
    by (auto intro!: triple_ret triple_bnd [where R = "\<lambda>_ _. True"] triple_query triple_throw)
  show ?thesis
    unfolding finishRunTx_def
    by (rule triple_bnd [OF triple_time_now [where Q = "\<lambda>_. history_ok"]]) (simp, rule triple_bnd [OF upd rest])
qed

lemma keeps_hist_finish:
  assumes "ends_run_as i status ev" "terminal status"
  shows "keeps history_ok (FinishRunAndEmit i status x attempts out ev)"
proof -
  have rec: "neutral_event (RecoveredEvent ev i)"
    by (simp add: neutral_event_def RecoveredEvent_def ends_run_def moves_heartbeat_def)
  have succ: "triple history_ok (finish_success i ev) (\<lambda>_. history_ok)"
    unfolding finish_success_def endStreak_def dropHeld_def
    by (intro inv_rules emit_neutral [OF rec]) simp_all
  have att: "triple (owes ev) (exec_stmt (set_attempt i attempts)) (\<lambda>_. owes ev)"
    by (rule inv_exec) (rule owes_set_attempt)
  have rest: "triple history_ok (bnd (if status = StatusSucceeded then finish_success i ev else ret ()) (\<lambda>_.
     ret (Commit k))) (\<lambda>_. history_ok)" for k
    by (intro inv_rules succ)
  show ?thesis
    unfolding FinishRunAndEmit_def
    by (rule keeps_transact_inv, rule triple_bnd [OF finishRunTx_owes [OF assms]],
        rule triple_bnd [OF att], rule triple_bnd [OF emit_owed], rule rest)
qed

lemma keeps_hist_reap:
  assumes "ends_run_as i StatusFailed ev"
  shows "keeps history_ok (ReapStaleRun i out ev)"
proof -
  have upd: "triple history_ok (stmt (\<lambda>d. (list_ex (is_running i) (t_runs d),
        set_run_rows (is_running i) (end_run StatusFailed (-1) out now) d)))
      (\<lambda>changed d. changed \<longrightarrow> owes ev d)" for now
    by (rule triple_stmt) (auto intro: end_run_owes [OF _ _ assms] simp: terminal_def)
  have rest: "triple (\<lambda>d. changed \<longrightarrow> owes ev d)
      (if \<not> changed then ret (Rollback False) else bnd (emitEvent ev) (\<lambda>_. ret (Commit True)))
      (\<lambda>r d. case r of Commit _ \<Rightarrow> history_ok d | Rollback _ \<Rightarrow> True)" for changed
    by (cases changed) (auto intro!: triple_ret triple_bnd [OF emit_owed])
  show ?thesis
    unfolding ReapStaleRun_def
    by (rule keeps_transact, rule triple_bnd [OF triple_time_now [where Q = "\<lambda>_. history_ok"]])
      (simp, rule triple_bnd [OF upd rest])
qed

lemma history_remove_runs: "history_ok d \<Longrightarrow> history_ok (d\<lparr>t_runs := filter P (t_runs d)\<rparr>)"
  by (simp add: history_ok_def agrees_def runs.remove)

lemma history_remap_runs:
  "history_ok d \<Longrightarrow> (\<And>r. P r \<Longrightarrow> rw_id (f r) = rw_id r \<and> run_level (f r) = run_level r) \<Longrightarrow>
   history_ok (set_run_rows P f d)"
  by (simp add: history_ok_def agrees_remap_runs)

lemma history_add_run: "history_ok d \<Longrightarrow> run_level r = 0 \<Longrightarrow> history_ok (snd (add_run r d))"
  by (auto simp: history_ok_def agrees_def add_run_def run_level_def intro!: runs.fresh)

lemma keeps_hist_runs:
  "keeps history_ok (EnqueueRun orgID i)" "keeps history_ok (ClaimRun worker)"
  "keeps history_ok RequeueOrphanedRuns" "keeps history_ok (PruneJobRuns before)"
proof -
  show "keeps history_ok (EnqueueRun orgID i)"
    unfolding EnqueueRun_def
    by (intro tx_rules keeps_auto_stmt history_add_run) (simp_all add: pending_run_def run_level_def terminal_def)
  show "keeps history_ok RequeueOrphanedRuns"
    unfolding RequeueOrphanedRuns_def
    by (intro keeps_auto_stmt) (auto intro!: history_remap_runs simp: orphaned_def run_level_def terminal_def)
  show "keeps history_ok (PruneJobRuns before)"
    unfolding PruneJobRuns_def by (intro keeps_auto_stmt) (simp add: Let_def history_remove_runs)
  show "keeps history_ok (ClaimRun worker)"
    unfolding ClaimRun_def
  proof (intro tx_rules keeps_auto_stmt)
    fix now d assume h: "history_ok d"
    show "history_ok (snd (claim_run worker now d))"
    proof (cases "oldest_pending d")
      case (Some r)
      then have r: "r \<in> set (t_runs d)" "rw_status r = StatusPending"
        unfolding oldest_pending_def by (auto dest!: find_Some_iff_set)
      let ?f = "\<lambda>x. x\<lparr>rw_status := StatusRunning, rw_claimed_by := Some worker, rw_started := Some now\<rparr>"
      have "map (\<lambda>x. if rw_id x = rw_id r then ?f x else x) (t_runs d)
          = map (\<lambda>x. if rw_id x = rw_id r \<and> rw_status x = StatusPending then ?f x else x) (t_runs d)"
        using h r by (intro map_cong refl) (auto simp: history_ok_def agrees_def balanced_def dest: same_row)
      then have "snd (claim_run worker now d)
          = set_run_rows (\<lambda>x. rw_id x = rw_id r \<and> rw_status x = StatusPending) ?f d"
        using Some by (simp add: claim_run_def Let_def set_run_rows_def)
      with h show ?thesis by (auto intro!: history_remap_runs simp: run_level_def terminal_def)
    qed (use h in \<open>simp add: claim_run_def\<close>)
  qed
qed

lemma keeps_hist_unreadable: "keeps history_ok (FailUnreadableJob orgID i name out)"
proof -
  let ?ev = "\<lambda>now k. (RunEvent (scanRun ((failed_run orgID i out now)\<lparr>rw_id := k\<rparr>)) name RunFailed StatusFailed (-1))
      \<lparr>ev_detail := UnreadableFailureDetail out\<rparr>"
  have add: "triple history_ok (stmt (add_run (failed_run orgID i out now))) (\<lambda>k. owes (?ev now k))" for now
  proof (rule triple_stmt)
    fix d assume h: "history_ok d"
    let ?e = "?ev now (n_runs d)"
    have w: "ends_run ?e k = (if k = n_runs d then 1 else 0)" "moves_heartbeat ?e k = 0" for k
      by (simp_all add: RunEvent_def scanRun_def ends_run_def moves_heartbeat_def)
    have r: "run_level ((failed_run orgID i out now)\<lparr>rw_id := k\<rparr>) = 1" for k
      by (simp add: run_level_def failed_run_def terminal_def)
    have "agrees (t_events d @ [?e]) (snd (add_run (failed_run orgID i out now) d))"
      using h unfolding history_ok_def agrees_def add_run_def
      by (auto simp: w r intro!: runs.fresh_event hbs.neutral)
    then show "owes (?ev now (fst (add_run (failed_run orgID i out now) d))) (snd (add_run (failed_run orgID i out now) d))"
      by (simp add: owes_def add_run_def)
  qed
  have rest: "triple history_ok (bnd (exec_stmt (set_job_rows orgID i f)) (\<lambda>_. ret (Commit rec))) (\<lambda>_. history_ok)" for f and rec :: event
    by (intro inv_rules) simp
  show ?thesis
    unfolding FailUnreadableJob_def Let_def
    by (rule keeps_transact_inv, rule triple_bnd [OF triple_time_now [where Q = "\<lambda>_. history_ok"]])
      (simp, rule triple_bnd [OF add], rule triple_bnd [OF record_owed rest])
qed

section \<open>Heartbeats\<close>

lemma agrees_remap_hbs:
  assumes "agrees es d" "\<And>r. P r \<Longrightarrow> hr_id (f r) = hr_id r \<and> hr_token (f r) = hr_token r \<and> hb_level (f r) = hb_level r"
  shows "agrees es (set_hb_rows P f d)"
proof -
  have "map hr_token (map (\<lambda>r. if P r then f r else r) (t_hbs d)) = map hr_token (t_hbs d)"
    using assms(2) by simp
  with assms(1) have "distinct (map hr_token (map (\<lambda>r. if P r then f r else r) (t_hbs d)))"
    by (simp only: agrees_def)
  moreover have "balanced hr_id hb_level moves_heartbeat (map (\<lambda>r. if P r then f r else r) (t_hbs d)) (n_hbs d) es"
    using assms by (intro hbs.remap) (auto simp: agrees_def)
  ultimately show ?thesis using assms by (auto simp: agrees_def set_hb_rows_def)
qed

text \<open>
  A guarded change of one heartbeat's status, picked out by a column that tells rows apart,
  together with the event that says so.
\<close>

lemma hb_change_owes:
  assumes h: "history_ok d" and r0: "r0 \<in> set (t_hbs d)" "P r0"
    and only: "\<And>r. r \<in> set (t_hbs d) \<Longrightarrow> P r \<Longrightarrow> r = r0"
    and f: "\<And>r. hr_id (f r) = hr_id r \<and> hr_token (f r) = hr_token r"
    and lvl: "hb_level (f r0) = hb_level r0 + c"
    and ev: "\<And>k. moves_heartbeat e k = (if k = hr_id r0 then c else 0)" "\<And>k. ends_run e k = 0"
  shows "owes e (set_hb_rows P f d)"
proof -
  have a: "agrees (t_events d) d" using h by (simp add: history_ok_def)
  have tok: "map hr_token (map (\<lambda>r. if P r then f r else r) (t_hbs d)) = map hr_token (t_hbs d)"
    using f by simp
  have "balanced hr_id hb_level moves_heartbeat (map (\<lambda>r. if P r then f r else r) (t_hbs d)) (n_hbs d)
      (t_events d @ [e])"
  proof (rule hbs.transfer)
    show "balanced hr_id hb_level moves_heartbeat (t_hbs d) (n_hbs d) (t_events d)"
      using a by (simp add: agrees_def)
    fix r assume r: "r \<in> set (t_hbs d)"
    have "r = r0" if "hr_id r = hr_id r0"
      using a r r0(1) that by (auto simp: agrees_def balanced_def intro: same_row)
    with only [OF r] r0(2) show "hr_id (if P r then f r else r) = hr_id r
      \<and> hb_level (if P r then f r else r) = hb_level r + moves_heartbeat e (hr_id r)"
      using f lvl ev by auto
  next
    fix k assume "moves_heartbeat e k \<noteq> 0"
    then show "k < n_hbs d" using a r0(1) by (auto simp: ev agrees_def balanced_def split: if_splits)
  qed
  moreover have "balanced rw_id run_level ends_run (t_runs d) (n_runs d) (t_events d @ [e])"
    using a ev by (intro runs.neutral) (auto simp: agrees_def)
  moreover have "distinct (map hr_token (map (\<lambda>r. if P r then f r else r) (t_hbs d)))"
    using a by (simp only: tok agrees_def)
  ultimately show ?thesis using a f by (auto simp: owes_def agrees_def set_hb_rows_def)
qed

lemma t_events_hb_rows [simp]: "t_events (set_hb_rows P f d) = t_events d"
  by (simp add: set_hb_rows_def)

definition watcher_event :: "heartbeat \<Rightarrow> event \<Rightarrow> bool" where
  "watcher_event hb ev \<longleftrightarrow> hb_status hb \<noteq> HbDown \<and> (ev = OverdueEvent hb \<or> ev = OverranEvent hb)"

lemma keeps_hist_mark:
  assumes "watcher_event hb ev"
  shows "keeps history_ok (markHeartbeatDown hb ev)"
proof -
  have ev: "moves_heartbeat ev k = (if k = hb_id hb then 1 else 0)" "ends_run ev k = 0" for k
    using assms by (auto simp: watcher_event_def OverdueEvent_def OverranEvent_def MissedEvent_def plain_miss_def
        moves_heartbeat_def ends_run_def)
  have upd: "triple history_ok (stmt (\<lambda>d. (list_ex (as_observed hb) (t_hbs d), set_hb_rows (as_observed hb) take_down d)))
      (\<lambda>changed d. changed \<longrightarrow> owes ev d)"
  proof (rule triple_stmt, simp, rule impI)
    fix d assume h: "history_ok d" and "list_ex (as_observed hb) (t_hbs d)"
    then obtain r0 where r0: "r0 \<in> set (t_hbs d)" "as_observed hb r0" by (auto simp: list_ex_iff)
    show "owes ev (set_hb_rows (as_observed hb) take_down d)"
    proof (rule hb_change_owes [where P = "as_observed hb" and f = take_down and c = 1 and e = ev, OF h r0])
      show "r = r0" if "r \<in> set (t_hbs d)" "as_observed hb r" for r
        using h r0 that by (auto simp: history_ok_def agrees_def balanced_def as_observed_def intro: same_row)
      show "hb_level (take_down r0) = hb_level r0 + 1"
        using r0(2) assms by (auto simp: hb_level_def take_down_def as_observed_def watcher_event_def)
      show "moves_heartbeat ev k = (if k = hr_id r0 then 1 else 0)" for k
        using ev(1) [of k] r0(2) by (simp add: as_observed_def)
    qed (simp_all add: take_down_def ev)
  qed
  have rest: "triple (\<lambda>d. changed \<longrightarrow> owes ev d)
      (if \<not> changed then ret (Rollback False) else bnd (emitEvent ev) (\<lambda>_. ret (Commit True)))
      (\<lambda>r d. case r of Commit _ \<Rightarrow> history_ok d | Rollback _ \<Rightarrow> True)" for changed
    by (cases changed) (auto intro!: triple_ret triple_bnd [OF emit_owed])
  show ?thesis
    unfolding markHeartbeatDown_def by (rule keeps_transact, rule triple_bnd [OF upd rest])
qed


text \<open>A ping finds its heartbeat by the token and moves it with the event it makes.\<close>

definition moved_by :: "(int \<Rightarrow> int \<Rightarrow> string \<Rightarrow> event) \<Rightarrow> hb_key option \<times> bool \<Rightarrow> db \<Rightarrow> bool" where
  "moved_by ev r d =
     (case r of
        (Some (hid, orgID, name), True) \<Rightarrow> owes (ev orgID hid name) d
      | _ \<Rightarrow> history_ok d)"

lemma update_transition_owes:
  assumes f: "\<And>r. hr_id (f r) = hr_id r \<and> hr_token (f r) = hr_token r"
    and lvl: "\<And>r. hb_level (f r) = hb_level r + (if guard r then c else 0)"
    and ev: "\<And>orgID hid name k. 0 < hid \<Longrightarrow> moves_heartbeat (ev orgID hid name) k = (if k = hid then c else 0)"
      "\<And>orgID hid name k. ends_run (ev orgID hid name) k = 0"
  shows "triple history_ok (update_transition token f guard) (moved_by ev)"
proof -
  let ?R = "\<lambda>k d. case k of
      Some (hid, orgID, name) \<Rightarrow> owes (ev orgID hid name) d
    | None \<Rightarrow> history_ok d \<and> (\<forall>r \<in> set (t_hbs d). hr_token r = token \<longrightarrow> \<not> guard r)"
  have first: "triple history_ok (update_by_token token guard f) ?R"
    unfolding update_by_token_def
  proof (rule triple_stmt)
    fix d assume h: "history_ok d"
    let ?P = "\<lambda>r. hr_token r = token \<and> guard r"
    show "?R (fst (map_option (\<lambda>r. (hr_id r, hr_org r, hr_name r)) (List.find ?P (t_hbs d)), set_hb_rows ?P f d))
       (snd (map_option (\<lambda>r. (hr_id r, hr_org r, hr_name r)) (List.find ?P (t_hbs d)), set_hb_rows ?P f d))"
    proof (cases "List.find ?P (t_hbs d)")
      case None
      then have none: "\<forall>r \<in> set (t_hbs d). \<not> ?P r" by (auto simp: find_None_iff)
      then have "map (\<lambda>r. if ?P r then f r else r) (t_hbs d) = t_hbs d" by (intro map_idI) auto
      then have "set_hb_rows ?P f d = d" unfolding set_hb_rows_def by simp
      with None none h show ?thesis by auto
    next
      case (Some r0)
      then have r0: "r0 \<in> set (t_hbs d)" "?P r0" by (auto dest!: find_Some_iff_set)
      have pos: "0 < hr_id r0" using h r0(1) by (simp add: history_ok_def agrees_def)
      have "owes (ev (hr_org r0) (hr_id r0) (hr_name r0)) (set_hb_rows ?P f d)"
      proof (rule hb_change_owes [where P = ?P and f = f and c = c and e = "ev (hr_org r0) (hr_id r0) (hr_name r0)", OF h r0])
        show "r = r0" if "r \<in> set (t_hbs d)" "?P r" for r
          using h r0 that by (auto simp: history_ok_def agrees_def intro: same_row)
      qed (use f lvl ev r0 pos in auto)
      with Some show ?thesis by simp
    qed
  qed
  have second: "triple (\<lambda>d. history_ok d \<and> (\<forall>r \<in> set (t_hbs d). hr_token r = token \<longrightarrow> \<not> guard r))
      (update_by_token token (\<lambda>_. True) f) (\<lambda>_. history_ok)"
    unfolding update_by_token_def
  proof (rule triple_stmt, simp, erule conjE)
    fix d assume h: "history_ok d" and none: "\<forall>r \<in> set (t_hbs d). hr_token r = token \<longrightarrow> \<not> guard r"
    have "set_hb_rows (\<lambda>r. hr_token r = token) f d = set_hb_rows (\<lambda>r. hr_token r = token \<and> \<not> guard r) f d"
      using none by (auto simp: set_hb_rows_def)
    moreover have "history_ok (set_hb_rows (\<lambda>r. hr_token r = token \<and> \<not> guard r) f d)"
      using h f lvl by (auto simp: history_ok_def intro!: agrees_remap_hbs)
    ultimately show "history_ok (set_hb_rows (\<lambda>r. hr_token r = token) f d)" by simp
  qed
  show ?thesis
    unfolding update_transition_def
  proof (rule triple_bnd [OF first])
    fix k
    show "triple (?R k) (case k of Some k' \<Rightarrow> ret (Some k', True)
        | None \<Rightarrow> bnd (update_by_token token (\<lambda>_. True) f) (\<lambda>r'. ret (r', False))) (moved_by ev)"
      by (cases k) (auto simp: moved_by_def intro!: triple_ret triple_bnd [OF second] split: option.split)
  qed
qed

definition owes_some :: "event option \<Rightarrow> db \<Rightarrow> bool" where
  "owes_some e = (case e of None \<Rightarrow> history_ok | Some x \<Rightarrow> owes x)"

lemma ping_state_owes: "triple history_ok (ping_state token inp now) (\<lambda>r. owes_some (snd r))"
proof -
  have start: "triple history_ok (update_by_token token (\<lambda>_. True) (ping_start rid now)) (\<lambda>_. history_ok)" for rid
    unfolding update_by_token_def
    by (rule triple_stmt) (auto simp: history_ok_def ping_start_def hb_level_def intro!: agrees_remap_hbs)
  have succ: "triple history_ok (update_transition token (ping_success rid now) (\<lambda>r. hr_status r = HbDown))
      (moved_by HbRecoveredEvent)" for rid
    by (rule update_transition_owes [where c = "-1"])
      (simp_all add: ping_success_def hb_level_def HbRecoveredEvent_def moves_heartbeat_def ends_run_def)
  have fail: "triple history_ok (update_transition token (ping_fail now) (\<lambda>r. hr_status r \<noteq> HbDown))
      (moved_by (\<lambda>orgID hid name. FailedEvent orgID hid name x b))" for x b
    by (rule update_transition_owes [where c = "1"])
      (simp_all add: ping_fail_def hb_level_def FailedEvent_def MissedEvent_def moves_heartbeat_def ends_run_def)
  show ?thesis
    unfolding ping_state_def
    by (cases "pi_kind inp")
      (auto simp: owes_some_def moved_by_def intro!: triple_bnd [OF start] triple_bnd [OF succ] triple_bnd [OF fail]
        triple_bnd [where R = "\<lambda>_. history_ok"] triple_query triple_ret split: option.splits bool.splits)
qed

lemma owes_some_same [simp]:
  "owes_some e (add_ping k inp dur now d) = owes_some e d" "owes_some e (trim_count i d) = owes_some e d"
  "owes_some e (trim_bytes i d) = owes_some e d"
  by (simp_all add: owes_some_def split: option.split)

lemma emit_owed_some:
  "triple (owes_some e) (case e of None \<Rightarrow> ret () | Some x \<Rightarrow> bnd (emitEvent x) (\<lambda>_. ret ())) (\<lambda>_. history_ok)"
  by (cases e) (auto simp: owes_some_def intro!: triple_ret triple_bnd [OF emit_owed])

lemma keeps_hist_ping: "keeps history_ok (recordHeartbeatPing token inp now)"
proof -
  have rest: "triple (owes_some ev) (bnd (runDuration (fst k) inp now) (\<lambda>dur.
      bnd (exec_stmt (add_ping k inp dur now)) (\<lambda>_.
      bnd (exec_stmt (trim_count (fst k))) (\<lambda>_.
      bnd (exec_stmt (trim_bytes (fst k))) (\<lambda>_.
      bnd (case ev of None \<Rightarrow> ret () | Some e \<Rightarrow> bnd (emitEvent e) (\<lambda>_. ret ())) (\<lambda>_.
      ret (Commit res))))))) (\<lambda>_. history_ok)" for ev k and res :: ping_result
  proof -
    have dur: "triple (owes_some ev) (runDuration (fst k) inp now) (\<lambda>_. owes_some ev)"
      unfolding runDuration_def by (intro inv_rules)
    have st: "triple (owes_some ev) (exec_stmt f) (\<lambda>_. owes_some ev)"
      if "\<And>d. owes_some ev (f d) = owes_some ev d" for f
      using that by (intro inv_exec) simp
    show ?thesis
      by (rule triple_bnd [OF dur] triple_bnd [OF st] triple_bnd [OF emit_owed_some] triple_ret owes_some_same | assumption)+
  qed
  show ?thesis
    unfolding recordHeartbeatPing_def
    by (rule keeps_if, rule keeps_throw, rule keeps_transact_inv, rule triple_bnd [OF ping_state_owes])
      (rule triple_case_prod, hypsubst, unfold snd_conv, rule triple_case_option, rule triple_throw, rule rest)
qed

lemma keeps_hist_heartbeats:
  "keeps history_ok (CreateHeartbeat hb)" "keeps history_ok (createHeartbeatIfAbsent hb)"
  "keeps history_ok (DeleteHeartbeat orgID i)"
proof -
  have add: "history_ok (add_hb hb now d)" if "history_ok d" "\<not> token_taken (hb_token hb) d" for now d
    using that by (auto simp: history_ok_def agrees_def add_hb_def token_taken_def new_hb_row_def hb_level_def intro!: hbs.fresh)
  have upd: "history_ok (set_hb_rows P (\<lambda>r. r\<lparr>hr_period := p, hr_grace := g\<rparr>) d)" if "history_ok d" for P p g d
    using that by (auto simp: history_ok_def hb_level_def intro!: agrees_remap_hbs)
  show "keeps history_ok (CreateHeartbeat hb)"
    unfolding CreateHeartbeat_def by (intro tx_rules keeps_auto_stmt) (auto intro: add upd split: option.split)
  show "keeps history_ok (createHeartbeatIfAbsent hb)"
    unfolding createHeartbeatIfAbsent_def by (intro tx_rules keeps_auto_stmt) (auto intro: add)
  have del: "history_ok (d\<lparr>t_hbs := filter P (t_hbs d)\<rparr>)" if "history_ok d" for P d
    using that by (auto simp: history_ok_def agrees_def distinct_map_filter intro: hbs.remove)
  have "neutral_event (HbRemovedEvent orgID name)" for name
    by (simp add: neutral_event_def HbRemovedEvent_def ends_run_def moves_heartbeat_def)
  then show "keeps history_ok (DeleteHeartbeat orgID i)"
    unfolding DeleteHeartbeat_def
    by (intro keeps_transact_inv inv_rules inv_stmt emit_neutral) (simp_all add: del)
qed


section \<open>Jobs, channels, rules and the queue\<close>

text \<open>Operations that leave runs, heartbeats and events alone.\<close>

lemma keeps_same_hist: "(\<And>d. hist (snd (f d)) = hist d) \<Longrightarrow> keeps history_ok (auto_stmt f)"
  by (rule keeps_auto_stmt) (metis history_cong)

lemma keeps_hist_jobs:
  "keeps history_ok (CreateJob j)" "keeps history_ok (UpdateJob j)" "keeps history_ok (DeleteJob orgID i)"
proof -
  show "keeps history_ok (CreateJob j)"
    unfolding CreateJob_def by (intro tx_rules keeps_same_hist) (simp add: hist_def)
  show "keeps history_ok (UpdateJob j)"
    unfolding UpdateJob_def by (intro tx_rules keeps_same_hist) (simp add: hist_simps)
  have "neutral_event (JobRemovedEvent orgID i name)" for name
    by (simp add: neutral_event_def JobRemovedEvent_def ends_run_def moves_heartbeat_def)
  then show "keeps history_ok (DeleteJob orgID i)"
    unfolding DeleteJob_def deleteAlertStates_def
    by (intro keeps_transact_inv inv_rules emit_neutral) (simp_all add: history_remove_runs)
qed

lemma keeps_hist_notify:
  "keeps history_ok (CreateChannel ch blob)" "keeps history_ok (DeleteChannel orgID i)"
  "keeps history_ok (CreateRule r rep)" "keeps history_ok (DeleteRule orgID i)"
  "keeps history_ok (MarkDeliveryDelivered i)" "keeps history_ok (RescheduleDelivery i at)"
  "keeps history_ok (FailDelivery i)" "keeps history_ok (PruneDeliveries before)"
  "keeps history_ok (pruneHeartbeatPings before)"
proof -
  show "keeps history_ok (CreateChannel ch blob)"
    unfolding CreateChannel_def by (intro tx_rules keeps_same_hist) (simp add: hist_def split: option.split)
  show "keeps history_ok (DeleteChannel orgID i)"
    unfolding DeleteChannel_def deleteAlertStates_def by (intro keeps_transact_inv inv_rules) simp_all
  show "keeps history_ok (CreateRule r rep)"
    unfolding CreateRule_def by (intro tx_rules keeps_same_hist) (simp add: hist_def split: option.split)
  show "keeps history_ok (DeleteRule orgID i)"
    unfolding DeleteRule_def by (intro keeps_same_hist) (simp add: hist_def)
  show "keeps history_ok (MarkDeliveryDelivered i)"
    unfolding MarkDeliveryDelivered_def by (intro keeps_same_hist) (simp add: hist_simps)
  show "keeps history_ok (RescheduleDelivery i at)"
    unfolding RescheduleDelivery_def by (intro keeps_same_hist) (simp add: hist_simps)
  show "keeps history_ok (FailDelivery i)"
    unfolding FailDelivery_def by (intro keeps_same_hist) (simp add: hist_simps)
  show "keeps history_ok (PruneDeliveries before)"
    unfolding PruneDeliveries_def by (intro keeps_same_hist) (simp add: hist_def Let_def)
  show "keeps history_ok (pruneHeartbeatPings before)"
    unfolding pruneHeartbeatPings_def by (intro keeps_same_hist) (simp add: hist_def)
qed

lemma keeps_hist_queue:
  "keeps history_ok (ClaimDueDeliveries now lease hold limit)"
  "neutral_event ev \<Longrightarrow> keeps history_ok (FailDeliveryAndEmit i ev)"
  "neutral_event ev \<Longrightarrow> keeps history_ok (EmitEvent ev)"
proof -
  have join: "triple history_ok (join_events xs) (\<lambda>_. history_ok)" for xs
    by (induction xs) (auto intro!: inv_rules)
  show "keeps history_ok (ClaimDueDeliveries now lease hold limit)"
    unfolding ClaimDueDeliveries_def Let_def
    by (intro keeps_transact_inv inv_rules inv_stmt join) simp
  show "keeps history_ok (FailDeliveryAndEmit i ev)" if "neutral_event ev"
    unfolding FailDeliveryAndEmit_def
    by (intro keeps_transact_inv inv_rules inv_stmt emit_neutral that) simp
  show "keeps history_ok (EmitEvent ev)" if "neutral_event ev"
    unfolding EmitEvent_def by (intro keeps_transact_inv inv_rules emit_neutral that)
qed

lemma keeps_hist_release: "keeps history_ok (ReleaseHeldAlerts now)"
proof -
  have drop: "triple history_ok (release_drop c) (\<lambda>_. history_ok)" for c
    unfolding release_drop_def by (intro inv_rules) simp
  have lock: "triple history_ok (release_locked c now rep) (\<lambda>_. history_ok)" for c rep
    unfolding release_locked_def stillHeld_def alertState_def saveAlertState_def insertDelivery_def
    by (intro inv_rules drop) simp_all
  have one: "keeps history_ok (releaseOne c now)" for c
    unfolding releaseOne_def stillHeld_def alertState_def failedRepeat_def
    by (intro keeps_transact_inv inv_rules drop lock)
  have each: "keeps history_ok (release_each cs now n f)" for cs n f
    by (induction cs arbitrary: n f) (auto intro!: tx_rules one)
  show ?thesis unfolding ReleaseHeldAlerts_def by (intro tx_rules each)
qed


section \<open>What the program asks of the store\<close>

text \<open>
  The operations as the rest of the program issues them: the runner and the reaper end a run
  with that run's terminal event, the runner announces starts, the watcher takes down a
  heartbeat it observed up or new with the event it made of it, the delivery worker reports
  a failed notification. Retention of events is left out: it forgets history on purpose.
  The store's older transitions without an event, which nothing calls any more, are too.
\<close>

fun client_op :: "store_op \<Rightarrow> bool" where
  "client_op (OpFinishRun i status _ _ _ ev) \<longleftrightarrow> terminal status \<and> ends_run_as i status ev"
| "client_op (OpReapRun i _ ev) \<longleftrightarrow> ends_run_as i StatusFailed ev"
| "client_op (OpEmit ev) \<longleftrightarrow> ev_type ev = RunStarted"
| "client_op (OpMarkDown hb ev) \<longleftrightarrow> watcher_event hb ev"
| "client_op (OpFailDeliveryAndEmit _ ev) \<longleftrightarrow> ev_type ev = NotificationFailed"
| "client_op (OpPruneEvents _) \<longleftrightarrow> False"
| "client_op (OpFinishRunOnly _ _ _ _) \<longleftrightarrow> False"
| "client_op (OpSetStatus _ _) \<longleftrightarrow> False"
| "client_op (OpSetStatusIf _ _ _ _) \<longleftrightarrow> False"
| "client_op (OpSetStatusIfAndEmit _ _ _ _ _) \<longleftrightarrow> False"
| "client_op _ \<longleftrightarrow> True"

inductive client_reachable :: "db \<Rightarrow> bool" where
  client_start: "client_reachable empty_db"
| client_after: "client_reachable d \<Longrightarrow> client_op op \<Longrightarrow> store_step d op d' \<Longrightarrow> client_reachable d'"

lemma keeps_hist_accounts:
  "keeps history_ok BootstrapDefaultOrg" "keeps history_ok (setOrgPingKey orgID key)"
  "keeps history_ok (CreateUser orgID email hash)" "keeps history_ok (CreateMembership orgID userID role)"
  "keeps history_ok (CreateToken orgID name hash)" "keeps history_ok (DeleteToken orgID i)"
  "keeps history_ok (PutSecret orgID name ct)"
  by (rule keeps_accounts, simp add: history_ok_def agrees_def)+

lemma keeps_hist_op: "client_op op \<Longrightarrow> keeps history_ok (exec_op op)"
proof -
  have neutral: "neutral_event ev" if "ev_type ev = RunStarted \<or> ev_type ev = NotificationFailed" for ev
    using that by (auto simp: neutral_event_def ends_run_def moves_heartbeat_def)
  show "client_op op \<Longrightarrow> keeps history_ok (exec_op op)"
    by (cases op) (simp_all add: keeps_void keeps_hist_finish keeps_hist_reap keeps_hist_runs keeps_hist_unreadable
      keeps_hist_mark keeps_hist_ping keeps_hist_heartbeats keeps_hist_jobs keeps_hist_notify
      keeps_hist_queue keeps_hist_release keeps_hist_accounts neutral)
qed

lemma history_empty: "history_ok empty_db"
  by (simp add: history_ok_def agrees_def balanced_def empty_db_def)

lemma client_history:
  assumes "client_reachable d"
  shows "history_ok d"
  using assms
proof induction
  case (client_after d op d')
  then show ?case using keeps_step keeps_hist_op by blast
qed (rule history_empty)

definition terminal_event :: "int \<Rightarrow> event \<Rightarrow> bool" where
  "terminal_event i e \<longleftrightarrow> ends_run e i = 1"

definition miss_event :: "int \<Rightarrow> event \<Rightarrow> bool" where
  "miss_event i e \<longleftrightarrow> moves_heartbeat e i = 1"

definition recovery_event :: "int \<Rightarrow> event \<Rightarrow> bool" where
  "recovery_event i e \<longleftrightarrow> moves_heartbeat e i = -1"

lemma ends_run_cases: "ends_run e i = 0 \<or> ends_run e i = 1"
  by (auto simp: ends_run_def split: payload.split)

lemma moves_heartbeat_cases: "moves_heartbeat e i = 0 \<or> moves_heartbeat e i = 1 \<or> moves_heartbeat e i = -1"
  by (auto simp: moves_heartbeat_def split: event_type.split detail.split)

lemma weight_runs: "weight ends_run es i = int (length (filter (terminal_event i) es))"
proof (induction es)
  case (Cons e es)
  then show ?case using ends_run_cases [of e i] by (auto simp: weight_def terminal_event_def)
qed (simp add: weight_def)

lemma weight_heartbeats:
  "weight moves_heartbeat es i = int (length (filter (miss_event i) es)) - int (length (filter (recovery_event i) es))"
proof (induction es)
  case (Cons e es)
  then show ?case
    using moves_heartbeat_cases [of e i] by (auto simp: weight_def miss_event_def recovery_event_def)
qed (simp add: weight_def)


definition sample_run_event :: event where
  "sample_run_event =
     \<lparr>ev_id = 0, ev_org = 1, ev_type = RunFailed, ev_source = ''jobs'', ev_payload = PRun 1 1 ''j'' StatusFailed 3,
      ev_dedup = [], ev_created = 0, ev_detail = DNone\<rparr>"

definition run_history :: "store_op list" where
  "run_history =
     [OpCreateJob sample_job, OpEnqueueRun 1 1, OpEnqueueRun 1 1, OpClaimRun ''w'',
      OpFinishRun 1 StatusFailed 3 1 ''out'' sample_run_event,
      OpFinishRun 1 StatusFailed 3 1 ''out'' sample_run_event]"

lemma client_run_ops:
  "client_reachable d \<Longrightarrow> list_all client_op ops \<Longrightarrow> client_reachable (run_ops ops d)"
proof (induction ops arbitrary: d)
  case (Cons op ops)
  obtain r d' w' where "exec_op op d (quiet 5) = (r, d', w')" using prod_cases3 by blast
  moreover from this Cons.prems have "client_reachable d'" by (auto intro: client_after store_step.step)
  ultimately show ?case using Cons by (simp add: run_ops_def)
qed (simp add: run_ops_def)



definition hb_history :: "store_op list" where
  "hb_history =
     (let fail = OpPing ''t'' \<lparr>pi_kind = PingFail, pi_exit = Some 1, pi_rid = [], pi_body = ''boom''\<rparr>;
          success = OpPing ''t'' \<lparr>pi_kind = PingSuccess, pi_exit = None, pi_rid = [], pi_body = []\<rparr>
      in [OpCreateHeartbeat (sample_hb\<lparr>hb_token := ''t''\<rparr>), fail 7, fail 8, success 9, success 10, fail 11])"


end
