(* ===== verification/Store_RunLife.thy ===== *)
theory Store_RunLife
  imports Store_History
begin

text \<open>
  The life of a run. A property of the run table that survives the five changes the store
  ever makes to it survives every operation; two such properties are that a run's columns
  fit its status, and that the outcome of a finished run is final.
\<close>

section \<open>Properties of the run table\<close>

locale about_runs =
  fixes I :: "db \<Rightarrow> bool"
  assumes only_runs: "t_runs d' = t_runs d \<Longrightarrow> n_runs d' = n_runs d \<Longrightarrow> I d \<Longrightarrow> I d'"

sublocale about_runs \<subseteq> enq: enqueue_invariant I i for i
  by unfold_locales (erule only_runs [rotated 2]; simp add: put_alert_def add_delivery_def)+

context about_runs
begin

lemma keeps_record: "keeps I (recordEvent e)"
proof -
  have streak: "keeps I (streakOf e1 at)" for e1 at
    by (rule keeps_streakOf) (erule only_runs [rotated 2]; simp add: set_job_rows_def)+
  have add: "keeps I (stmt (add_event e2))" for e2
    by (rule keeps_stmt) (erule only_runs [rotated 2]; simp add: add_event_def)
  have enq: "keeps I (enqueueDeliveries e3 jobID s)" for e3 jobID s
    by (rule enq.keeps_enqueue) (rule refl)
  show ?thesis
    unfolding recordEvent_def Let_def by (intro tx_rules streak add enq)
qed

lemma keeps_emit: "keeps I (emitEvent e)"
  unfolding emitEvent_def by (intro tx_rules keeps_record)

lemma same_exec: "(\<And>d. t_runs (f d) = t_runs d \<and> n_runs (f d) = n_runs d) \<Longrightarrow> keeps I (exec_stmt f)"
  by (rule keeps_exec) (rule only_runs; simp)

lemma same_stmt: "(\<And>d. t_runs (snd (f d)) = t_runs d \<and> n_runs (snd (f d)) = n_runs d) \<Longrightarrow> keeps I (stmt f)"
  by (rule keeps_stmt) (rule only_runs; simp)

lemma same_auto: "(\<And>d. t_runs (snd (f d)) = t_runs d \<and> n_runs (snd (f d)) = n_runs d) \<Longrightarrow> keeps I (auto_stmt f)"
  by (rule keeps_auto_stmt) (rule only_runs; simp)

end

locale run_table = about_runs +
  assumes new_run: "I d \<Longrightarrow> r = pending_run orgID jobID now \<or> r = failed_run orgID jobID out now \<Longrightarrow> I (snd (add_run r d))"
    and claimed: "I d \<Longrightarrow> I (snd (claim_run worker now d))"
    and ended: "I d \<Longrightarrow> terminal st \<Longrightarrow> I (set_run_rows (is_running i) (end_run st x out now) d)"
    and counted: "I d \<Longrightarrow> terminal st \<Longrightarrow> list_ex (is_running i) (t_runs d) \<Longrightarrow>
      I (set_attempt i n (set_run_rows (is_running i) (end_run st x out now) d))"
    and requeued: "I d \<Longrightarrow> I (set_run_rows orphaned
      (\<lambda>r. r\<lparr>rw_status := StatusPending, rw_claimed_by := None, rw_started := None\<rparr>) d)"
    and removed: "I d \<Longrightarrow> I (d\<lparr>t_runs := filter P (t_runs d)\<rparr>)"

context run_table
begin

lemma finishTx_counted:
  assumes "terminal status"
  shows "triple I (finishRunTx i status x out) (\<lambda>_ d. I (set_attempt i n d))"
proof -
  have upd: "triple I (stmt (\<lambda>d. (list_ex (is_running i) (t_runs d), set_run_rows (is_running i) (end_run status x out now) d)))
      (\<lambda>changed d. changed \<longrightarrow> I (set_attempt i n d))" for now
    by (rule triple_stmt) (simp add: counted assms)
  have rest: "triple (\<lambda>d. changed \<longrightarrow> I (set_attempt i n d))
      (if changed then ret () else bnd (query (find_run i)) (\<lambda>row. if row = None then throw ErrRunGone else throw ErrRunNotRunning))
      (\<lambda>_ d. I (set_attempt i n d))" for changed
    by (auto intro!: triple_ret triple_bnd [where R = "\<lambda>_ _. True"] triple_query triple_throw)
  show ?thesis
    unfolding finishRunTx_def
    by (rule triple_bnd [OF triple_time_now [where Q = "\<lambda>_. I"]]) (simp, rule triple_bnd [OF upd rest])
qed

lemma keeps_finish:
  assumes "terminal status"
  shows "keeps I (FinishRunAndEmit i status x n out ev)" "keeps I (FinishRun i status x out)"
proof -
  have succ: "keeps I (finish_success i ev)"
    unfolding finish_success_def endStreak_def dropHeld_def
    by (intro tx_rules keeps_emit same_exec)
      (erule only_runs [rotated 2]; simp add: clear_streak_def drop_held_def split: option.split)+
  have rest: "triple I (bnd (emitEvent ev) (\<lambda>i'. bnd (if status = StatusSucceeded then finish_success i ev else ret ()) (\<lambda>_.
     ret (Commit i')))) (\<lambda>_. I)"
    by (rule triple_keeps) (intro tx_rules keeps_emit succ)
  show "keeps I (FinishRunAndEmit i status x n out ev)"
    unfolding FinishRunAndEmit_def
    by (rule keeps_transact_inv, rule triple_bnd [OF finishTx_counted [OF assms]],
        rule triple_bnd [OF triple_exec rest])
  show "keeps I (FinishRun i status x out)"
    unfolding FinishRun_def finishRunTx_def
    by (intro keeps_transact_body tx_rules keeps_stmt) (simp add: ended assms)
qed


lemma keeps_runs:
  "keeps I (EnqueueRun orgID i)" "keeps I (ClaimRun worker)" "keeps I RequeueOrphanedRuns"
  "keeps I (PruneJobRuns before)" "keeps I (ReapStaleRun i out ev)" "keeps I (FailUnreadableJob orgID i name out)"
proof -
  show "keeps I (EnqueueRun orgID i)"
    unfolding EnqueueRun_def by (intro tx_rules keeps_auto_stmt) (auto intro: new_run)
  show "keeps I (ClaimRun worker)"
    unfolding ClaimRun_def by (intro tx_rules keeps_auto_stmt claimed)
  show "keeps I RequeueOrphanedRuns"
    unfolding RequeueOrphanedRuns_def by (intro tx_rules keeps_auto_stmt) (simp add: requeued)
  show "keeps I (PruneJobRuns before)"
    unfolding PruneJobRuns_def by (intro keeps_auto_stmt) (simp add: Let_def removed)
  show "keeps I (ReapStaleRun i out ev)"
    unfolding ReapStaleRun_def
    by (intro keeps_transact_body tx_rules keeps_stmt keeps_emit) (simp add: ended terminal_def)
  show "keeps I (FailUnreadableJob orgID i name out)"
    unfolding FailUnreadableJob_def Let_def
    by (intro keeps_transact_body keeps_bnd keeps_time_now keeps_ret keeps_stmt keeps_record same_exec)
      (auto intro: new_run simp: set_job_rows_def)
qed

lemma keeps_jobs:
  "keeps I (CreateJob j)" "keeps I (UpdateJob j)" "keeps I (DeleteJob orgID i)"
proof -
  show "keeps I (CreateJob j)"
    unfolding CreateJob_def by (intro tx_rules same_auto) simp
  show "keeps I (UpdateJob j)"
    unfolding UpdateJob_def by (intro tx_rules same_auto) (simp add: set_job_rows_def)
  have del: "keeps I (exec_stmt (\<lambda>d. d\<lparr>t_runs := filter P (t_runs d)\<rparr>))" for P
    by (rule keeps_exec) (rule removed)
  show "keeps I (DeleteJob orgID i)"
    unfolding DeleteJob_def deleteAlertStates_def
    by (intro keeps_transact_body keeps_bnd keeps_query keeps_case_option keeps_throw keeps_ret keeps_emit
        del same_exec) simp_all
qed

lemma keeps_heartbeats:
  "keeps I (CreateHeartbeat hb)" "keeps I (createHeartbeatIfAbsent hb)" "keeps I (DeleteHeartbeat orgID i)"
  "keeps I (markHeartbeatDown hb ev)" "keeps I (pruneHeartbeatPings before)"
  "keeps I (SetHeartbeatStatus i st)" "keeps I (SetHeartbeatStatusIf i st st' seen)"
  "keeps I (SetHeartbeatStatusIfAndEmit i st st' seen ev)"
  unfolding CreateHeartbeat_def createHeartbeatIfAbsent_def DeleteHeartbeat_def markHeartbeatDown_def
    pruneHeartbeatPings_def SetHeartbeatStatus_def SetHeartbeatStatusIf_def SetHeartbeatStatusIfAndEmit_def status_if_def
  by (intro keeps_transact_body tx_rules same_auto same_stmt same_exec keeps_emit;
      simp add: set_hb_rows_def add_hb_def split: option.split)+

lemma keeps_ping: "keeps I (recordHeartbeatPing token inp now)"
proof -
  have upd: "keeps I (update_by_token token guard f)" for guard f
    unfolding update_by_token_def by (intro same_stmt) (simp add: set_hb_rows_def)
  have state: "keeps I (ping_state token inp now)"
    unfolding ping_state_def update_transition_def
    by (cases "pi_kind inp") (simp_all, (intro tx_rules upd)+)
  show ?thesis
    unfolding recordHeartbeatPing_def runDuration_def
    by (intro keeps_transact_body keeps_ret keeps_throw keeps_bnd keeps_if keeps_case_option keeps_case_prod keeps_query
        state keeps_emit same_exec)
      (simp_all add: add_ping_def trim_count_def trim_bytes_def drop_upto_def split: option.split prod.split)
qed

lemma keeps_notify:
  "keeps I (CreateChannel ch blob)" "keeps I (DeleteChannel orgID i)" "keeps I (CreateRule r rep)"
  "keeps I (DeleteRule orgID i)" "keeps I (MarkDeliveryDelivered i)" "keeps I (RescheduleDelivery i at)"
  "keeps I (FailDelivery i)" "keeps I (FailDeliveryAndEmit i ev)" "keeps I (PruneEvents before)"
  "keeps I (PruneDeliveries before)" "keeps I (EmitEvent ev)"
  unfolding CreateChannel_def DeleteChannel_def CreateRule_def DeleteRule_def MarkDeliveryDelivered_def
    RescheduleDelivery_def FailDelivery_def FailDeliveryAndEmit_def PruneEvents_def PruneDeliveries_def EmitEvent_def
    deleteAlertStates_def
  by (intro keeps_transact_body keeps_ret keeps_bnd keeps_if keeps_time_now same_auto same_stmt same_exec keeps_emit;
      simp add: set_delivery_def Let_def split: option.split)+

lemma keeps_claim: "keeps I (ClaimDueDeliveries now lease hold limit)"
proof -
  have join: "keeps I (join_events xs)" for xs
    by (induction xs) (auto intro!: tx_rules)
  show ?thesis
    unfolding ClaimDueDeliveries_def Let_def
    by (intro keeps_transact_body keeps_bnd join same_stmt keeps_ret) (simp add: claim_rows_def Let_def)
qed

lemma keeps_release: "keeps I (ReleaseHeldAlerts now)"
proof -
  have drop: "keeps I (release_drop c)" for c
    unfolding release_drop_def by (intro keeps_bnd keeps_ret same_exec) (simp add: forget_held_def)
  have lock: "keeps I (release_locked c now rep)" for c rep
    unfolding release_locked_def stillHeld_def alertState_def saveAlertState_def insertDelivery_def
    by (intro keeps_bnd keeps_query keeps_if keeps_case_prod keeps_ret keeps_time_now drop same_exec)
      (simp_all add: put_alert_def add_delivery_def)
  have one: "keeps I (releaseOne c now)" for c
    unfolding releaseOne_def stillHeld_def alertState_def failedRepeat_def
    by (intro keeps_transact_body tx_rules drop lock)
  have each: "keeps I (release_each cs now n f)" for cs n f
    by (induction cs arbitrary: n f) (auto intro!: tx_rules one)
  show ?thesis unfolding ReleaseHeldAlerts_def by (intro tx_rules each)
qed

lemma keeps_op:
  assumes "client_op op"
  shows "keeps I (exec_op op)"
proof -
  have acc: "keeps I BootstrapDefaultOrg" "keeps I (setOrgPingKey orgID key)" "keeps I (CreateUser orgID email hash)"
    "keeps I (CreateMembership orgID userID role)" "keeps I (CreateToken orgID name hash)"
    "keeps I (DeleteToken orgID i)" "keeps I (PutSecret orgID name ct)" for orgID userID key email hash role name i ct
    by (rule keeps_accounts, erule only_runs [rotated 2]; simp)+
  show ?thesis
    using assms
    by (cases op) (simp_all add: keeps_void keeps_finish keeps_runs keeps_jobs keeps_heartbeats keeps_ping keeps_notify
      keeps_claim keeps_release acc)
qed

end


section \<open>A run's columns fit its status\<close>

text \<open>
  A pending run is unclaimed and has no times, a running one has a claimant and a start but
  no end, a finished one has an end. Identifiers are distinct and never reused.
\<close>

definition run_wf :: "run_row \<Rightarrow> bool" where
  "run_wf r \<longleftrightarrow>
     (rw_status r = StatusPending \<longrightarrow> rw_claimed_by r = None \<and> rw_started r = None \<and> rw_ended r = None)
     \<and> (rw_status r = StatusRunning \<longrightarrow> rw_claimed_by r \<noteq> None \<and> rw_started r \<noteq> None \<and> rw_ended r = None)
     \<and> (terminal (rw_status r) \<longrightarrow> rw_claimed_by r \<noteq> None \<and> rw_started r \<noteq> None \<and> rw_ended r \<noteq> None)"

definition run_table_wf :: "db \<Rightarrow> bool" where
  "run_table_wf d \<longleftrightarrow>
     distinct (map rw_id (t_runs d)) \<and> list_all (\<lambda>r. rw_id r < n_runs d \<and> run_wf r) (t_runs d)"

lemma terminal_simps [simp]:
  "terminal StatusSucceeded" "terminal StatusFailed" "terminal StatusTimedOut"
  "\<not> terminal StatusPending" "\<not> terminal StatusRunning"
  by (simp_all add: terminal_def)

lemma run_rows_wf:
  assumes "run_table_wf d" "\<And>r. r \<in> set (t_runs d) \<Longrightarrow> P r \<Longrightarrow> run_wf r \<Longrightarrow> rw_id (f r) = rw_id r \<and> run_wf (f r)"
  shows "run_table_wf (set_run_rows P f d)"
proof -
  have "map rw_id (map (\<lambda>r. if P r then f r else r) (t_runs d)) = map rw_id (t_runs d)"
    using assms by (auto simp: run_table_wf_def list_all_iff)
  with assms(1) have "distinct (map rw_id (map (\<lambda>r. if P r then f r else r) (t_runs d)))"
    by (simp only: run_table_wf_def)
  with assms show ?thesis by (auto simp: run_table_wf_def list_all_iff set_run_rows_def)
qed

lemma claim_run_pending:
  assumes "distinct (map rw_id (t_runs d))"
  shows "snd (claim_run worker now d) = d \<or> (\<exists>i. snd (claim_run worker now d) =
      set_run_rows (\<lambda>x. rw_id x = i \<and> rw_status x = StatusPending)
        (\<lambda>x. x\<lparr>rw_status := StatusRunning, rw_claimed_by := Some worker, rw_started := Some now\<rparr>) d)"
proof (cases "oldest_pending d")
  case (Some r)
  then have r: "r \<in> set (t_runs d)" "rw_status r = StatusPending"
    unfolding oldest_pending_def by (auto dest!: find_Some_iff_set)
  have "rw_status x = StatusPending" if "x \<in> set (t_runs d)" "rw_id x = rw_id r" for x
    using same_row [OF assms that(1) r(1) that(2)] r(2) by simp
  then have eq: "map (\<lambda>x. if rw_id x = rw_id r then f x else x) (t_runs d)
      = map (\<lambda>x. if rw_id x = rw_id r \<and> rw_status x = StatusPending then f x else x) (t_runs d)" for f
    by (intro map_cong refl) auto
  have "snd (claim_run worker now d) = set_run_rows (\<lambda>x. rw_id x = rw_id r \<and> rw_status x = StatusPending)
        (\<lambda>x. x\<lparr>rw_status := StatusRunning, rw_claimed_by := Some worker, rw_started := Some now\<rparr>) d"
    by (simp only: claim_run_def Some option.case Let_def snd_conv set_run_rows_def eq)
  then show ?thesis by blast
qed (simp add: claim_run_def)

interpretation wf_runs: run_table run_table_wf
proof
  fix d d' :: db assume "t_runs d' = t_runs d" "n_runs d' = n_runs d" "run_table_wf d"
  then show "run_table_wf d'" by (simp add: run_table_wf_def)
next
  fix d r orgID jobID now out
  assume "run_table_wf d" "r = pending_run orgID jobID now \<or> r = failed_run orgID jobID out now"
  then show "run_table_wf (snd (add_run r d))"
    by (auto simp: run_table_wf_def list_all_iff add_run_def run_wf_def pending_run_def failed_run_def)
next
  fix d worker now assume wf: "run_table_wf d"
  then consider "snd (claim_run worker now d) = d" | i where "snd (claim_run worker now d) =
      set_run_rows (\<lambda>x. rw_id x = i \<and> rw_status x = StatusPending)
        (\<lambda>x. x\<lparr>rw_status := StatusRunning, rw_claimed_by := Some worker, rw_started := Some now\<rparr>) d"
    using claim_run_pending [of d worker now] by (auto simp: run_table_wf_def)
  then show "run_table_wf (snd (claim_run worker now d))"
  proof cases
    case (2 i)
    show ?thesis unfolding 2 by (rule run_rows_wf [OF wf]) (auto simp: run_wf_def)
  qed (use wf in simp)
next
  fix d st i x out now assume "run_table_wf d" "terminal st"
  then show "run_table_wf (set_run_rows (is_running i) (end_run st x out now) d)"
    by (auto intro!: run_rows_wf simp: is_running_def end_run_def run_wf_def)
next
  fix d st i x out now n assume "run_table_wf d" "terminal st"
  then show "run_table_wf (set_attempt i n (set_run_rows (is_running i) (end_run st x out now) d))"
    unfolding set_attempt_def by (auto intro!: run_rows_wf simp: is_running_def end_run_def run_wf_def)
next
  fix d assume "run_table_wf d"
  then show "run_table_wf (set_run_rows orphaned
      (\<lambda>r. r\<lparr>rw_status := StatusPending, rw_claimed_by := None, rw_started := None\<rparr>) d)"
    by (auto intro!: run_rows_wf simp: orphaned_def run_wf_def)
next
  fix d P assume "run_table_wf d"
  then show "run_table_wf (d\<lparr>t_runs := filter P (t_runs d)\<rparr>)"
    by (auto simp: run_table_wf_def list_all_iff distinct_map_filter)
qed

lemma client_invariant:
  assumes "I empty_db" "\<And>op. client_op op \<Longrightarrow> keeps I (exec_op op)" "client_reachable d"
  shows "I d"
  using assms(3) by induction (use assms keeps_step in blast)+

text \<open>
  C24: In every state the program can reach, the columns of every run fit its status: a
  pending run has no claimant and no times, a running one has a claimant and a start, a
  finished one has an end; and run identifiers are distinct.
\<close>

theorem run_columns_fit_status:
  assumes "client_reachable d"
  shows "run_table_wf d"
  by (rule client_invariant [OF _ wf_runs.keeps_op assms]) (simp add: run_table_wf_def empty_db_def)

theorem run_columns_fit_status_witness:
  "run_table_wf (run_ops run_history empty_db) \<and> length (t_runs (run_ops run_history empty_db)) = 2"
proof -
  have "client_reachable (run_ops run_history empty_db)"
    by (intro client_run_ops client_start)
      (simp add: run_history_def sample_run_event_def ends_run_as_def terminal_def)
  moreover have "length (t_runs (run_ops run_history empty_db)) = 2" by code_simp
  ultimately show ?thesis using run_columns_fit_status by blast
qed

section \<open>An outcome is final\<close>

definition outcome_kept :: "run_row \<Rightarrow> db \<Rightarrow> bool" where
  "outcome_kept r d \<longleftrightarrow>
     run_table_wf d \<and> rw_id r < n_runs d \<and> list_all (\<lambda>x. rw_id x = rw_id r \<longrightarrow> x = r) (t_runs d)"


lemma outcome_rows:
  assumes "outcome_kept r d" "run_table_wf (set_run_rows P f d)" "\<not> P r \<or> f r = r"
    "\<And>x. x \<in> set (t_runs d) \<Longrightarrow> P x \<Longrightarrow> rw_id (f x) = rw_id x"
  shows "outcome_kept r (set_run_rows P f d)"
  using assms by (auto simp: outcome_kept_def list_all_iff set_run_rows_def)

lemma outcome_table:
  assumes "terminal (rw_status r)"
  shows "run_table (outcome_kept r)"
proof
  fix d d' :: db assume "t_runs d' = t_runs d" "n_runs d' = n_runs d" "outcome_kept r d"
  then show "outcome_kept r d'" by (simp add: outcome_kept_def run_table_wf_def)
next
  fix d x orgID jobID now out
  assume "outcome_kept r d" "x = pending_run orgID jobID now \<or> x = failed_run orgID jobID out now"
  then show "outcome_kept r (snd (add_run x d))"
    using wf_runs.new_run [of d x orgID jobID now out] by (auto simp: outcome_kept_def add_run_def)
next
  fix d worker now assume k: "outcome_kept r d"
  then have wf: "run_table_wf (snd (claim_run worker now d))" by (auto simp: outcome_kept_def intro: wf_runs.claimed)
  have "distinct (map rw_id (t_runs d))" using k by (simp add: outcome_kept_def run_table_wf_def)
  from claim_run_pending [OF this, of worker now] show "outcome_kept r (snd (claim_run worker now d))"
  proof
    assume "\<exists>i. snd (claim_run worker now d) = set_run_rows (\<lambda>x. rw_id x = i \<and> rw_status x = StatusPending)
        (\<lambda>x. x\<lparr>rw_status := StatusRunning, rw_claimed_by := Some worker, rw_started := Some now\<rparr>) d"
    then show ?thesis using k wf assms by (auto intro!: outcome_rows)
  qed (use k in simp)
next
  fix d st i x out now assume k: "outcome_kept r d" "terminal st"
  then have wf: "run_table_wf (set_run_rows (is_running i) (end_run st x out now) d)"
    by (auto simp: outcome_kept_def intro: wf_runs.ended)
  show "outcome_kept r (set_run_rows (is_running i) (end_run st x out now) d)"
    by (rule outcome_rows [OF k(1) wf]) (use assms in \<open>auto simp: is_running_def end_run_def\<close>)
next
  fix d st i x out now n
  assume k: "outcome_kept r d" "terminal st" and run: "list_ex (is_running i) (t_runs d)"
  have wf1: "run_table_wf (set_run_rows (is_running i) (end_run st x out now) d)"
    using k by (auto simp: outcome_kept_def intro: wf_runs.ended)
  have k1: "outcome_kept r (set_run_rows (is_running i) (end_run st x out now) d)"
    by (rule outcome_rows [OF k(1) wf1]) (use assms in \<open>auto simp: is_running_def end_run_def\<close>)
  have wf2: "run_table_wf (set_attempt i n (set_run_rows (is_running i) (end_run st x out now) d))"
    using k run by (auto simp: outcome_kept_def intro: wf_runs.counted)
  have "rw_id r \<noteq> i"
    using k run assms by (auto simp: outcome_kept_def list_all_iff list_ex_iff is_running_def)
  then show "outcome_kept r (set_attempt i n (set_run_rows (is_running i) (end_run st x out now) d))"
    unfolding set_attempt_def by (intro outcome_rows [OF k1 wf2 [unfolded set_attempt_def]]) auto
next
  fix d assume k: "outcome_kept r d"
  then have wf: "run_table_wf (set_run_rows orphaned
      (\<lambda>r. r\<lparr>rw_status := StatusPending, rw_claimed_by := None, rw_started := None\<rparr>) d)"
    by (auto simp: outcome_kept_def intro: wf_runs.requeued)
  show "outcome_kept r (set_run_rows orphaned
      (\<lambda>r. r\<lparr>rw_status := StatusPending, rw_claimed_by := None, rw_started := None\<rparr>) d)"
    by (rule outcome_rows [OF k wf]) (use assms in \<open>auto simp: orphaned_def\<close>)
next
  fix d P assume "outcome_kept r d"
  then show "outcome_kept r (d\<lparr>t_runs := filter P (t_runs d)\<rparr>)"
    using wf_runs.removed [of d P] by (auto simp: outcome_kept_def list_all_iff)
qed

text \<open>The states that follow a given one.\<close>

inductive client_steps :: "db \<Rightarrow> db \<Rightarrow> bool" where
  client_refl: "client_steps d d"
| client_step: "client_steps d d' \<Longrightarrow> client_op op \<Longrightarrow> store_step d' op d'' \<Longrightarrow> client_steps d d''"

text \<open>
  C7: The outcome of a finished run is final. Whatever the program does afterwards, late
  results, the reaper and requeueing at a restart included, the run's row is unchanged
  (status, exit code, output, attempts and times) for as long as it exists.
\<close>

theorem finished_run_is_final:
  assumes "client_reachable d" "client_steps d d'"
    and "r \<in> set (t_runs d)" "terminal (rw_status r)" "x \<in> set (t_runs d')" "rw_id x = rw_id r"
  shows "x = r"
proof -
  have wf: "run_table_wf d"
    by (rule client_invariant [OF _ wf_runs.keeps_op assms(1)]) (simp add: run_table_wf_def empty_db_def)
  then have "outcome_kept r d"
    using assms(3) by (auto simp: outcome_kept_def run_table_wf_def list_all_iff intro: same_row)
  with assms(2) have "outcome_kept r d'"
  proof induction
    case (client_step d d' op d'')
    then show ?case
      using keeps_step run_table.keeps_op [OF outcome_table [OF assms(4)]] by blast
  qed simp
  with assms(5,6) show ?thesis by (auto simp: outcome_kept_def list_all_iff)
qed


definition late_ops :: "store_op list" where
  "late_ops =
     [OpRequeue, OpReapRun 1 ''reaped'' sample_run_event, OpClaimRun ''w'',
      OpFinishRun 1 StatusFailed 9 7 ''late'' sample_run_event]"

lemma client_steps_run_ops: "list_all client_op ops \<Longrightarrow> client_steps d d' \<Longrightarrow> client_steps d (run_ops ops d')"
proof (induction ops arbitrary: d')
  case (Cons op ops)
  obtain r d1 w1 where "exec_op op d' (quiet 5) = (r, d1, w1)" using prod_cases3 by blast
  moreover from this Cons.prems have "client_steps d d1" by (auto intro: client_step store_step.step)
  ultimately show ?case using Cons by (simp add: run_ops_def)
qed (simp add: run_ops_def)

theorem finished_run_is_final_witness:
  "hd (t_runs (run_ops late_ops (run_ops run_history empty_db))) = hd (t_runs (run_ops run_history empty_db))
   \<and> map rw_status (t_runs (run_ops late_ops (run_ops run_history empty_db))) = [StatusFailed, StatusRunning]"
proof -
  let ?d = "run_ops run_history empty_db" and ?d' = "run_ops late_ops (run_ops run_history empty_db)"
  have reach: "client_reachable ?d"
    by (intro client_run_ops client_start)
      (simp add: run_history_def sample_run_event_def ends_run_as_def terminal_def)
  have steps: "client_steps ?d ?d'"
    by (intro client_steps_run_ops client_refl)
      (simp add: late_ops_def sample_run_event_def ends_run_as_def terminal_def)
  have runs: "map (\<lambda>r. (rw_id r, rw_status r)) (t_runs ?d) = [(1, StatusFailed), (2, StatusPending)]" by code_simp
  have runs': "map (\<lambda>r. (rw_id r, rw_status r)) (t_runs ?d') = [(1, StatusFailed), (2, StatusRunning)]" by code_simp
  have "hd (t_runs ?d') = hd (t_runs ?d)"
    by (rule finished_run_is_final [OF reach steps]) (use runs runs' in auto)
  with runs' show ?thesis by auto
qed

end
