(* ===== verification/Store_Total.thy ===== *)
theory Store_Total
  imports Store_History
begin

text \<open>
  Success of operations. An operation may always fail with an error of the database; these
  rules show which ones succeed when none of their statements does, so that the properties
  of their results are not about executions that do not happen.
\<close>

section \<open>Operations that succeed\<close>

definition clean :: "world \<Rightarrow> bool" where
  "clean w \<longleftrightarrow> w_faults w = []"

definition succeeds :: "(db \<Rightarrow> bool) \<Rightarrow> 'a tx \<Rightarrow> bool" where
  "succeeds P m \<longleftrightarrow> (\<forall>d w. P d \<longrightarrow> clean w \<longrightarrow> (\<exists>a d' w'. m d w = (Inr a, d', w') \<and> clean w'))"

abbreviation always_succeeds :: "'a tx \<Rightarrow> bool" where
  "always_succeeds \<equiv> succeeds (\<lambda>_. True)"

named_theorems ok_rules \<open>operations that succeed when no statement fails\<close>

lemma succeedsD:
  assumes "succeeds P m" "P d" "clean w"
  obtains a d' w' where "m d w = (Inr a, d', w')" "clean w'"
  using assms unfolding succeeds_def by blast

lemma succeeds_weaken: "succeeds P m \<Longrightarrow> (\<And>d. Q d \<Longrightarrow> P d) \<Longrightarrow> succeeds Q m"
  unfolding succeeds_def by blast

lemma ok_ret [ok_rules]: "succeeds P (ret a)"
  by (simp add: succeeds_def ret_def)

lemma ok_stmt [ok_rules]: "succeeds P (stmt f)"
  by (simp add: succeeds_def stmt_def clean_def next_fault_def case_prod_beta Let_def)

lemma ok_query [ok_rules]: "succeeds P (query f)"
  unfolding query_def by (rule ok_stmt)

lemma ok_exec [ok_rules]: "succeeds P (exec_stmt f)"
  unfolding exec_stmt_def by (rule ok_stmt)

lemma ok_auto_stmt [ok_rules]: "succeeds P (auto_stmt f)"
  by (simp add: succeeds_def auto_stmt_def clean_def next_fault_def case_prod_beta Let_def)

lemma ok_time_now [ok_rules]: "succeeds P time_now"
  by (auto simp: succeeds_def time_now_def clean_def split: list.split)

lemma ok_get_json [ok_rules]: "succeeds P get_json"
  by (simp add: succeeds_def get_json_def)

lemma ok_ctx_err [ok_rules]: "succeeds P ctx_err"
  by (auto simp: succeeds_def ctx_err_def clean_def split: list.split)

lemma succeeds_bnd:
  assumes "succeeds P m" "triple P m R" "\<And>a. succeeds (R a) (f a)"
  shows "succeeds P (bnd m f)"
  unfolding succeeds_def
proof (intro allI impI)
  fix d w assume "P d" "clean w"
  with assms(1) obtain a d1 w1 where 1: "m d w = (Inr a, d1, w1)" "clean w1" by (blast elim: succeedsD)
  with assms(2) \<open>P d\<close> have "R a d1" by (meson tripleD)
  with assms(3) 1 obtain b d2 w2 where "f a d1 w1 = (Inr b, d2, w2)" "clean w2" by (blast elim: succeedsD)
  with 1 show "\<exists>b d' w'. bnd m f d w = (Inr b, d', w') \<and> clean w'" by (simp add: bnd_def)
qed

lemma ok_bnd [ok_rules]:
  assumes "always_succeeds m" "\<And>a. always_succeeds (f a)"
  shows "always_succeeds (bnd m f)"
  by (rule succeeds_bnd [OF assms(1) _ assms(2)]) (simp add: triple_def)

lemma ok_if [ok_rules]: "(c \<Longrightarrow> succeeds P a) \<Longrightarrow> (\<not> c \<Longrightarrow> succeeds P b) \<Longrightarrow> succeeds P (if c then a else b)"
  by simp

lemma ok_case_option [ok_rules]:
  "(x = None \<Longrightarrow> succeeds P a) \<Longrightarrow> (\<And>y. x = Some y \<Longrightarrow> succeeds P (b y)) \<Longrightarrow>
   succeeds P (case x of None \<Rightarrow> a | Some y \<Rightarrow> b y)"
  by (cases x) simp_all

lemma ok_case_prod [ok_rules]:
  "(\<And>y z. x = (y, z) \<Longrightarrow> succeeds P (a y z)) \<Longrightarrow> succeeds P (case x of (y, z) \<Rightarrow> a y z)"
  by (cases x) simp_all

lemma ok_for_each [ok_rules]: "(\<And>x. x \<in> set xs \<Longrightarrow> always_succeeds (f x)) \<Longrightarrow> always_succeeds (for_each xs f)"
  by (induction xs) (auto intro!: ok_rules)

lemma ok_transact [ok_rules]:
  assumes "succeeds P m"
  shows "succeeds P (transact m)"
  unfolding succeeds_def
proof (intro allI impI)
  fix d w assume "P d" "clean w"
  then have nf: "next_fault w = (NoFault, w)" by (simp add: clean_def next_fault_def)
  from assms \<open>P d\<close> \<open>clean w\<close> obtain r d1 w1 where 1: "m d w = (Inr r, d1, w1)" "clean w1"
    by (blast elim: succeedsD)
  then have "next_fault w1 = (NoFault, w1)" by (simp add: clean_def next_fault_def)
  with 1 nf show "\<exists>a d' w'. transact m d w = (Inr a, d', w') \<and> clean w'"
    by (cases r) (simp_all add: transact_def)
qed

text \<open>The value and the state a successful transaction ends in.\<close>

lemma triple_transact:
  assumes "triple P m (\<lambda>r d. case r of Commit a \<Rightarrow> Q a d | Rollback a \<Rightarrow> \<forall>d0. P d0 \<longrightarrow> Q a d0)"
  shows "triple P (transact m) Q"
proof (rule tripleI)
  fix d w a d' w' assume p: "P d" and t: "transact m d w = (Inr a, d', w')"
  from transact_success [OF t] show "Q a d'" using p tripleD [OF assms p] by fastforce
qed

section \<open>Recording events succeeds\<close>

lemma ok_enqueue [ok_rules]: "always_succeeds (enqueueDeliveries e jobID s)"
  unfolding enqueueDeliveries_def enqueue_one_def paced_def matchedChannels_def insertDelivery_def
    alertState_def saveAlertState_def failedRepeat_def Let_def case_prod_beta
  by (intro ok_rules)

lemma ok_record [ok_rules]: "always_succeeds (recordEvent e)"
  unfolding recordEvent_def streakOf_def afterSuccess_def Let_def by (intro ok_rules)

lemma ok_emit [ok_rules]: "always_succeeds (emitEvent e)"
  unfolding emitEvent_def by (intro ok_rules)

lemma ok_mark: "always_succeeds (markHeartbeatDown hb ev)"
  unfolding markHeartbeatDown_def by (intro ok_rules)

lemma ok_due: "always_succeeds (DueHeartbeats now)"
  unfolding DueHeartbeats_def by (intro ok_rules)

section \<open>Finishing a run\<close>

text \<open>What a finished run leaves in the tables.\<close>

definition finish_row :: "int \<Rightarrow> run_status \<Rightarrow> int \<Rightarrow> int \<Rightarrow> string \<Rightarrow> gotime \<Rightarrow> run_row \<Rightarrow> run_row" where
  "finish_row i status x n out now r =
     (if is_running i r
      then r\<lparr>rw_status := status, rw_exit := x, rw_output := out, rw_ended := Some now, rw_attempt := n\<rparr>
      else r)"

definition finish_written :: "int \<Rightarrow> run_status \<Rightarrow> int \<Rightarrow> int \<Rightarrow> string \<Rightarrow> event \<Rightarrow> db \<Rightarrow> db \<Rightarrow> bool" where
  "finish_written i status x n out ev d d' \<longleftrightarrow>
     list_ex (is_running i) (t_runs d)
     \<and> (\<exists>now. t_runs d' = map (finish_row i status x n out now) (t_runs d))
     \<and> (\<exists>rec rest. t_events d' = t_events d @ rec # rest \<and> recorded_as ev rec
          \<and> (rest = [] \<or> status = StatusSucceeded \<and> map ev_type rest = [RunRecovered]))"

lemma finish_success_effect:
  "triple (\<lambda>d. t_runs d = rs \<and> t_events d = es) (finish_success i ev)
     (\<lambda>_ d. t_runs d = rs \<and> (t_events d = es \<or> (\<exists>r. t_events d = es @ [r] \<and> ev_type r = RunRecovered)))"
proof -
  let ?P = "\<lambda>d. t_runs d = rs \<and> t_events d = es"
  let ?Q = "\<lambda>d. t_runs d = rs \<and> (t_events d = es \<or> (\<exists>r. t_events d = es @ [r] \<and> ev_type r = RunRecovered))"
  have emit: "triple ?P (emitEvent (RecoveredEvent ev i)) (\<lambda>_. ?Q)"
  proof (rule tripleI)
    fix d w k d' w' assume "?P d" "emitEvent (RecoveredEvent ev i) d w = (Inr k, d', w')"
    with tripleD [OF emitEvent_effect [of "untouched d" es "RecoveredEvent ev i"]] obtain r
      where "untouched d' = untouched d" "t_events d' = es @ [r]" "recorded_as (RecoveredEvent ev i) r" by blast
    with \<open>?P d\<close> show "?Q d'" by (auto simp: untouched_def recorded_as_def RecoveredEvent_def)
  qed
  have prev: "triple ?P (case prev of
            Some s \<Rightarrow> if s \<noteq> StatusSucceeded then bnd (emitEvent (RecoveredEvent ev i)) (\<lambda>_. ret ()) else ret ()
          | None \<Rightarrow> ret ()) (\<lambda>_. ?Q)" for prev
    by (auto intro!: triple_case_option triple_if triple_bnd [OF emit] triple_ret)
  have end_s: "triple ?Q (endStreak i) (\<lambda>_. ?Q)"
    unfolding endStreak_def dropHeld_def
    by (intro inv_rules) (auto simp: clear_streak_def drop_held_def split: option.split)
  show ?thesis
    unfolding finish_success_def by (rule triple_bnd [OF triple_query triple_bnd [OF prev end_s]])
qed

lemma finish_rows:
  assumes "distinct (map rw_id rs)" "list_ex (is_running i) rs"
  shows "map (\<lambda>r. if rw_id r = i then r\<lparr>rw_attempt := n\<rparr> else r)
      (map (\<lambda>r. if is_running i r then end_run status x out now r else r) rs)
    = map (finish_row i status x n out now) rs"
proof -
  from assms(2) obtain r0 where "r0 \<in> set rs" "is_running i r0" by (auto simp: list_ex_iff)
  then have "is_running i r" if "r \<in> set rs" "rw_id r = i" for r
    using that assms(1) same_row [of rw_id rs r r0] by (auto simp: is_running_def)
  then show ?thesis by (auto simp: finish_row_def end_run_def is_running_def)
qed

lemma finish_body_written:
  assumes "distinct (map rw_id (t_runs d0))"
  shows "triple (\<lambda>d. d = d0) (bnd (finishRunTx i status x out) (\<lambda>_.
     bnd (exec_stmt (set_attempt i n)) (\<lambda>_.
     bnd (emitEvent ev) (\<lambda>k.
     bnd (if status = StatusSucceeded then finish_success i ev else ret ()) (\<lambda>_.
     ret (Commit k)))))) (\<lambda>_. finish_written i status x n out ev d0)"
proof -
  let ?run = "list_ex (is_running i) (t_runs d0)"
  let ?A = "\<lambda>d. ?run \<and> (\<exists>now. d = set_run_rows (is_running i) (end_run status x out now) d0)"
  let ?B = "\<lambda>d. ?run \<and> (\<exists>now. t_runs d = map (finish_row i status x n out now) (t_runs d0)) \<and> t_events d = t_events d0"
  let ?C = "\<lambda>d. ?run \<and> (\<exists>now. t_runs d = map (finish_row i status x n out now) (t_runs d0))
      \<and> (\<exists>rec. t_events d = t_events d0 @ [rec] \<and> recorded_as ev rec)"
  have upd: "triple (\<lambda>d. d = d0) (stmt (\<lambda>d. (list_ex (is_running i) (t_runs d),
        set_run_rows (is_running i) (end_run status x out now) d))) (\<lambda>changed d. changed \<longrightarrow> ?A d)" for now
    by (rule triple_stmt) auto
  have rest: "triple (\<lambda>d. changed \<longrightarrow> ?A d)
      (if changed then ret () else bnd (query (find_run i)) (\<lambda>row. if row = None then throw ErrRunGone else throw ErrRunNotRunning))
      (\<lambda>_. ?A)" for changed
    by (auto intro!: triple_ret triple_bnd [where R = "\<lambda>_ _. True"] triple_query triple_throw)
  have fin: "triple (\<lambda>d. d = d0) (finishRunTx i status x out) (\<lambda>_. ?A)"
    unfolding finishRunTx_def
    by (rule triple_bnd [OF triple_time_now [where Q = "\<lambda>_ d. d = d0"]]) (simp, rule triple_bnd [OF upd rest])
  have att: "triple ?A (exec_stmt (set_attempt i n)) (\<lambda>_. ?B)"
    by (rule triple_exec) (use finish_rows [OF assms] in \<open>auto simp: set_attempt_def set_run_rows_def simp del: map_map\<close>)
  have emit: "triple ?B (emitEvent ev) (\<lambda>_. ?C)"
  proof (rule tripleI)
    fix d w k d' w' assume B: "?B d" and "emitEvent ev d w = (Inr k, d', w')"
    with tripleD [OF emitEvent_effect [of "untouched d" "t_events d" ev]] obtain r
      where "untouched d' = untouched d" "t_events d' = t_events d @ [r]" "recorded_as ev r" by blast
    with B show "?C d'" by (auto simp: untouched_def)
  qed
  have last: "triple ?C (bnd (if status = StatusSucceeded then finish_success i ev else ret ()) (\<lambda>_. ret (Commit k)))
      (\<lambda>_. finish_written i status x n out ev d0)" for k
  proof (cases "status = StatusSucceeded")
    case True
    have "triple ?C (finish_success i ev) (\<lambda>_. finish_written i status x n out ev d0)"
    proof (rule tripleI)
      fix d w u d' w' assume C: "?C d" and m: "finish_success i ev d w = (Inr u, d', w')"
      from tripleD [OF finish_success_effect [of "t_runs d" "t_events d" i ev] _ m] C True
      show "finish_written i status x n out ev d0 d'" by (fastforce simp: finish_written_def)
    qed
    with True show ?thesis by (auto intro!: triple_bnd [OF _ triple_ret])
  next
    case False
    have "triple ?C (ret ()) (\<lambda>_. ?C)" by (rule triple_ret)
    then show ?thesis
      using False by (auto intro!: triple_bnd [where R = "\<lambda>_. ?C"] triple_ret simp: finish_written_def)
  qed
  show ?thesis
    by (rule triple_bnd [OF fin], rule triple_bnd [OF att], rule triple_bnd [OF emit], rule last)
qed

lemma finish_committed:
  assumes "distinct (map rw_id (t_runs d0))"
  shows "triple (\<lambda>d. d = d0) (transact (bnd (finishRunTx i status x out) (\<lambda>_.
     bnd (exec_stmt (set_attempt i n)) (\<lambda>_.
     bnd (emitEvent ev) (\<lambda>k.
     bnd (if status = StatusSucceeded then finish_success i ev else ret ()) (\<lambda>_.
     ret (Commit k))))))) (\<lambda>_. finish_written i status x n out ev d0)"
proof -
  have commit: "triple (\<lambda>d. True) (bnd (if status = StatusSucceeded then finish_success i ev else ret ()) (\<lambda>_. ret (Commit k)))
      (\<lambda>r _. \<exists>k. r = Commit k)" for k :: int
    by (rule triple_bnd [where R = "\<lambda>_ _. True"]) (auto simp: triple_def ret_def)
  have "triple (\<lambda>d. d = d0) (bnd (finishRunTx i status x out) (\<lambda>_.
     bnd (exec_stmt (set_attempt i n)) (\<lambda>_. bnd (emitEvent ev) (\<lambda>k.
     bnd (if status = StatusSucceeded then finish_success i ev else ret ()) (\<lambda>_. ret (Commit k))))))
     (\<lambda>r _. \<exists>k. r = Commit k)"
    by (rule triple_bnd [where R = "\<lambda>_ _. True"], simp add: triple_def,
        rule triple_bnd [where R = "\<lambda>_ _. True"], simp add: triple_def,
        rule triple_bnd [where R = "\<lambda>_ _. True"], simp add: triple_def, rule commit)
  from triple_conj [OF finish_body_written [OF assms] this] show ?thesis
    by (intro triple_transact) (erule triple_conseq; auto)
qed

lemma ok_finish: "succeeds (\<lambda>d. list_ex (is_running i) (t_runs d)) (FinishRunAndEmit i status x n out ev)"
proof -
  let ?P = "\<lambda>d. list_ex (is_running i) (t_runs d)"
  have upd: "triple ?P (stmt (\<lambda>d. (list_ex (is_running i) (t_runs d),
        set_run_rows (is_running i) (end_run status x out now) d))) (\<lambda>changed _. changed)" for now
    by (rule triple_stmt) simp
  have fin: "succeeds ?P (finishRunTx i status x out)"
    unfolding finishRunTx_def
    by (rule succeeds_bnd [OF ok_time_now triple_time_now [where Q = "\<lambda>_. ?P"]], simp,
        rule succeeds_bnd [OF ok_stmt upd]) (simp add: succeeds_def ret_def)
  have rest: "always_succeeds (bnd (exec_stmt (set_attempt i n)) (\<lambda>_.
     bnd (emitEvent ev) (\<lambda>k.
     bnd (if status = StatusSucceeded then finish_success i ev else ret ()) (\<lambda>_. ret (Commit k)))))"
    unfolding finish_success_def endStreak_def dropHeld_def by (intro ok_rules)
  show ?thesis
    unfolding FinishRunAndEmit_def
    by (intro ok_transact succeeds_bnd [OF fin _ rest]) (simp add: triple_def)
qed


text \<open>A run in a table, for concrete inputs.\<close>

definition running_db :: db where
  "running_db = run_ops [OpCreateJob sample_job, OpEnqueueRun 1 1, OpClaimRun ''w''] empty_db"


end
