(* ===== verification/Store_PingLog.thy ===== *)
theory Store_PingLog
  imports Store_Total
begin

text \<open>
  The log of a heartbeat's pings stays within its two limits, a number of entries and a
  number of bytes, and keeps the newest entries.
\<close>

section \<open>Logs\<close>

definition log_bytes :: "ping_row list \<Rightarrow> int" where
  "log_bytes log = sum_list (map pw_bytes log)"

definition pings_wf :: "db \<Rightarrow> bool" where
  "pings_wf d \<longleftrightarrow>
     distinct (map pw_id (t_pings d)) \<and> list_all (\<lambda>p. pw_id p < n_pings d \<and> 0 \<le> pw_bytes p) (t_pings d)"

lemma insort_key_snoc: "f y \<le> f x \<Longrightarrow> insort_key f y (zs @ [x]) = insort_key f y zs @ [x]"
  by (induction zs) auto

lemma sort_key_snoc: "(\<And>y. y \<in> set ys \<Longrightarrow> f y \<le> f x) \<Longrightarrow> sort_key f (ys @ [x]) = sort_key f ys @ [x]"
proof (induction ys)
  case (Cons y ys)
  then show ?case by (simp add: insort_key_snoc)
qed simp

text \<open>A log is strictly descending, so cutting at an entry keeps a prefix of it.\<close>

definition descending :: "ping_row list \<Rightarrow> bool" where
  "descending log \<longleftrightarrow> sorted_wrt (\<lambda>p q. pw_id q < pw_id p) log"

lemma hb_log_descending:
  assumes "pings_wf d"
  shows "descending (hb_log hid d)"
proof -
  let ?s = "sort_key pw_id (filter (\<lambda>p. pw_hb p = hid) (t_pings d))"
  have "distinct (map pw_id ?s)" using assms by (auto simp: pings_wf_def distinct_map inj_on_def)
  moreover have "sorted (map pw_id ?s)" by simp
  ultimately have "sorted_wrt (<) (map pw_id ?s)" by (simp add: strict_sorted_iff)
  then show ?thesis by (simp add: descending_def hb_log_def sorted_wrt_map sorted_wrt_rev)
qed

lemma filter_above_nth:
  assumes "descending log" "k < length log"
  shows "filter (\<lambda>p. pw_id (log ! k) < pw_id p) log = take k log"
  using assms
proof (induction log arbitrary: k)
  case (Cons p log)
  show ?case
  proof (cases k)
    case 0
    have "filter (\<lambda>q. pw_id p < pw_id q) log = []"
      using Cons.prems by (auto simp: descending_def filter_empty_conv)
    with 0 show ?thesis by simp
  next
    case (Suc n)
    then have "pw_id (log ! n) < pw_id p" using Cons.prems by (auto simp: descending_def)
    with Suc Cons show ?thesis by (simp add: descending_def)
  qed
qed simp

lemma hb_log_drop_upto:
  "hb_log i (drop_upto hid bound d) =
     (case bound of None \<Rightarrow> hb_log i d
      | Some b \<Rightarrow> if i = hid then filter (\<lambda>p. b < pw_id p) (hb_log i d) else hb_log i d)"
proof (cases bound)
  case (Some b)
  have "filter (\<lambda>p. pw_hb p = i \<and> (pw_hb p = hid \<longrightarrow> \<not> pw_id p \<le> b)) (t_pings d)
      = (if i = hid then filter (\<lambda>p. b < pw_id p) (filter (\<lambda>p. pw_hb p = i) (t_pings d))
         else filter (\<lambda>p. pw_hb p = i) (t_pings d))"
    by (auto intro!: filter_cong)
  with Some show ?thesis
    by (simp add: hb_log_def drop_upto_def filter_sort rev_filter [symmetric] conj_commute)
qed (simp add: drop_upto_def)

lemma pings_wf_drop: "pings_wf d \<Longrightarrow> pings_wf (drop_upto hid bound d)"
  by (auto simp: pings_wf_def drop_upto_def list_all_iff distinct_map_filter split: option.split)

section \<open>Cutting\<close>

lemma trim_count_log:
  assumes "pings_wf d"
  shows "hb_log hid (trim_count hid d) = take maxPingsPerHeartbeat (hb_log hid d)"
  using filter_above_nth [OF hb_log_descending [OF assms]]
  by (simp add: trim_count_def hb_log_drop_upto count_bound_def)

text \<open>The newest entries that fit in the remaining bytes.\<close>

fun fit :: "int \<Rightarrow> ping_row list \<Rightarrow> nat" where
  "fit kept [] = 0"
| "fit kept (p # log) = (if maxPingLogBytes < kept + pw_bytes p then 0 else Suc (fit (kept + pw_bytes p) log))"

lemma bytes_bound_fit:
  "bytes_bound kept log = (if fit kept log < length log then Some (pw_id (log ! fit kept log)) else None)"
  by (induction log arbitrary: kept) auto

lemma fit_bytes: "kept \<le> maxPingLogBytes \<Longrightarrow> kept + log_bytes (take (fit kept log) log) \<le> maxPingLogBytes"
proof (induction log arbitrary: kept)
  case (Cons p log)
  show ?case
  proof (cases "maxPingLogBytes < kept + pw_bytes p")
    case False
    then have "kept + pw_bytes p + log_bytes (take (fit (kept + pw_bytes p) log) log) \<le> maxPingLogBytes"
      by (intro Cons.IH) simp
    with False show ?thesis by (simp add: log_bytes_def add.assoc)
  qed (use Cons.prems in \<open>simp add: log_bytes_def\<close>)
qed (simp add: log_bytes_def)

lemma trim_bytes_log:
  assumes "pings_wf d"
  shows "hb_log hid (trim_bytes hid d) = take (fit 0 (hb_log hid d)) (hb_log hid d)"
  using filter_above_nth [OF hb_log_descending [OF assms]]
  by (simp add: trim_bytes_def hb_log_drop_upto bytes_bound_fit)

lemma trim_other:
  "i \<noteq> hid \<Longrightarrow> hb_log i (trim_count hid d) = hb_log i d" "i \<noteq> hid \<Longrightarrow> hb_log i (trim_bytes hid d) = hb_log i d"
  by (simp_all add: trim_count_def trim_bytes_def hb_log_drop_upto split: option.split)

definition logged :: "hb_key \<Rightarrow> ping_input \<Rightarrow> int option \<Rightarrow> gotime \<Rightarrow> db \<Rightarrow> ping_row" where
  "logged k inp dur now d =
     \<lparr>pw_id = n_pings d, pw_org = fst (snd k), pw_hb = fst k, pw_kind = pi_kind inp, pw_exit = pi_exit inp,
      pw_rid = pi_rid inp, pw_duration = dur, pw_body = pi_body inp, pw_created = now,
      pw_bytes = int (length (pi_body inp))\<rparr>"

lemma add_ping_log:
  assumes "pings_wf d"
  shows "hb_log i (add_ping k inp dur now d) =
    (if i = fst k then logged k inp dur now d # hb_log i d else hb_log i d)"
proof -
  have "sort_key pw_id (filter (\<lambda>p. pw_hb p = i) (t_pings d) @ [logged k inp dur now d])
      = sort_key pw_id (filter (\<lambda>p. pw_hb p = i) (t_pings d)) @ [logged k inp dur now d]"
    by (rule sort_key_snoc) (use assms in \<open>auto simp: pings_wf_def list_all_iff logged_def\<close>)
  moreover have "t_pings (add_ping k inp dur now d) = t_pings d @ [logged k inp dur now d]"
    by (simp add: add_ping_def logged_def split: prod.split)
  moreover have "pw_hb (logged k inp dur now d) = fst k" by (simp add: logged_def)
  ultimately show ?thesis by (cases "i = fst k") (simp_all add: hb_log_def)
qed

lemma pings_wf_add: "pings_wf d \<Longrightarrow> pings_wf (add_ping k inp dur now d)"
  by (auto simp: pings_wf_def add_ping_def list_all_iff split: prod.split)

section \<open>Recording a ping\<close>

text \<open>The log after a ping: the new entry on top of the old ones, cut to the limits.\<close>

definition cut_log :: "ping_row list \<Rightarrow> ping_row list" where
  "cut_log log = (let kept = take maxPingsPerHeartbeat log in take (fit 0 kept) kept)"

definition ping_written :: "db \<Rightarrow> ping_input \<Rightarrow> gotime \<Rightarrow> hb_key \<Rightarrow> db \<Rightarrow> bool" where
  "ping_written d0 inp now k d \<longleftrightarrow>
     pings_wf d
     \<and> (\<exists>dur. hb_log (fst k) d = cut_log (logged k inp dur now d0 # hb_log (fst k) d0))
     \<and> (\<forall>i. i \<noteq> fst k \<longrightarrow> hb_log i d = hb_log i d0)"

lemma ping_tables_wf: "t_pings d' = t_pings d \<Longrightarrow> n_pings d' = n_pings d \<Longrightarrow> pings_wf d \<Longrightarrow>
    pings_wf d' \<and> hb_log i d' = hb_log i d \<and> logged k inp dur now d' = logged k inp dur now d"
  by (simp add: pings_wf_def hb_log_def logged_def)

lemma written_steps:
  assumes "pings_wf d0" "t_pings d = t_pings d0" "n_pings d = n_pings d0"
  shows "ping_written d0 inp now k (trim_bytes (fst k) (trim_count (fst k) (add_ping k inp dur now d)))"
proof -
  note same = ping_tables_wf [OF assms(2,3,1)]
  have w: "pings_wf (add_ping k inp dur now d)" using same pings_wf_add by blast
  then have w2: "pings_wf (trim_count (fst k) (add_ping k inp dur now d))"
    by (simp add: trim_count_def pings_wf_drop)
  then have w3: "pings_wf (trim_bytes (fst k) (trim_count (fst k) (add_ping k inp dur now d)))"
    by (simp add: trim_bytes_def pings_wf_drop)
  have "hb_log (fst k) (trim_bytes (fst k) (trim_count (fst k) (add_ping k inp dur now d)))
      = cut_log (logged k inp dur now d0 # hb_log (fst k) d0)"
    using same by (simp add: trim_bytes_log [OF w2] trim_count_log [OF w] add_ping_log cut_log_def Let_def)
  moreover have "hb_log i (trim_bytes (fst k) (trim_count (fst k) (add_ping k inp dur now d))) = hb_log i d0"
    if "i \<noteq> fst k" for i
    using same that by (simp add: trim_other add_ping_log)
  ultimately show ?thesis using w3 by (auto simp: ping_written_def)
qed

lemma ping_body_written:
  assumes "pings_wf d0"
  shows "triple (\<lambda>d. d = d0) (recordHeartbeatPing token inp now)
    (\<lambda>res. ping_written d0 inp now (pr_hb res, pr_org res, pr_name res))"
proof -
  let ?S = "\<lambda>d. t_pings d = t_pings d0 \<and> n_pings d = n_pings d0"
  have upd: "triple ?S (update_by_token token guard f) (\<lambda>_. ?S)" for guard f
    unfolding update_by_token_def by (rule triple_stmt) (simp add: set_hb_rows_def)
  have state: "triple ?S (ping_state token inp now) (\<lambda>_. ?S)"
    unfolding ping_state_def update_transition_def
    by (cases "pi_kind inp") (auto intro!: inv_rules upd)
  have dur: "triple ?S (runDuration i inp now) (\<lambda>_. ?S)" for i
    unfolding runDuration_def by (intro inv_rules)
  have frame: "ping_written d0 inp now k d' = ping_written d0 inp now k d"
    if "t_pings d' = t_pings d" "n_pings d' = n_pings d" for k d d'
    using that by (simp add: ping_written_def pings_wf_def hb_log_def)
  have emit: "triple (ping_written d0 inp now k) (emitEvent e) (\<lambda>_. ping_written d0 inp now k)" for k e
  proof (rule tripleI)
    fix d w i d' w' assume p: "ping_written d0 inp now k d" and "emitEvent e d w = (Inr i, d', w')"
    with tripleD [OF emitEvent_effect [of "untouched d" "t_events d" e]]
    have "untouched d' = untouched d" by blast
    with frame [of d' d k] p show "ping_written d0 inp now k d'" by (simp add: untouched_def)
  qed
  have log: "triple ?S (exec_stmt (add_ping k inp dr now)) (\<lambda>_ d. ping_written d0 inp now k (trim_bytes (fst k) (trim_count (fst k) d)))" for k dr
    by (rule triple_exec) (use written_steps [OF assms] in auto)
  have tail: "triple ?S (bnd (runDuration (fst k) inp now) (\<lambda>dur.
      bnd (exec_stmt (add_ping k inp dur now)) (\<lambda>_.
      bnd (exec_stmt (trim_count (fst k))) (\<lambda>_.
      bnd (exec_stmt (trim_bytes (fst k))) (\<lambda>_.
      bnd (case ev of None \<Rightarrow> ret () | Some e \<Rightarrow> bnd (emitEvent e) (\<lambda>_. ret ())) (\<lambda>_.
      ret (Commit r))))))) (\<lambda>x d. x = Commit r \<and> ping_written d0 inp now k d)" for ev k and r :: ping_result
  proof -
    have last: "triple (ping_written d0 inp now k) (bnd (case ev of None \<Rightarrow> ret () | Some e \<Rightarrow> bnd (emitEvent e) (\<lambda>_. ret ())) (\<lambda>_.
      ret (Commit r))) (\<lambda>x d. x = Commit r \<and> ping_written d0 inp now k d)"
      by (rule triple_bnd [where R = "\<lambda>_. ping_written d0 inp now k"])
        (auto intro!: triple_case_option triple_ret triple_bnd [OF emit])
    show ?thesis
      by (rule triple_bnd [OF dur], rule triple_bnd [OF log], rule triple_bnd [OF triple_exec],
          assumption, rule triple_bnd [OF triple_exec last])
  qed
  have body: "triple (\<lambda>d. d = d0) (transact (bnd (ping_state token inp now) (\<lambda>(key, event).
        case key of
          None \<Rightarrow> throw ErrNotFound
        | Some k \<Rightarrow>
            bnd (runDuration (fst k) inp now) (\<lambda>dur.
            bnd (exec_stmt (add_ping k inp dur now)) (\<lambda>_.
            bnd (exec_stmt (trim_count (fst k))) (\<lambda>_.
            bnd (exec_stmt (trim_bytes (fst k))) (\<lambda>_.
            bnd (case event of None \<Rightarrow> ret () | Some e \<Rightarrow> bnd (emitEvent e) (\<lambda>_. ret ())) (\<lambda>_.
            ret (Commit \<lparr>pr_org = fst (snd k), pr_hb = fst k, pr_name = snd (snd k), pr_event = event\<rparr>)))))))))
     (\<lambda>res. ping_written d0 inp now (pr_hb res, pr_org res, pr_name res))"
  proof (rule triple_transact, rule triple_bnd)
    show "triple (\<lambda>d. d = d0) (ping_state token inp now) (\<lambda>_. ?S)"
      by (rule triple_conseq [OF state]) simp_all
    show "triple ?S (case ke of (key, event) \<Rightarrow> case key of
          None \<Rightarrow> throw ErrNotFound
        | Some k \<Rightarrow>
            bnd (runDuration (fst k) inp now) (\<lambda>dur.
            bnd (exec_stmt (add_ping k inp dur now)) (\<lambda>_.
            bnd (exec_stmt (trim_count (fst k))) (\<lambda>_.
            bnd (exec_stmt (trim_bytes (fst k))) (\<lambda>_.
            bnd (case event of None \<Rightarrow> ret () | Some e \<Rightarrow> bnd (emitEvent e) (\<lambda>_. ret ())) (\<lambda>_.
            ret (Commit \<lparr>pr_org = fst (snd k), pr_hb = fst k, pr_name = snd (snd k), pr_event = event\<rparr>)))))))
      (\<lambda>r d. case r of Commit a \<Rightarrow> ping_written d0 inp now (pr_hb a, pr_org a, pr_name a) d
         | Rollback a \<Rightarrow> \<forall>d0'. d0' = d0 \<longrightarrow> ping_written d0 inp now (pr_hb a, pr_org a, pr_name a) d0')" for ke
    proof (cases ke)
      case (Pair key ev)
      show ?thesis
      proof (cases key)
        case (Some k)
        show ?thesis unfolding Pair Some prod.case option.case by (rule triple_conseq [OF tail]) auto
      qed (simp add: Pair triple_throw)
    qed
  qed
  show ?thesis
    unfolding recordHeartbeatPing_def by (intro triple_if triple_throw body)
qed

text \<open>
  C25: After a ping is recorded, its heartbeat's log holds at most 1000 entries and at most
  10 MB of bodies; it is the new entry followed by the newest old ones, cut to the limits;
  no other heartbeat's log changed; and an entry that fits at all is the newest in the log.
\<close>

theorem ping_log_bounded:
  assumes "pings_wf d" "recordHeartbeatPing token inp now d w = (Inr res, d', w')"
  shows "length (hb_log (pr_hb res) d') \<le> 1000 \<and> log_bytes (hb_log (pr_hb res) d') \<le> 10000000
    \<and> (\<exists>dur. hb_log (pr_hb res) d' =
         cut_log (logged (pr_hb res, pr_org res, pr_name res) inp dur now d # hb_log (pr_hb res) d))
    \<and> (\<forall>i. i \<noteq> pr_hb res \<longrightarrow> hb_log i d' = hb_log i d)
    \<and> (length (pi_body inp) \<le> 10000000 \<longrightarrow> hb_log (pr_hb res) d' \<noteq> [] \<and> pw_body (hd (hb_log (pr_hb res) d')) = pi_body inp)"
proof -
  from tripleD [OF ping_body_written [OF assms(1)] refl assms(2)]
  obtain dur where log: "hb_log (pr_hb res) d' =
         cut_log (logged (pr_hb res, pr_org res, pr_name res) inp dur now d # hb_log (pr_hb res) d)"
    and other: "\<forall>i. i \<noteq> pr_hb res \<longrightarrow> hb_log i d' = hb_log i d"
    by (auto simp: ping_written_def)
  have "length (hb_log (pr_hb res) d') \<le> 1000"
    unfolding log cut_log_def by (simp add: Let_def maxPingsPerHeartbeat_def)
  moreover have "log_bytes (hb_log (pr_hb res) d') \<le> 10000000"
    unfolding log cut_log_def Let_def
    using fit_bytes [of 0] by (simp add: maxPingLogBytes_def del: take_take)
  moreover have "hb_log (pr_hb res) d' \<noteq> [] \<and> pw_body (hd (hb_log (pr_hb res) d')) = pi_body inp"
    if "length (pi_body inp) \<le> 10000000"
    unfolding log cut_log_def Let_def using that
    by (simp add: maxPingsPerHeartbeat_def maxPingLogBytes_def logged_def)
  ultimately show ?thesis using log other by blast
qed

theorem ping_log_bounded_witness:
  "pings_wf (run_ops hb_history empty_db)
   \<and> (\<exists>d' w' res. recordHeartbeatPing ''t'' \<lparr>pi_kind = PingLog, pi_exit = None, pi_rid = [], pi_body = ''note''\<rparr> 12
        (run_ops hb_history empty_db) (quiet 12) = (Inr res, d', w') \<and> length (hb_log (pr_hb res) d') \<le> 1000)"
proof -
  let ?d = "run_ops hb_history empty_db"
  let ?i = "\<lparr>pi_kind = PingLog, pi_exit = None, pi_rid = [], pi_body = ''note''\<rparr>"
  have wf: "pings_wf ?d" by code_simp
  obtain r d' w' where m: "recordHeartbeatPing ''t'' ?i 12 ?d (quiet 12) = (r, d', w')" using prod_cases3 by blast
  have "case fst (recordHeartbeatPing ''t'' ?i 12 ?d (quiet 12)) of Inl _ \<Rightarrow> False | Inr _ \<Rightarrow> True" by code_simp
  with m obtain res where "r = Inr res" by (auto split: sum.splits)
  with m ping_log_bounded [OF wf, of "''t''" ?i 12 "quiet 12" res d' w'] wf show ?thesis by blast
qed

end
