(* ===== verification/Store_Queue.thy ===== *)
theory Store_Queue
  imports Store_Total Store_Accounts
begin

text \<open>
  Claims of the delivery queue: what a claim takes, in which order and for how long, and
  that a due delivery is claimed. Then the round trip of a secret.
\<close>

section \<open>Claims\<close>

lemma join_events_result:
  "triple (\<lambda>x. x = d) (join_events xs)
     (\<lambda>out d'. d' = d \<and> map fst out = xs \<and> (\<forall>(x, e) \<in> set out. find_event (dl_event x) d = Some e))"
proof (induction xs)
  case Nil
  show ?case by (simp add: triple_def ret_def)
next
  case (Cons x xs)
  show ?case
  proof (rule tripleI)
    fix d0 w out d' w' assume "d0 = d" and j: "join_events (x # xs) d0 w = (Inr out, d', w')"
    then obtain e w1 rest where "find_event (dl_event x) d = Some e" "join_events xs d w1 = (Inr rest, d', w')"
      "out = (x, e) # rest"
      by (auto simp: bnd_def query_def stmt_def throw_def ret_def split: prod.splits sum.splits option.splits fault.splits)
    with tripleD [OF Cons.IH refl] show "d' = d \<and> map fst out = x # xs \<and> (\<forall>(x, e) \<in> set out. find_event (dl_event x) d = Some e)"
      by fastforce
  qed
qed

lemma find_event_claim [simp]: "find_event i (snd (claim_rows now lease hold n d)) = find_event i d"
  by (simp add: claim_rows_def find_event_def Let_def)

text \<open>A claim that succeeds is the statement's rows with their events.\<close>

lemma claim_result:
  assumes "ClaimDueDeliveries now lease hold limit d w = (Inr out, d', w')"
  shows "d' = snd (claim_rows now lease hold (if limit \<le> 0 then 50 else nat limit) d)
    \<and> map fst out = fst (claim_rows now lease hold (if limit \<le> 0 then 50 else nat limit) d)
    \<and> (\<forall>(x, e) \<in> set out. find_event (dl_event x) d = Some e)"
proof -
  let ?n = "if limit \<le> 0 then 50 else nat limit"
  let ?c = "claim_rows now lease hold ?n d"
  let ?Q = "\<lambda>out d'. d' = snd ?c \<and> map fst out = fst ?c \<and> (\<forall>(x, e) \<in> set out. find_event (dl_event x) d = Some e)"
  have stm: "triple (\<lambda>x. x = d) (stmt (claim_rows now lease hold ?n)) (\<lambda>claimed x. claimed = fst ?c \<and> x = snd ?c)"
    by (rule triple_stmt) simp
  have join: "triple (\<lambda>x. claimed = fst ?c \<and> x = snd ?c) (join_events claimed) ?Q" for claimed
  proof (rule tripleI)
    fix x w out x' w' assume c: "claimed = fst ?c \<and> x = snd ?c" and j: "join_events claimed x w = (Inr out, x', w')"
    from tripleD [OF join_events_result _ j, of x] c show "?Q out x'" by simp
  qed
  have "triple (\<lambda>x. x = d) (ClaimDueDeliveries now lease hold limit) ?Q"
    unfolding ClaimDueDeliveries_def Let_def
    by (rule triple_transact, rule triple_bnd [OF stm], rule triple_bnd [OF join]) (simp add: triple_def ret_def)
  from tripleD [OF this refl assms] show ?thesis .
qed

lemma claim_ids_claimable:
  assumes "distinct (map dl_id (t_deliveries d))" "x \<in> set (t_deliveries d)" "dl_id x \<in> set (claim_ids now hold n d)"
  shows "claimable now hold d x"
proof -
  from assms(3) obtain y where y: "y \<in> set (t_deliveries d)" "claimable now hold d y" "dl_id y = dl_id x"
    by (auto simp: claim_ids_def dest!: in_set_takeD)
  with same_row [OF assms(1) y(1) assms(2)] show ?thesis by simp
qed

lemma claim_ids_length: "length (claim_ids now hold n d) \<le> n"
  by (simp add: claim_ids_def)

lemma claimed_rows:
  "fst (claim_rows now lease hold n d) = map (claim_delivery now lease) (filter (\<lambda>x. dl_id x \<in> set (claim_ids now hold n d)) (t_deliveries d))"
  "t_deliveries (snd (claim_rows now lease hold n d))
     = map (\<lambda>x. if dl_id x \<in> set (claim_ids now hold n d) then claim_delivery now lease x else x) (t_deliveries d)"
  by (simp_all add: claim_rows_def Let_def)

text \<open>
  C10: A claim takes only deliveries that are pending and due, at most as many as asked for,
  each with its own event, counts the attempt and leases it: until the lease ends no other
  claim can take it, whatever its limits. On one channel it goes by age: nothing is taken
  while an older delivery of the channel is pending, unless that one was first attempted
  longer than the hold ago. No other delivery changes.
\<close>

theorem claim_leases_in_order:
  assumes "ClaimDueDeliveries now lease hold limit d w = (Inr out, d', w')"
    and "distinct (map dl_id (t_deliveries d))" "0 < limit"
  shows "length out \<le> nat limit
    \<and> (\<forall>(y, e) \<in> set out. \<exists>x \<in> set (t_deliveries d). y = claim_delivery now lease x
        \<and> dl_state x = DeliveryPending \<and> dl_next x \<le> now \<and> find_event (dl_event x) d = Some e
        \<and> (hold > 0 \<longrightarrow> \<not> list_ex (holds_back now hold x) (t_deliveries d))
        \<and> y \<in> set (t_deliveries d') \<and> (\<forall>now' hold'. now' < now + lease \<longrightarrow> \<not> claimable now' hold' d' y))
    \<and> (\<forall>x \<in> set (t_deliveries d). dl_id x \<notin> dl_id ` fst ` set out \<longrightarrow> x \<in> set (t_deliveries d'))"
proof -
  let ?n = "if limit \<le> 0 then 50 else nat limit"
  let ?ids = "claim_ids now hold ?n d"
  from claim_result [OF assms(1)]
  have d': "t_deliveries d' = map (\<lambda>x. if dl_id x \<in> set ?ids then claim_delivery now lease x else x) (t_deliveries d)"
    and out: "map fst out = map (claim_delivery now lease) (filter (\<lambda>x. dl_id x \<in> set ?ids) (t_deliveries d))"
    and ev: "\<And>x e. (x, e) \<in> set out \<Longrightarrow> find_event (dl_event x) d = Some e"
    by (auto simp: claimed_rows)
  have keep: "dl_id (claim_delivery now lease x) = dl_id x" "dl_event (claim_delivery now lease x) = dl_event x" for x
    by (simp_all add: claim_delivery_def)
  have "length out = length (filter (\<lambda>x. dl_id x \<in> set ?ids) (t_deliveries d))"
    using arg_cong [OF out, of length] by simp
  also have "\<dots> = card (dl_id ` set (filter (\<lambda>x. dl_id x \<in> set ?ids) (t_deliveries d)))"
    using distinct_card [OF distinct_map_filter [OF assms(2), of "\<lambda>x. dl_id x \<in> set ?ids"]] by simp
  also have "\<dots> \<le> card (set ?ids)" by (rule card_mono) auto
  also have "\<dots> \<le> nat limit" using card_length [of ?ids] claim_ids_length [of now hold ?n d] assms(3) by simp
  finally have len: "length out \<le> nat limit" .
  have taken: "\<exists>x \<in> set (t_deliveries d). y = claim_delivery now lease x
        \<and> dl_state x = DeliveryPending \<and> dl_next x \<le> now \<and> find_event (dl_event x) d = Some e
        \<and> (hold > 0 \<longrightarrow> \<not> list_ex (holds_back now hold x) (t_deliveries d))
        \<and> y \<in> set (t_deliveries d') \<and> (\<forall>now' hold'. now' < now + lease \<longrightarrow> \<not> claimable now' hold' d' y)"
    if "(y, e) \<in> set out" for y e
  proof -
    have "y \<in> set (map fst out)" using that by force
    then obtain x where x: "x \<in> set (t_deliveries d)" "dl_id x \<in> set ?ids" "y = claim_delivery now lease x"
      unfolding out by auto
    from claim_ids_claimable [OF assms(2) x(1,2)] have c: "claimable now hold d x" .
    have "y \<in> set (t_deliveries d')" using x unfolding d' by force
    moreover have "\<not> claimable now' hold' d' y" if "now' < now + lease" for now' hold'
      using that x(3) by (auto simp: claimable_def claim_delivery_def)
    ultimately show ?thesis
      using c x ev [OF that] by (intro bexI [of _ x]) (auto simp: claimable_def keep)
  qed
  have "x \<in> set (t_deliveries d')" if "x \<in> set (t_deliveries d)" "dl_id x \<notin> dl_id ` fst ` set out" for x
  proof -
    have "dl_id ` fst ` set out = dl_id ` set (map fst out)" by (simp add: image_image)
    also have "\<dots> = dl_id ` set (filter (\<lambda>x. dl_id x \<in> set ?ids) (t_deliveries d))" unfolding out by (simp add: image_image keep)
    finally have "dl_id x \<notin> set ?ids" using that by auto
    then show ?thesis using that(1) unfolding d' by force
  qed
  with len taken show ?thesis by auto
qed

definition queued_db :: db where
  "queued_db = run_ops
     [OpCreateChannel \<lparr>ch_id = 0, ch_org = 1, ch_name = ''ops'', ch_kind = Webhook, ch_config = None, ch_created = 0\<rparr> ''{}'',
      OpCreateRule \<lparr>ru_id = 0, ru_org = 1, ru_channel = 1, ru_event = HeartbeatMissed, ru_job = 0, ru_enabled = True,
        ru_repeat = None, ru_created = 0\<rparr> None,
      OpCreateHeartbeat (sample_hb\<lparr>hb_token := ''t''\<rparr>),
      OpPing ''t'' \<lparr>pi_kind = PingFail, pi_exit = Some 1, pi_rid = [], pi_body = []\<rparr> 7] empty_db"

theorem claim_leases_in_order_witness:
  "\<exists>y e d' w'. ClaimDueDeliveries 10 100 50 5 queued_db (quiet 10) = (Inr [(y, e)], d', w')
     \<and> (\<forall>now' < 110. \<forall>hold'. \<not> claimable now' hold' d' y)"
proof -
  let ?c = "ClaimDueDeliveries 10 100 50 5 queued_db (quiet 10)"
  have dist: "distinct (map dl_id (t_deliveries queued_db))" by code_simp
  have "(case fst ?c of Inr [(y, e)] \<Rightarrow> True | _ \<Rightarrow> False) = True" by code_simp
  then obtain y e d' w' where c: "?c = (Inr [(y, e)], d', w')"
    by (cases ?c) (auto split: sum.splits list.splits)
  from claim_leases_in_order [OF c dist] c show ?thesis by auto
qed

lemma join_events_ok:
  assumes "clean w" "\<forall>x \<in> set xs. find_event (dl_event x) d \<noteq> None"
  shows "\<exists>out. join_events xs d w = (Inr out, d, w)"
  using assms(2)
proof (induction xs)
  case (Cons x xs)
  then obtain e out where "find_event (dl_event x) d = Some e" "join_events xs d w = (Inr out, d, w)" by auto
  with assms(1) show ?case by (simp add: bnd_def query_def stmt_def next_fault_def clean_def ret_def)
qed (simp add: ret_def)



section \<open>Secrets\<close>

definition stored_secret :: "int \<Rightarrow> string \<Rightarrow> db \<Rightarrow> string option" where
  "stored_secret orgID name d = map_option se_ciphertext (List.find (same_secret orgID name) (t_secrets (t_accounts d)))"

lemma GetSecret_clean:
  "clean w \<Longrightarrow> fst (GetSecret orgID name d w)
     = (case stored_secret orgID name d of None \<Rightarrow> Inl ErrNotFound | Some ct \<Rightarrow> Inr ct)"
  by (auto simp: GetSecret_def get_accounts_def query_def stmt_def next_fault_def clean_def bnd_def or_not_found_def
      ret_def throw_def stored_secret_def split: option.split)

lemma put_secret_stored:
  assumes "PutSecret orgID name ct d w = (Inr (), d', w')"
  shows "stored_secret orgID2 name2 d' = (if (orgID2, name2) = (orgID, name) then Some ct else stored_secret orgID2 name2 d)"
proof -
  let ?same = "same_secret orgID name"
  obtain now where "d' = d\<lparr>t_accounts :=
      (if list_ex ?same (t_secrets (t_accounts d))
       then (t_accounts d)\<lparr>t_secrets := map (\<lambda>s. if ?same s then s\<lparr>se_ciphertext := ct, se_updated := now\<rparr> else s) (t_secrets (t_accounts d))\<rparr>
       else (t_accounts d)\<lparr>t_secrets := t_secrets (t_accounts d) @
         [\<lparr>se_org = orgID, se_name = name, se_ciphertext = ct, se_created = now, se_updated = now\<rparr>]\<rparr>)\<rparr>"
    using assms
    by (auto simp: PutSecret_def bnd_def time_now_def upd_accounts_def auto_stmt_def Let_def
        split: list.splits prod.splits fault.splits)
  then have acc: "t_secrets (t_accounts d') =
      (if list_ex ?same (t_secrets (t_accounts d))
       then map (\<lambda>s. if ?same s then s\<lparr>se_ciphertext := ct, se_updated := now\<rparr> else s) (t_secrets (t_accounts d))
       else t_secrets (t_accounts d) @ [\<lparr>se_org = orgID, se_name = name, se_ciphertext = ct, se_created = now, se_updated = now\<rparr>])"
    by simp
  have other: "\<not> same_secret orgID2 name2 s" if "?same s" "(orgID2, name2) \<noteq> (orgID, name)" for s
    using that by (auto simp: same_secret_def)
  have upd: "List.find (same_secret orgID2 name2) (map (\<lambda>s. if ?same s then s\<lparr>se_ciphertext := ct, se_updated := now\<rparr> else s) xs)
      = map_option (\<lambda>s. if ?same s then s\<lparr>se_ciphertext := ct, se_updated := now\<rparr> else s) (List.find (same_secret orgID2 name2) xs)" for xs
    by (induction xs) (auto simp: same_secret_def)
  show ?thesis
  proof (cases "list_ex ?same (t_secrets (t_accounts d))")
    case True
    then obtain s where s: "List.find ?same (t_secrets (t_accounts d)) = Some s" "?same s"
      by (cases "List.find ?same (t_secrets (t_accounts d))") (auto simp: find_None_iff list_ex_iff find_Some_iff)
    show ?thesis
    proof (cases "(orgID2, name2) = (orgID, name)")
      case True
      with \<open>list_ex ?same _\<close> s upd acc show ?thesis by (simp add: stored_secret_def)
    next
      case False
      have "map_option se_ciphertext (map_option (\<lambda>s. if ?same s then s\<lparr>se_ciphertext := ct, se_updated := now\<rparr> else s)
          (List.find (same_secret orgID2 name2) xs)) = map_option se_ciphertext (List.find (same_secret orgID2 name2) xs)" for xs
        by (induction xs) (use other [OF _ False] in auto)
      with False \<open>list_ex ?same _\<close> upd acc show ?thesis by (auto simp: stored_secret_def)
    qed
  next
    case False
    then have "List.find ?same (t_secrets (t_accounts d)) = None" by (auto simp: find_None_iff list_ex_iff)
    moreover have "List.find P (xs @ [y]) = (case List.find P xs of Some z \<Rightarrow> Some z | None \<Rightarrow> if P y then Some y else None)"
      for P xs and y :: secret_row by (induction xs) auto
    ultimately show ?thesis
      using False acc by (auto simp: stored_secret_def same_secret_def split: option.splits)
  qed
qed

text \<open>
  A secret that was stored is the secret that is read: after storing a ciphertext under
  a name, that name in that organisation gives it back, and every other name, and the same
  name in every other organisation, gives what it gave before. What the master key decrypts
  is thus never another organisation's secret.
\<close>

theorem secret_roundtrip:
  assumes "PutSecret orgID name ct d w = (Inr (), d', w')" "clean w1"
  shows "fst (GetSecret orgID name d' w1) = Inr ct
    \<and> (\<forall>orgID2 name2. (orgID2, name2) \<noteq> (orgID, name) \<longrightarrow> fst (GetSecret orgID2 name2 d' w1) = fst (GetSecret orgID2 name2 d w1))"
  using put_secret_stored [OF assms(1)] by (simp add: GetSecret_clean [OF assms(2)])

theorem secret_roundtrip_witness:
  "\<exists>d' w'. PutSecret 1 ''key'' ''c1ph3r'' empty_db (quiet 5) = (Inr (), d', w')
     \<and> fst (GetSecret 1 ''key'' d' (quiet 6)) = Inr ''c1ph3r'' \<and> fst (GetSecret 2 ''key'' d' (quiet 6)) = Inl ErrNotFound"
proof -
  have "fst (PutSecret 1 ''key'' ''c1ph3r'' empty_db (quiet 5)) = Inr ()"
    "fst (GetSecret 2 ''key'' empty_db (quiet 6)) = Inl ErrNotFound" by code_simp+
  moreover obtain r d' w' where p: "PutSecret 1 ''key'' ''c1ph3r'' empty_db (quiet 5) = (r, d', w')" using prod_cases3 by blast
  ultimately show ?thesis
    using secret_roundtrip [of 1 "''key''" "''c1ph3r''" empty_db "quiet 5" d' w' "quiet 6"] by (auto simp: clean_def)
qed

end
