(* ===== verification/Watcher.thy ===== *)
theory Watcher
  imports Store_PingLog
begin

text \<open>
  The heartbeat watcher (\<^verbatim>\<open>internal/heartbeat/heartbeat.go\<close>, \<^verbatim>\<open>Watcher.Check\<close>) over the
  store interface it declares, what it does to the heartbeats when nothing fails.
\<close>

section \<open>The watcher\<close>

definition miss_of :: "heartbeat \<Rightarrow> event" where
  "miss_of hb = (if fst (snd (Deadline hb)) then OverranEvent hb else OverdueEvent hb)"

text \<open>
  What a round did besides its writes: the events it dispatched (when a dispatcher was
  given) and the heartbeats whose failure it logged.
\<close>

record round_log =
  rl_sent :: "event list"
  rl_errors :: "(string \<times> int) list"

definition logSent :: "bool \<Rightarrow> event \<Rightarrow> round_log \<Rightarrow> round_log" where
  "logSent dispatch ev l = (if dispatch then l\<lparr>rl_sent := rl_sent l @ [ev]\<rparr> else l)"

text \<open>The loop over the due heartbeats: an error or a lost race goes on to the next one.\<close>

fun check_each ::
  "bool \<Rightarrow> (heartbeat \<Rightarrow> event \<Rightarrow> bool tx) \<Rightarrow> heartbeat list \<Rightarrow> round_log \<Rightarrow> round_log tx" where
  "check_each dispatch markDown [] l = ret l"
| "check_each dispatch markDown (hb # due) l =
     bnd (attempt (markDown hb (miss_of hb))) (\<lambda>r.
     case r of
       Inl _ \<Rightarrow>
         bnd ctx_err (\<lambda>stopped.
         check_each dispatch markDown due
           (if stopped then l else l\<lparr>rl_errors := rl_errors l @ [(hb_name hb, hb_id hb)]\<rparr>))
     | Inr fired \<Rightarrow>
         check_each dispatch markDown due (if fired then logSent dispatch (miss_of hb) l else l))"

definition Check ::
  "bool \<Rightarrow> (gotime \<Rightarrow> heartbeat list tx) \<Rightarrow> (heartbeat \<Rightarrow> event \<Rightarrow> bool tx) \<Rightarrow> round_log tx" where
  "Check dispatch dueOp markDown =
     bnd time_now (\<lambda>now.
     bnd (dueOp now) (\<lambda>due. check_each dispatch markDown due \<lparr>rl_sent = [], rl_errors = []\<rparr>))"

section \<open>What the watcher needs of a store\<close>

text \<open>The heartbeat taken down, as its row is read afterwards.\<close>

definition down :: "heartbeat \<Rightarrow> heartbeat" where
  "down h = h\<lparr>hb_status := HbDown, hb_started := 0, hb_rid := []\<rparr>"

definition down_one :: "heartbeat \<Rightarrow> heartbeat list \<Rightarrow> heartbeat list" where
  "down_one hb hs = map (\<lambda>h. if hb_id h = hb_id hb then down h else h) hs"

locale watch_store =
  fixes due :: "gotime \<Rightarrow> heartbeat list tx"
    and markDown :: "heartbeat \<Rightarrow> event \<Rightarrow> bool tx"
    and hbs :: "db \<Rightarrow> heartbeat list"
    and ok :: "db \<Rightarrow> bool"
  assumes ok_distinct: "ok d \<Longrightarrow> distinct (map hb_id (hbs d))"
    and due_returns: "clean w \<Longrightarrow>
      \<exists>w'. due now d w = (Inr (filter (\<lambda>h. overdue h now) (hbs d)), d, w') \<and> clean w'"
    and mark_fires: "ok d \<Longrightarrow> clean w \<Longrightarrow> hb \<in> set (hbs d) \<Longrightarrow> watcher_event hb ev \<Longrightarrow>
      \<exists>d' w'. markDown hb ev d w = (Inr True, d', w') \<and> clean w' \<and> ok d' \<and> hbs d' = down_one hb (hbs d)"
begin

lemma overdue_watched: "overdue hb now \<Longrightarrow> hb_status hb \<noteq> HbDown"
  by (auto simp: overdue_def Deadline_def)

lemma miss_of_watcher: "overdue hb now \<Longrightarrow> watcher_event hb (miss_of hb)"
  by (auto simp: watcher_event_def miss_of_def dest: overdue_watched)

lemma down_one_member:
  "hb \<in> set hs \<Longrightarrow> hb_id hb \<noteq> hb_id g \<Longrightarrow> hb \<in> set (down_one g hs)"
  by (auto simp: down_one_def image_iff intro!: bexI [of _ hb])

lemma down_each:
  assumes "ok d" "clean w" "set due_hbs \<subseteq> set (hbs d)" "distinct (map hb_id due_hbs)"
    and "\<And>h. h \<in> set due_hbs \<Longrightarrow> overdue h now"
  shows "\<exists>d' w'. check_each True markDown due_hbs l d w = (Inr (l\<lparr>rl_sent := rl_sent l @ map miss_of due_hbs\<rparr>), d', w') \<and> clean w' \<and> ok d'
    \<and> hbs d' = map (\<lambda>h. if hb_id h \<in> hb_id ` set due_hbs then down h else h) (hbs d)"
  using assms
proof (induction due_hbs arbitrary: d w l)
  case Nil
  then show ?case by (simp add: ret_def)
next
  case (Cons hb rest)
  from Cons.prems obtain d1 w1 where m: "markDown hb (miss_of hb) d w = (Inr True, d1, w1)"
    "clean w1" "ok d1" "hbs d1 = down_one hb (hbs d)"
    using mark_fires [of d w hb "miss_of hb"] miss_of_watcher [of hb now] by auto
  have "set rest \<subseteq> set (hbs d1)"
    using Cons.prems by (auto simp: m(4) image_iff intro!: down_one_member)
  with Cons.IH [OF m(3,2), of "logSent True (miss_of hb) l"] Cons.prems obtain d2 w2 where r:
    "check_each True markDown rest (logSent True (miss_of hb) l) d1 w1
      = (Inr (l\<lparr>rl_sent := rl_sent l @ map miss_of (hb # rest)\<rparr>), d2, w2)"
    "clean w2" "ok d2" "hbs d2 = map (\<lambda>h. if hb_id h \<in> hb_id ` set rest then down h else h) (hbs d1)"
    by (auto simp: logSent_def)
  have id: "hb_id (down h) = hb_id h" and idem: "down (down h) = down h" for h by (simp_all add: down_def)
  have "hbs d2 = map (\<lambda>h. if hb_id h \<in> hb_id ` set (hb # rest) then down h else h) (hbs d)"
    unfolding r(4) m(4) down_one_def by (auto simp: id idem)
  with m r show ?case by (simp add: bnd_def attempt_def)
qed

lemma check_takes_down:
  assumes "ok d" "clean w"
  obtains now d' w' where
    "Check True due markDown d w
       = (Inr \<lparr>rl_sent = map miss_of (filter (\<lambda>h. overdue h now) (hbs d)), rl_errors = []\<rparr>, d', w')"
    "fst (time_now d w) = Inr now" "ok d'" "hbs d' = map (\<lambda>h. if overdue h now then down h else h) (hbs d)"
proof -
  obtain now w0 where t: "time_now d w = (Inr now, d, w0)" "clean w0"
    using assms(2) by (cases "w_steps w") (auto simp: time_now_def clean_def)
  from due_returns [OF t(2), of now d] obtain w1 where
    u: "due now d w0 = (Inr (filter (\<lambda>h. overdue h now) (hbs d)), d, w1)" "clean w1" by blast
  have dist: "distinct (map hb_id (hbs d))" using ok_distinct assms(1) by blast
  have "\<exists>d' w'. check_each True markDown (filter (\<lambda>h. overdue h now) (hbs d)) \<lparr>rl_sent = [], rl_errors = []\<rparr> d w1
      = (Inr (\<lparr>rl_sent = [], rl_errors = []\<rparr>\<lparr>rl_sent := rl_sent \<lparr>rl_sent = [], rl_errors = []\<rparr>
           @ map miss_of (filter (\<lambda>h. overdue h now) (hbs d))\<rparr>), d', w') \<and> clean w' \<and> ok d'
    \<and> hbs d' = map (\<lambda>h. if hb_id h \<in> hb_id ` set (filter (\<lambda>h. overdue h now) (hbs d)) then down h else h) (hbs d)"
    by (rule down_each [OF assms(1) u(2)]) (use dist in \<open>auto simp: distinct_map_filter\<close>)
  then obtain d' w' where r: "check_each True markDown (filter (\<lambda>h. overdue h now) (hbs d)) \<lparr>rl_sent = [], rl_errors = []\<rparr> d w1
      = (Inr \<lparr>rl_sent = map miss_of (filter (\<lambda>h. overdue h now) (hbs d)), rl_errors = []\<rparr>, d', w')" "ok d'"
    "hbs d' = map (\<lambda>h. if hb_id h \<in> hb_id ` set (filter (\<lambda>h. overdue h now) (hbs d)) then down h else h) (hbs d)"
    by auto
  have "h = g" if "h \<in> set (hbs d)" "g \<in> set (hbs d)" "hb_id h = hb_id g" for h g
    using same_row [OF dist that(1,2)] that(3) by simp
  then have "hbs d' = map (\<lambda>h. if overdue h now then down h else h) (hbs d)"
    unfolding r(3) by (intro map_cong refl) (auto simp: image_iff)
  with t u r show thesis by (intro that [of now d' w']) (simp_all add: Check_def bnd_def)
qed

end

section \<open>The store provides it\<close>

definition hb_rows :: "db \<Rightarrow> heartbeat list" where
  "hb_rows d = map scanHeartbeat (sort_key hr_id (t_hbs d))"

text \<open>Only times that are set are stored, which is what \<^verbatim>\<open>nullTime\<close> sees to.\<close>

definition times_set :: "db \<Rightarrow> bool" where
  "times_set d \<longleftrightarrow> list_all (\<lambda>r. hr_last_seen r \<noteq> Some 0 \<and> hr_started r \<noteq> Some 0) (t_hbs d)"

definition watch_ok :: "db \<Rightarrow> bool" where
  "watch_ok d \<longleftrightarrow> history_ok d \<and> times_set d"

lemma overdue_candidate: "overdue (scanHeartbeat r) now \<Longrightarrow> candidate r"
  by (cases "hr_status r") (auto simp: overdue_def Deadline_def scanHeartbeat_def candidate_def parseTime_def Let_def
      split: if_splits option.splits)

text \<open>The query narrows the rows first; no heartbeat that is overdue is lost by that.\<close>

lemma DueHeartbeats_overdue:
  "clean w \<Longrightarrow> \<exists>w'. DueHeartbeats now d w = (Inr (filter (\<lambda>h. overdue h now) (hb_rows d)), d, w') \<and> clean w'"
proof -
  assume "clean w"
  have "filter (\<lambda>h. overdue h now) (hb_rows d)
      = dueFromCandidates (map scanHeartbeat (sort_key hr_id (filter candidate (t_hbs d)))) now"
    unfolding hb_rows_def dueFromCandidates_def filter_map filter_sort filter_filter
    by (intro arg_cong [where f = "\<lambda>xs. map scanHeartbeat (sort_key hr_id xs)"] filter_cong refl)
      (auto dest: overdue_candidate)
  with \<open>clean w\<close> show ?thesis
    by (simp add: DueHeartbeats_def query_def stmt_def next_fault_def clean_def)
qed


lemma scan_as_observed:
  assumes "distinct (map hr_id (t_hbs d))" "times_set d" "r0 \<in> set (t_hbs d)" "r \<in> set (t_hbs d)"
  shows "as_observed (scanHeartbeat r0) r \<longleftrightarrow> r = r0"
proof
  have "nullTime (parseTime (hr_last_seen r0)) = hr_last_seen r0" "nullTime (parseTime (hr_started r0)) = hr_started r0"
    using assms(2,3) by (auto simp: times_set_def list_all_iff nullTime_def parseTime_def split: option.split)
  then show "as_observed (scanHeartbeat r0) r" if "r = r0"
    using that by (simp add: as_observed_def scanHeartbeat_def)
  show "r = r0" if "as_observed (scanHeartbeat r0) r"
    using that same_row [OF assms(1,4,3)] by (simp add: as_observed_def scanHeartbeat_def)
qed

lemma insort_key_map: "(\<And>x. f (g x) = f x) \<Longrightarrow> insort_key f (g x) (map g ys) = map g (insort_key f x ys)"
  by (induction ys) auto

lemma sort_key_map_key: "(\<And>x. f (g x) = f x) \<Longrightarrow> sort_key f (map g xs) = map g (sort_key f xs)"
  by (induction xs) (simp_all add: insort_key_map)

lemma hb_rows_take_down:
  assumes "distinct (map hr_id (t_hbs d))" "r0 \<in> set (t_hbs d)"
    and "t_hbs d' = map (\<lambda>r. if r = r0 then take_down r else r) (t_hbs d)"
  shows "hb_rows d' = down_one (scanHeartbeat r0) (hb_rows d)"
proof -
  have key: "hr_id (if r = r0 then take_down r else r) = hr_id r" for r by (simp add: take_down_def)
  have "sort_key hr_id (t_hbs d') = map (\<lambda>r. if r = r0 then take_down r else r) (sort_key hr_id (t_hbs d))"
    unfolding assms(3) using key by (simp add: sort_key_map_key)
  moreover have "r = r0 \<longleftrightarrow> hr_id r = hr_id r0" if "r \<in> set (t_hbs d)" for r
    using same_row [OF assms(1) that assms(2)] by auto
  ultimately show ?thesis
    by (auto simp: hb_rows_def down_one_def scanHeartbeat_def take_down_def down_def parseTime_def)
qed


lemma mark_effect:
  assumes "watch_ok d" "r0 \<in> set (t_hbs d)"
  shows "triple (\<lambda>x. x = d) (markHeartbeatDown (scanHeartbeat r0) ev)
    (\<lambda>fired d'. fired \<and> t_hbs d' = map (\<lambda>r. if r = r0 then take_down r else r) (t_hbs d))"
proof -
  let ?hb = "scanHeartbeat r0" and ?rows = "map (\<lambda>r. if r = r0 then take_down r else r) (t_hbs d)"
  have dist: "distinct (map hr_id (t_hbs d))" and ts: "times_set d"
    using assms(1) by (auto simp: watch_ok_def history_ok_def agrees_def balanced_def)
  have obs: "as_observed ?hb r \<longleftrightarrow> r = r0" if "r \<in> set (t_hbs d)" for r
    by (rule scan_as_observed [OF dist ts assms(2) that])
  have upd: "triple (\<lambda>x. x = d) (stmt (\<lambda>d. (list_ex (as_observed ?hb) (t_hbs d), set_hb_rows (as_observed ?hb) take_down d)))
      (\<lambda>changed d'. changed \<and> t_hbs d' = ?rows)"
    by (rule triple_stmt) (use obs assms(2) in \<open>auto simp: set_hb_rows_def list_ex_iff\<close>)
  have emit: "triple (\<lambda>x. t_hbs x = ?rows) (emitEvent ev) (\<lambda>_ x. t_hbs x = ?rows)"
    by (rule tripleI) (use tripleD [OF emitEvent_effect] in \<open>fastforce simp: untouched_def\<close>)
  have rest: "triple (\<lambda>x. changed \<and> t_hbs x = ?rows)
      (if \<not> changed then ret (Rollback False) else bnd (emitEvent ev) (\<lambda>_. ret (Commit True)))
      (\<lambda>r x. case r of Commit a \<Rightarrow> a \<and> t_hbs x = ?rows | Rollback a \<Rightarrow> \<forall>y. y = d \<longrightarrow> a \<and> t_hbs y = ?rows)" for changed
  proof (cases changed)
    case True
    have "triple (\<lambda>x. t_hbs x = ?rows) (bnd (emitEvent ev) (\<lambda>_. ret (Commit True)))
      (\<lambda>r x. case r of Commit a \<Rightarrow> a \<and> t_hbs x = ?rows | Rollback a \<Rightarrow> \<forall>y. y = d \<longrightarrow> a \<and> t_hbs y = ?rows)"
      by (rule triple_bnd [OF emit]) (simp add: triple_def ret_def)
    with True show ?thesis by simp
  qed (simp add: triple_def)
  show ?thesis
    unfolding markHeartbeatDown_def by (rule triple_transact, rule triple_bnd [OF upd rest])
qed

interpretation store_watch: watch_store DueHeartbeats markHeartbeatDown hb_rows watch_ok
proof
  fix d assume ok: "watch_ok d"
  show "distinct (map hb_id (hb_rows d))"
  proof -
    have "map hb_id (hb_rows d) = map hr_id (sort_key hr_id (t_hbs d))"
      by (simp add: hb_rows_def scanHeartbeat_def)
    moreover have "distinct (map hr_id (t_hbs d))"
      using ok by (auto simp: watch_ok_def history_ok_def agrees_def balanced_def)
    ultimately show ?thesis by (auto simp: distinct_map inj_on_def)
  qed
next
  fix w :: world and now d assume "clean w"
  then show "\<exists>w'. DueHeartbeats now d w = (Inr (filter (\<lambda>h. overdue h now) (hb_rows d)), d, w') \<and> clean w'"
    by (rule DueHeartbeats_overdue)
next
  fix d w hb ev assume ok: "watch_ok d" and w: "clean w" and hb: "hb \<in> set (hb_rows d)" and ev: "watcher_event hb ev"
  from hb obtain r0 where r0: "r0 \<in> set (t_hbs d)" "hb = scanHeartbeat r0" by (auto simp: hb_rows_def)
  from ok_mark [of hb ev] w obtain a d' w' where m: "markHeartbeatDown hb ev d w = (Inr a, d', w')" "clean w'"
    unfolding succeeds_def by blast
  from tripleD [OF mark_effect [OF ok r0(1)] refl m(1) [unfolded r0(2)]]
  have e: "a" "t_hbs d' = map (\<lambda>r. if r = r0 then take_down r else r) (t_hbs d)" by auto
  have "history_ok d'"
    using keepsD [OF keeps_hist_mark [OF ev] _ m(1)] ok by (simp add: watch_ok_def)
  moreover have "times_set d'"
    using ok unfolding watch_ok_def times_set_def list_all_iff e(2) by (auto simp: take_down_def)
  moreover have "hb_rows d' = down_one hb (hb_rows d)"
    unfolding r0(2)
    by (rule hb_rows_take_down [OF _ r0(1) e(2)]) (use ok in \<open>auto simp: watch_ok_def history_ok_def agrees_def balanced_def\<close>)
  ultimately show "\<exists>d' w'. markHeartbeatDown hb ev d w = (Inr True, d', w') \<and> clean w' \<and> watch_ok d'
      \<and> hb_rows d' = down_one hb (hb_rows d)"
    using m e(1) by (auto simp: watch_ok_def)
qed

section \<open>Properties\<close>

text \<open>
  C12: A round of the watcher in which no statement fails takes down exactly the heartbeats
  that are overdue, dispatches one miss for each, in order, and leaves every other heartbeat
  as it was.
\<close>

theorem watcher_takes_down_overdue:
  assumes "watch_ok d" "clean w" "time_now d w = (Inr now, d, w0)"
  shows "\<exists>d' w'. Check True DueHeartbeats markHeartbeatDown d w
       = (Inr \<lparr>rl_sent = map miss_of (filter (\<lambda>h. overdue h now) (hb_rows d)), rl_errors = []\<rparr>, d', w')
     \<and> watch_ok d' \<and> hb_rows d' = map (\<lambda>h. if overdue h now then down h else h) (hb_rows d)"
  by (rule store_watch.check_takes_down [OF assms(1,2)]) (use assms(3) in auto)

definition watched_db :: db where
  "watched_db = run_ops
     [OpCreateHeartbeat (sample_hb\<lparr>hb_token := ''t'', hb_period := 60\<rparr>),
      OpCreateHeartbeat (sample_hb\<lparr>hb_token := ''u'', hb_name := ''other'', hb_period := 3600\<rparr>),
      OpPing ''t'' \<lparr>pi_kind = PingSuccess, pi_exit = None, pi_rid = [], pi_body = []\<rparr> 7] empty_db"

theorem watcher_takes_down_overdue_witness:
  "\<exists>d' w'. Check True DueHeartbeats markHeartbeatDown watched_db (quiet (1000 * second))
       = (Inr \<lparr>rl_sent = map miss_of (filter (\<lambda>h. overdue h (1000 * second)) (hb_rows watched_db)), rl_errors = []\<rparr>, d', w')
     \<and> map hb_status (hb_rows d') = [HbDown, HbNew]"
proof -
  have "list_all client_op
     [OpCreateHeartbeat (sample_hb\<lparr>hb_token := ''t'', hb_period := 60\<rparr>),
      OpCreateHeartbeat (sample_hb\<lparr>hb_token := ''u'', hb_name := ''other'', hb_period := 3600\<rparr>),
      OpPing ''t'' \<lparr>pi_kind = PingSuccess, pi_exit = None, pi_rid = [], pi_body = []\<rparr> 7]" by simp
  then have "history_ok watched_db"
    unfolding watched_db_def by (intro client_history client_run_ops client_start)
  moreover have "times_set watched_db" by code_simp
  ultimately have ok: "watch_ok watched_db" by (simp add: watch_ok_def)
  have "map hb_status (map (\<lambda>h. if overdue h (1000 * second) then down h else h) (hb_rows watched_db)) = [HbDown, HbNew]"
    by code_simp
  with watcher_takes_down_overdue [OF ok, of "quiet (1000 * second)" "1000 * second" "quiet (1000 * second)"]
  show ?thesis by (auto simp: clean_def time_now_def)
qed

end
