(* ===== verification/Runner_Model.thy ===== *)
theory Runner_Model
  imports Watcher "HOL-Library.State_Monad"
begin

text \<open>
  The runner (\<^verbatim>\<open>internal/jobs/runner.go\<close>): the scheduler's tick, claiming and running a
  run, recording its result, the reaper, and the resolution of secrets.

  A step of the runner works on three things: the runner itself (the runs it has in flight,
  its streak of failed claims, what it logged and what it handed to its event sink), the
  database and the world. The store is the record of operations that \<^verbatim>\<open>RunnerStore\<close> lists.
  The executor is an argument that works on the same state, because other workers, the
  reaper and other processes go on while a job runs.
\<close>

section \<open>Types\<close>

datatype runner_error = StoreError store_error | ScheduleError schedule_error

datatype log_level = LevelInfo | LevelWarn | LevelError

datatype log_attr = AttrInt int | AttrText string | AttrError runner_error

record log_line =
  ll_level :: log_level
  ll_msg :: string
  ll_attrs :: "(string \<times> log_attr) list"

record runner =
  rn_claimant :: string
  rn_sink :: bool                              \<comment> \<open>whether an event sink was set\<close>
  rn_backoff :: "(int \<Rightarrow> duration) option"      \<comment> \<open>the executor's \<open>Backoff\<close>\<close>
  rn_finish_backoff :: "(int \<Rightarrow> duration) option"
  rn_limits :: "int \<Rightarrow> duration option"          \<comment> \<open>\<open>inFlight.limits\<close>\<close>
  rn_failed :: int                             \<comment> \<open>\<open>claimErrors.failed\<close>\<close>
  rn_last_log :: gotime                        \<comment> \<open>\<open>claimErrors.lastLog\<close>\<close>
  rn_lines :: "log_line list"
  rn_fired :: "event list"

type_synonym rstate = "runner \<times> db \<times> world"
type_synonym 'a rn = "(rstate, 'a) state"

text \<open>The operations of the store that the runner calls.\<close>

record runner_store =
  rs_DueJobs :: "gotime \<Rightarrow> (job list \<times> job_row list) tx"
  rs_EnqueueRun :: "int \<Rightarrow> int \<Rightarrow> int tx"
  rs_UpdateJob :: "job \<Rightarrow> unit tx"
  rs_GetJob :: "int \<Rightarrow> int \<Rightarrow> job tx"
  rs_ClaimRun :: "string \<Rightarrow> run option tx"
  rs_FinishRunAndEmit :: "int \<Rightarrow> run_status \<Rightarrow> int \<Rightarrow> int \<Rightarrow> string \<Rightarrow> event \<Rightarrow> int tx"
  rs_GetSecret :: "int \<Rightarrow> string \<Rightarrow> string tx"
  rs_EmitEvent :: "event \<Rightarrow> int tx"
  rs_RequeueOrphanedRuns :: "nat tx"
  rs_ListRunningRuns :: "run list tx"
  rs_ReapStaleRun :: "int \<Rightarrow> string \<Rightarrow> event \<Rightarrow> bool tx"
  rs_FailUnreadableJob :: "int \<Rightarrow> int \<Rightarrow> string \<Rightarrow> string \<Rightarrow> event tx"

section \<open>Steps\<close>

text \<open>A store call beside some state of the caller's own.\<close>

definition call :: "'a tx \<Rightarrow> ('r \<times> db \<times> world, store_error + 'a) state" where
  "call m = State (\<lambda>(r, d, w). case m d w of (x, d', w') \<Rightarrow> (x, r, d', w'))"

text \<open>The clock and the context do not fail.\<close>

definition clk_now :: "('r \<times> db \<times> world, gotime) state" where
  "clk_now = do { x \<leftarrow> call time_now; State_Monad.return (projr x) }"

definition ctx_done :: "('r \<times> db \<times> world, bool) state" where
  "ctx_done = do { x \<leftarrow> call ctx_err; State_Monad.return (projr x) }"

text \<open>A pause: it ends with the answer whether the context was cancelled meanwhile.\<close>

definition sleep :: "duration \<Rightarrow> bool rn" where
  "sleep p = ctx_done"

definition get_runner :: "runner rn" where
  "get_runner = State (\<lambda>(r, s). (r, r, s))"

definition upd_runner :: "(runner \<Rightarrow> runner) \<Rightarrow> unit rn" where
  "upd_runner f = State (\<lambda>(r, s). ((), f r, s))"

definition log_line :: "log_level \<Rightarrow> string \<Rightarrow> (string \<times> log_attr) list \<Rightarrow> unit rn" where
  "log_line lv msg attrs =
     upd_runner (\<lambda>r. r\<lparr>rn_lines := rn_lines r @ [\<lparr>ll_level = lv, ll_msg = msg, ll_attrs = attrs\<rparr>]\<rparr>)"

definition logError :: "string \<Rightarrow> runner_error \<Rightarrow> (string \<times> log_attr) list \<Rightarrow> unit rn" where
  "logError msg e attrs = do {
     stopped \<leftarrow> ctx_done;
     if stopped then State_Monad.return ()
     else log_line LevelError msg (attrs @ [(''err'', AttrError e)]) }"

definition fire :: "event \<Rightarrow> unit rn" where
  "fire ev = upd_runner (\<lambda>r. if rn_sink r then r\<lparr>rn_fired := rn_fired r @ [ev]\<rparr> else r)"

section \<open>Runs in flight\<close>

definition inFlight_add :: "int \<Rightarrow> duration \<Rightarrow> unit rn" where
  "inFlight_add runID limit = upd_runner (\<lambda>r. r\<lparr>rn_limits := (rn_limits r)(runID \<mapsto> limit)\<rparr>)"

definition inFlight_remove :: "int \<Rightarrow> unit rn" where
  "inFlight_remove runID = upd_runner (\<lambda>r. r\<lparr>rn_limits := (rn_limits r)(runID := None)\<rparr>)"

definition inFlight_limit :: "int \<Rightarrow> duration option rn" where
  "inFlight_limit runID = do { r \<leftarrow> get_runner; State_Monad.return (rn_limits r runID) }"

section \<open>Claims that keep failing\<close>

definition claimErrorRepeat :: duration where "claimErrorRepeat = minute"

definition logClaimError :: "store_error \<Rightarrow> unit rn" where
  "logClaimError e = do {
     stopped \<leftarrow> ctx_done;
     if stopped then State_Monad.return ()
     else do {
       now \<leftarrow> clk_now;
       r \<leftarrow> get_runner;
       let failed = rn_failed r + 1;
       let due = (failed = 1 \<or> time_sub now (rn_last_log r) \<ge> claimErrorRepeat);
       upd_runner (\<lambda>r. r\<lparr>rn_failed := failed, rn_last_log := (if due then now else rn_last_log r)\<rparr>);
       if failed = 1 then log_line LevelError ''runner: claim run'' [(''err'', AttrError (StoreError e))]
       else if due then
         log_line LevelError ''runner: claim run is still failing''
           [(''failed_claims'', AttrInt failed), (''err'', AttrError (StoreError e))]
       else State_Monad.return () } }"

definition claimWorked :: "unit rn" where
  "claimWorked = do {
     r \<leftarrow> get_runner;
     let failed = rn_failed r;
     upd_runner (\<lambda>r. r\<lparr>rn_failed := 0\<rparr>);
     if failed > 0 then log_line LevelInfo ''runner: claim run works again'' [(''failed_claims'', AttrInt failed)]
     else State_Monad.return () }"

section \<open>Secrets\<close>

text \<open>
  The secret reference: braces, optional white space, \<^verbatim>\<open>secret.\<close> and a name, and nothing
  else. The name's characters are neither white space nor braces, so the match is unique.
\<close>

definition re_space :: "char \<Rightarrow> bool" where
  "re_space c \<longleftrightarrow> (of_char c :: nat) \<in> {9, 10, 12, 13, 32}"

definition name_char :: "char \<Rightarrow> bool" where
  "name_char c \<longleftrightarrow>
     (let n = (of_char c :: nat)
      in 65 \<le> n \<and> n \<le> 90 \<or> 97 \<le> n \<and> n \<le> 122 \<or> 48 \<le> n \<and> n \<le> 57 \<or> c = CHR ''_'' \<or> c = CHR ''.'' \<or> c = CHR ''-'')"

definition secretRef :: "string \<Rightarrow> string option" where
  "secretRef v =
     (if take 2 v \<noteq> ''{{'' then None
      else let a = dropWhile re_space (drop 2 v)
           in if take 7 a \<noteq> ''secret.'' then None
              else let b = drop 7 a;
                       name = takeWhile name_char b;
                       rest = dropWhile re_space (dropWhile name_char b)
                   in if name \<noteq> [] \<and> rest = ''}}'' then Some name else None)"

text \<open>
  What decrypts: nothing without a master key, otherwise the box's \<^verbatim>\<open>Decrypt\<close>, with the
  text of its error. \<open>err_text\<close> is the text of a store error.
\<close>

type_synonym secret_box = "(string \<Rightarrow> string + string) option"
type_synonym env = "(string \<times> string) list"

text \<open>The variables are visited in the order the map's iteration yields them, which is any order.\<close>

fun resolve_each ::
  "runner_store \<Rightarrow> secret_box \<Rightarrow> (store_error \<Rightarrow> string) \<Rightarrow> int \<Rightarrow> env \<Rightarrow> env \<Rightarrow> string list
   \<Rightarrow> (string + env \<times> string list) rn" where
  "resolve_each S box err_text orgID [] result secretValues = State_Monad.return (Inr (result, secretValues))"
| "resolve_each S box err_text orgID ((key, v) # vars) result secretValues =
     (case secretRef (trim_space v) of
        None \<Rightarrow> resolve_each S box err_text orgID vars (result @ [(key, v)]) secretValues
      | Some name \<Rightarrow>
          (case box of
             None \<Rightarrow> State_Monad.return (Inl (''secret \"'' @ name @ ''\" referenced but no master key configured''))
           | Some decrypt \<Rightarrow> do {
               x \<leftarrow> call (rs_GetSecret S orgID name);
               case x of
                 Inl e \<Rightarrow> State_Monad.return (Inl (''resolve secret \"'' @ name @ ''\": '' @ err_text e))
               | Inr ciphertext \<Rightarrow>
                   (case decrypt ciphertext of
                      Inl msg \<Rightarrow> State_Monad.return (Inl (''decrypt secret \"'' @ name @ ''\": '' @ msg))
                    | Inr plain \<Rightarrow>
                        resolve_each S box err_text orgID vars (result @ [(key, plain)]) (secretValues @ [plain])) }))"

definition resolveEnv ::
  "runner_store \<Rightarrow> secret_box \<Rightarrow> (store_error \<Rightarrow> string) \<Rightarrow> job \<Rightarrow> (string + env \<times> string list) rn" where
  "resolveEnv S box err_text j = resolve_each S box err_text (j_org j) (j_env j) [] []"

section \<open>Recording a result\<close>

definition finishRetryPauses :: "duration list" where
  "finishRetryPauses = [250 * millisecond, second, 4 * second]"

text \<open>\<^verbatim>\<open>finishBackoff\<close>: the pause \<open>p\<close> of the list, unless the runner has a backoff of its own.\<close>

definition finishBackoff :: "int \<Rightarrow> duration \<Rightarrow> duration rn" where
  "finishBackoff attempts p = do {
     r \<leftarrow> get_runner;
     State_Monad.return (case rn_finish_backoff r of Some f \<Rightarrow> f attempts | None \<Rightarrow> p) }"

fun status_text :: "run_status \<Rightarrow> string" where
  "status_text StatusPending = ''pending''"
| "status_text StatusRunning = ''running''"
| "status_text StatusSucceeded = ''succeeded''"
| "status_text StatusFailed = ''failed''"
| "status_text StatusTimedOut = ''timed_out''"

definition run_attrs :: "run \<Rightarrow> job \<Rightarrow> (string \<times> log_attr) list" where
  "run_attrs run j = [(''run'', AttrInt (r_id run)), (''job'', AttrText (j_name j))]"

definition log_shutdown :: "run \<Rightarrow> job \<Rightarrow> run_status \<Rightarrow> int \<Rightarrow> store_error \<Rightarrow> unit rn" where
  "log_shutdown run j status tries e =
     log_line LevelWarn
       ''runner: result not recorded because of shutdown; the run is left running, to be requeued at the next start''
       (run_attrs run j @ [(''status'', AttrText (status_text status)), (''finish_attempt'', AttrInt tries),
          (''err'', AttrError (StoreError e))])"

text \<open>
  One attempt: done, not to be retried, or ended by a cancelled context; otherwise \<open>again\<close>
  says what follows. The result is the error that \<^verbatim>\<open>finish\<close> returns.
\<close>

definition finish_once ::
  "runner_store \<Rightarrow> run \<Rightarrow> job \<Rightarrow> run_status \<Rightarrow> int \<Rightarrow> int \<Rightarrow> string \<Rightarrow> event \<Rightarrow> int
   \<Rightarrow> (store_error \<Rightarrow> store_error option rn) \<Rightarrow> store_error option rn" where
  "finish_once S run j status exitCode attempts out termEv tries again = do {
     x \<leftarrow> call (rs_FinishRunAndEmit S (r_id run) status exitCode attempts out termEv);
     case x of
       Inr _ \<Rightarrow> do { fire termEv; State_Monad.return None }
     | Inl e \<Rightarrow>
         let attrs = run_attrs run j @ [(''status'', AttrText (status_text status)),
               (''exit_code'', AttrInt exitCode), (''finish_attempt'', AttrInt tries)]
         in if e = ErrRunNotRunning then do {
              log_line LevelWarn
                (if tries > 1 then ''runner: run was already finished when its finish was retried; this attempt wrote nothing''
                 else ''runner: discarded late result of a run that is no longer running'') attrs;
              State_Monad.return None }
            else if e = ErrRunGone then do {
              log_line LevelWarn ''runner: run no longer exists, result dropped'' attrs;
              State_Monad.return (Some e) }
            else do {
              stopped \<leftarrow> ctx_done;
              if stopped then do { log_shutdown run j status tries e; State_Monad.return (Some e) }
              else again e } }"

fun finish_from ::
  "runner_store \<Rightarrow> run \<Rightarrow> job \<Rightarrow> run_status \<Rightarrow> int \<Rightarrow> int \<Rightarrow> string \<Rightarrow> event \<Rightarrow> duration list \<Rightarrow> int
   \<Rightarrow> store_error option rn" where
  "finish_from S run j status exitCode attempts out termEv [] tries =
     finish_once S run j status exitCode attempts out termEv tries (\<lambda>e. do {
       log_line LevelError ''runner: finish run failed, result not recorded''
         (run_attrs run j @ [(''status'', AttrText (status_text status)), (''finish_attempts'', AttrInt tries),
            (''err'', AttrError (StoreError e))]);
       State_Monad.return (Some e) })"
| "finish_from S run j status exitCode attempts out termEv (p # pauses) tries =
     finish_once S run j status exitCode attempts out termEv tries (\<lambda>e. do {
       pause \<leftarrow> finishBackoff tries p;
       log_line LevelWarn ''runner: finish run failed, retrying''
         (run_attrs run j @ [(''finish_attempt'', AttrInt tries), (''retry_in'', AttrInt pause),
            (''err'', AttrError (StoreError e))]);
       stopped \<leftarrow> sleep pause;
       if stopped then do { log_shutdown run j status tries e; State_Monad.return (Some e) }
       else finish_from S run j status exitCode attempts out termEv pauses (tries + 1) })"

definition finish ::
  "runner_store \<Rightarrow> run \<Rightarrow> job \<Rightarrow> run_status \<Rightarrow> int \<Rightarrow> int \<Rightarrow> string \<Rightarrow> bool \<Rightarrow> event
   \<Rightarrow> store_error option rn" where
  "finish S run j status exitCode attempts out truncated termEv =
     (let ev = (if ev_type termEv = RunFailed
                then termEv\<lparr>ev_detail := failureDetail j status exitCode out truncated\<rparr> else termEv)
      in finish_from S run j status exitCode attempts out ev finishRetryPauses 1)"

section \<open>Claiming and running\<close>

definition buildEvent :: "run \<Rightarrow> job \<Rightarrow> event_type \<Rightarrow> run_status \<Rightarrow> int \<Rightarrow> event" where
  "buildEvent run j typ status exitCode = RunEvent run (j_name j) typ status exitCode"

definition emit :: "runner_store \<Rightarrow> run \<Rightarrow> job \<Rightarrow> event_type \<Rightarrow> run_status \<Rightarrow> int \<Rightarrow> store_error option rn" where
  "emit S run j typ status exitCode = do {
     x \<leftarrow> call (rs_EmitEvent S (buildEvent run j typ status exitCode));
     State_Monad.return (case x of Inl e \<Rightarrow> Some e | Inr _ \<Rightarrow> None) }"

text \<open>What the executor gives for a job, its environment and the secrets in it.\<close>

type_synonym executor = "job \<Rightarrow> env \<Rightarrow> string list \<Rightarrow> run_result rn"

definition execute_run ::
  "runner_store \<Rightarrow> secret_box \<Rightarrow> (store_error \<Rightarrow> string) \<Rightarrow> executor \<Rightarrow> run \<Rightarrow> job \<Rightarrow> store_error option rn" where
  "execute_run S box err_text exec run j = do {
     lost \<leftarrow> emit S run j RunStarted StatusRunning 0;
     (case lost of
        None \<Rightarrow> State_Monad.return ()
      | Some e \<Rightarrow> do {
          stopped \<leftarrow> ctx_done;
          if stopped then State_Monad.return ()
          else log_line LevelWarn ''runner: record run.started'' (run_attrs run j @ [(''err'', AttrError (StoreError e))]) });
     resolved \<leftarrow> resolveEnv S box err_text j;
     case resolved of
       Inl msg \<Rightarrow>
         finish S run j StatusFailed (-1) (r_attempt run) (''secret resolution failed: '' @ msg) False
           (buildEvent run j RunFailed StatusFailed (-1))
     | Inr (vars, secretValues) \<Rightarrow> do {
         res \<leftarrow> exec j vars secretValues;
         let out = storedOutput (rr_output res) secretValues (rr_truncated res);
         let termType = (if rr_status res = StatusSucceeded then RunSucceeded else RunFailed);
         finish S run j (rr_status res) (rr_exit res) (rr_attempt res) out (rr_truncated res)
           (buildEvent run j termType (rr_status res) (rr_exit res)) } }"

definition claimAndRun ::
  "runner_store \<Rightarrow> secret_box \<Rightarrow> (store_error \<Rightarrow> string) \<Rightarrow> executor \<Rightarrow> (bool \<times> store_error option) rn" where
  "claimAndRun S box err_text exec = do {
     r \<leftarrow> get_runner;
     x \<leftarrow> call (rs_ClaimRun S (if rn_claimant r = [] then workerName else rn_claimant r));
     case x of
       Inl e \<Rightarrow> do { logClaimError e; State_Monad.return (False, Some e) }
     | Inr claimed \<Rightarrow> do {
         claimWorked;
         case claimed of
           None \<Rightarrow> State_Monad.return (False, None)
         | Some run \<Rightarrow> do {
             y \<leftarrow> call (rs_GetJob S (r_org run) (r_job run));
             case y of
               Inl e \<Rightarrow> do {
                 logError ''runner: load job of claimed run'' (StoreError e)
                   [(''run'', AttrInt (r_id run)), (''job_id'', AttrInt (r_job run))];
                 State_Monad.return (True, Some e) }
             | Inr j \<Rightarrow> do {
                 inFlight_add (r_id run) (maxRunDuration (rn_backoff r) j);
                 err \<leftarrow> execute_run S box err_text exec run j;
                 inFlight_remove (r_id run);
                 State_Monad.return (True, err) } } } }"

text \<open>Draining, with a bound on the runs it takes: None when the bound is used up.\<close>

fun DrainOnce ::
  "nat \<Rightarrow> runner_store \<Rightarrow> secret_box \<Rightarrow> (store_error \<Rightarrow> string) \<Rightarrow> executor \<Rightarrow> store_error option option rn" where
  "DrainOnce 0 S box err_text exec = State_Monad.return None"
| "DrainOnce (Suc n) S box err_text exec = do {
     (claimed, err) \<leftarrow> claimAndRun S box err_text exec;
     case err of
       Some e \<Rightarrow> State_Monad.return (Some (Some e))
     | None \<Rightarrow> if \<not> claimed then State_Monad.return (Some None) else DrainOnce n S box err_text exec }"

section \<open>The scheduler's tick\<close>

definition first_of :: "runner_error option \<Rightarrow> runner_error \<Rightarrow> runner_error option" where
  "first_of firstErr e = (case firstErr of None \<Rightarrow> Some e | Some f \<Rightarrow> Some f)"

definition tick_error :: "job \<Rightarrow> string \<Rightarrow> runner_error \<Rightarrow> runner_error option \<Rightarrow> runner_error option rn" where
  "tick_error j step e firstErr = do {
     logError (''runner: scheduler tick: '' @ step) e [(''job'', AttrText (j_name j))];
     State_Monad.return (first_of firstErr e) }"

definition update_next :: "runner_store \<Rightarrow> job \<Rightarrow> gotime \<Rightarrow> string \<Rightarrow> runner_error option \<Rightarrow> runner_error option rn" where
  "update_next S j next step firstErr = do {
     x \<leftarrow> call (rs_UpdateJob S (j\<lparr>j_next_run := next\<rparr>));
     case x of
       Inl e \<Rightarrow> tick_error j step (StoreError e) firstErr
     | Inr _ \<Rightarrow> State_Monad.return firstErr }"

definition tick_job :: "runner_store \<Rightarrow> cron_parser \<Rightarrow> gotime \<Rightarrow> job \<Rightarrow> runner_error option \<Rightarrow> runner_error option rn" where
  "tick_job S parse now j firstErr = do {
     x \<leftarrow> call (rs_EnqueueRun S (j_org j) (j_id j));
     case x of
       Inl e \<Rightarrow> tick_error j ''enqueue run'' (StoreError e) firstErr
     | Inr _ \<Rightarrow>
         (case NextRun parse j now of
            Inl e \<Rightarrow> do {
              firstErr \<leftarrow> tick_error j ''compute next run'' (ScheduleError e) firstErr;
              update_next S j 0 ''clear schedule'' firstErr }
          | Inr next \<Rightarrow> update_next S j next ''advance schedule'' firstErr) }"

fun tick_jobs ::
  "runner_store \<Rightarrow> cron_parser \<Rightarrow> gotime \<Rightarrow> job list \<Rightarrow> runner_error option \<Rightarrow> runner_error option rn" where
  "tick_jobs S parse now [] firstErr = State_Monad.return firstErr"
| "tick_jobs S parse now (j # due) firstErr = do {
     firstErr \<leftarrow> tick_job S parse now j firstErr;
     tick_jobs S parse now due firstErr }"

text \<open>\<open>why\<close> is the text of the error of a row that does not decode.\<close>

definition UnreadableRunOutput :: "(job_row \<Rightarrow> string) \<Rightarrow> job_row \<Rightarrow> string" where
  "UnreadableRunOutput why u =
     ''FAIL: the job's definition cannot be read, so it was not run and is no longer scheduled: '' @ why u
     @ [newline, newline]
     @ ''Fix it with tend sync (the job's entry overwrites the row), or remove it with tend job rm ''
     @ j_name (jr_job u) @ ''.''"

fun tick_unreadable ::
  "runner_store \<Rightarrow> (job_row \<Rightarrow> string) \<Rightarrow> job_row list \<Rightarrow> runner_error option \<Rightarrow> runner_error option rn" where
  "tick_unreadable S why [] firstErr = State_Monad.return firstErr"
| "tick_unreadable S why (u # us) firstErr =
     (let j = jr_job u; attrs = [(''job'', AttrText (j_name j)), (''job_id'', AttrInt (j_id j))] in do {
     logError ''runner: scheduler tick: job cannot be read; recording a failed run and no longer scheduling it''
       (StoreError (ErrUnreadable (j_id j))) attrs;
     x \<leftarrow> call (rs_FailUnreadableJob S (j_org j) (j_id j) (j_name j) (UnreadableRunOutput why u));
     case x of
       Inl e \<Rightarrow> do {
         logError ''runner: scheduler tick: record the failed run of a job that cannot be read'' (StoreError e) attrs;
         tick_unreadable S why us (first_of firstErr (StoreError e)) }
     | Inr ev \<Rightarrow> do { fire ev; tick_unreadable S why us firstErr } })"

definition Tick :: "runner_store \<Rightarrow> cron_parser \<Rightarrow> (job_row \<Rightarrow> string) \<Rightarrow> runner_error option rn" where
  "Tick S parse why = do {
     now \<leftarrow> clk_now;
     x \<leftarrow> call (rs_DueJobs S now);
     case x of
       Inl e \<Rightarrow> do {
         logError ''runner: scheduler tick: list due jobs'' (StoreError e) [];
         State_Monad.return (Some (StoreError e)) }
     | Inr (due, unreadable) \<Rightarrow> do {
         firstErr \<leftarrow> tick_jobs S parse now due None;
         tick_unreadable S why unreadable firstErr } }"

section \<open>The reaper\<close>

definition reapSlack :: duration where "reapSlack = 2 * minute"

definition withinWindow :: "duration \<Rightarrow> duration \<Rightarrow> bool" where
  "withinWindow elapsed limit \<longleftrightarrow> elapsed < reapSlack \<or> wrap64 (elapsed - reapSlack) < limit"

definition reap_error :: "run \<Rightarrow> string \<Rightarrow> store_error \<Rightarrow> runner_error option \<Rightarrow> runner_error option rn" where
  "reap_error run step e firstErr = do {
     logError (''runner: reaper: '' @ step) (StoreError e) [(''run'', AttrInt (r_id run))];
     State_Monad.return (first_of firstErr (StoreError e)) }"

definition reap_reason :: "duration \<Rightarrow> string \<Rightarrow> string" where
  "reap_reason limit cause =
     ''run still 'running' '' @ duration_string reapSlack @ '' past its '' @ duration_string limit
     @ '' time limit ('' @ cause @ '')''"

definition reap_run :: "runner_store \<Rightarrow> run \<Rightarrow> job \<Rightarrow> duration \<Rightarrow> string \<Rightarrow> runner_error option \<Rightarrow> runner_error option rn" where
  "reap_run S run j limit cause firstErr =
     (let out = ''reaped: '' @ reap_reason limit cause;
          termEv = (buildEvent run j RunFailed StatusFailed (-1))
                     \<lparr>ev_detail := failureDetail j StatusFailed (-1) out False\<rparr>
      in do {
        x \<leftarrow> call (rs_ReapStaleRun S (r_id run) out termEv);
        case x of
          Inl e \<Rightarrow> reap_error run ''fail stale run'' e firstErr
        | Inr reaped \<Rightarrow>
            if reaped then do {
              log_line LevelWarn ''runner: reaped stale run''
                (run_attrs run j @ [(''reason'', AttrText (reap_reason limit cause))]);
              fire termEv;
              State_Monad.return firstErr }
            else State_Monad.return firstErr })"

definition reap_one :: "runner_store \<Rightarrow> gotime \<Rightarrow> run \<Rightarrow> runner_error option \<Rightarrow> runner_error option rn" where
  "reap_one S now run firstErr =
     (if r_started run = 0 then State_Monad.return firstErr
      else
        let elapsed = time_sub now (r_started run) in do {
        ours \<leftarrow> inFlight_limit (r_id run);
        if (case ours of Some limit \<Rightarrow> withinWindow elapsed limit | None \<Rightarrow> False)
        then State_Monad.return firstErr
        else do {
          x \<leftarrow> call (rs_GetJob S (r_org run) (r_job run));
          case x of
            Inl e \<Rightarrow> reap_error run ''load job'' e firstErr
          | Inr j \<Rightarrow>
              (case ours of
                 Some limit \<Rightarrow> reap_run S run j limit ''worker has not returned'' firstErr
               | None \<Rightarrow> do {
                   r \<leftarrow> get_runner;
                   let limit = maxRunDuration (rn_backoff r) j;
                   if withinWindow elapsed limit then State_Monad.return firstErr
                   else reap_run S run j limit ''worker lost'' firstErr }) } })"

fun reap_each :: "runner_store \<Rightarrow> gotime \<Rightarrow> run list \<Rightarrow> runner_error option \<Rightarrow> runner_error option rn" where
  "reap_each S now [] firstErr = State_Monad.return firstErr"
| "reap_each S now (run # runs) firstErr = do {
     firstErr \<leftarrow> reap_one S now run firstErr;
     reap_each S now runs firstErr }"

definition ReapOnce :: "runner_store \<Rightarrow> runner_error option rn" where
  "ReapOnce S = do {
     x \<leftarrow> call (rs_ListRunningRuns S);
     case x of
       Inl e \<Rightarrow> do {
         logError ''runner: reaper: list running runs'' (StoreError e) [];
         State_Monad.return (Some (StoreError e)) }
     | Inr runs \<Rightarrow> do { now \<leftarrow> clk_now; reap_each S now runs None } }"

section \<open>Starting\<close>

definition defaultTickInterval :: duration where "defaultTickInterval = 10 * second"
definition defaultWorkers :: int where "defaultWorkers = 2"

text \<open>
  \<^verbatim>\<open>Start\<close> up to its goroutines: the tick interval, the number of workers and the poll
  interval they run with, or the error that keeps them from starting.
\<close>

definition start_setup :: "runner_store \<Rightarrow> duration \<Rightarrow> int \<Rightarrow> (store_error + duration \<times> int \<times> duration) rn" where
  "start_setup S TickInterval Workers = do {
     x \<leftarrow> call (rs_RequeueOrphanedRuns S);
     case x of
       Inl e \<Rightarrow> State_Monad.return (Inl e)
     | Inr requeued \<Rightarrow> do {
         (if requeued > 0
          then log_line LevelInfo ''runner: requeued runs left running by an earlier process'' [(''runs'', AttrInt (int requeued))]
          else State_Monad.return ());
         let tick = (if TickInterval \<le> 0 then defaultTickInterval else TickInterval);
         let workers = (if Workers < 1 then defaultWorkers else Workers);
         let poll = (if tick > second then second else tick);
         State_Monad.return (Inr (tick, workers, poll)) } }"

text \<open>One turn of a draining worker's loop; True when the worker ends.\<close>

definition worker_turn ::
  "runner_store \<Rightarrow> secret_box \<Rightarrow> (store_error \<Rightarrow> string) \<Rightarrow> executor \<Rightarrow> duration \<Rightarrow> bool rn" where
  "worker_turn S box err_text exec poll = do {
     stopped \<leftarrow> ctx_done;
     if stopped then State_Monad.return True
     else do {
       (claimed, err) \<leftarrow> claimAndRun S box err_text exec;
       if err \<noteq> None then sleep poll
       else if claimed then State_Monad.return False
       else sleep poll } }"

text \<open>The SQLite store as the runner sees it.\<close>

definition sqlite_store :: runner_store where
  "sqlite_store =
     \<lparr>rs_DueJobs = DueJobs, rs_EnqueueRun = EnqueueRun, rs_UpdateJob = UpdateJob, rs_GetJob = GetJob,
      rs_ClaimRun = ClaimRun, rs_FinishRunAndEmit = FinishRunAndEmit, rs_GetSecret = GetSecret,
      rs_EmitEvent = EmitEvent, rs_RequeueOrphanedRuns = RequeueOrphanedRuns,
      rs_ListRunningRuns = ListRunningRuns, rs_ReapStaleRun = ReapStaleRun,
      rs_FailUnreadableJob = FailUnreadableJob\<rparr>"

end
