(* ===== verification/Runner_Client.thy ===== *)
theory Runner_Client
  imports Runner_Model Store_RunLife
begin

text \<open>
  What the runner does to a store: the laws it needs of the operations, and that under them
  the scheduler, the workers and the reaper only ever take steps that a client of the store
  may take, wherever a store call fails and whenever the process is told to stop.
\<close>

section \<open>The database along a computation\<close>

definition dbase :: "'r \<times> db \<times> world \<Rightarrow> db" where
  "dbase s = fst (snd s)"

lemma dbase_simps [simp]: "dbase (r, d, w) = d"
  by (simp add: dbase_def)

lemma run_call [simp]: "run_state (call m) (r, d, w) = (case m d w of (x, d', w') \<Rightarrow> (x, r, d', w'))"
  by (simp add: call_def)

abbreviation moves :: "(db \<Rightarrow> db \<Rightarrow> bool) \<Rightarrow> ('r \<times> db \<times> world, 'a) state \<Rightarrow> bool" where
  "moves R m \<equiv> state_io_rel (\<lambda>s s'. R (dbase s) (dbase s')) m"

text \<open>The value of a computation, whatever state it starts in.\<close>

abbreviation yields :: "('a \<Rightarrow> bool) \<Rightarrow> ('r \<times> db \<times> world, 'a) state \<Rightarrow> bool" where
  "yields P m \<equiv> pred_state P m"

locale step_order =
  fixes steps :: "db \<Rightarrow> db \<Rightarrow> bool"
  assumes steps_refl: "steps d d"
    and steps_trans: "steps d d' \<Longrightarrow> steps d' d'' \<Longrightarrow> steps d d''"
begin

lemma moves_return: "moves steps (State_Monad.return a)"
  by (rule state_io_relI) (simp add: steps_refl)

lemma moves_bind_dep:
  assumes "moves steps m" "yields P m" "\<And>a. P a \<Longrightarrow> moves steps (f a)"
  shows "moves steps (State_Monad.bind m f)"
proof (rule state_io_relI)
  fix a s s'
  assume b: "run_state (State_Monad.bind m f) s = (a, s')"
  obtain x s1 where 1: "run_state m s = (x, s1)" by (cases "run_state m s")
  with b have "run_state (f x) s1 = (a, s')" by simp
  moreover have "P x" using assms(2) 1 by (rule pred_stateD)
  ultimately show "steps (dbase s) (dbase s')"
    using assms(1,3) 1 steps_trans by (meson state_io_relD)
qed

lemma moves_bind: "moves steps m \<Longrightarrow> (\<And>a. moves steps (f a)) \<Longrightarrow> moves steps (State_Monad.bind m f)"
  by (rule moves_bind_dep [where P = "\<lambda>_. True"]) auto

lemma moves_call: "(\<And>d w x d' w'. m d w = (x, d', w') \<Longrightarrow> steps d d') \<Longrightarrow> moves steps (call m)"
  by (rule state_io_relI) (auto simp: call_def split: prod.splits)

lemma moves_runner: "moves steps get_runner" "moves steps (upd_runner f)"
  by (auto intro!: state_io_relI simp: get_runner_def upd_runner_def steps_refl)

lemma moves_clock: "moves steps clk_now" "moves steps ctx_done" "moves steps (sleep p)"
proof -
  show "moves steps clk_now"
    unfolding clk_now_def
    by (intro moves_bind moves_return moves_call) (auto simp: time_now_def steps_refl split: list.splits)
  show d: "moves steps ctx_done"
    unfolding ctx_done_def
    by (intro moves_bind moves_return moves_call) (auto simp: ctx_err_def steps_refl split: list.splits)
  show "moves steps (sleep p)" unfolding sleep_def by (rule d)
qed

lemma moves_if: "(b \<Longrightarrow> moves steps m) \<Longrightarrow> (\<not> b \<Longrightarrow> moves steps n) \<Longrightarrow> moves steps (if b then m else n)"
  by simp

lemma moves_option: "moves steps m \<Longrightarrow> (\<And>a. moves steps (f a)) \<Longrightarrow> moves steps (case x of None \<Rightarrow> m | Some a \<Rightarrow> f a)"
  by (cases x) simp_all

lemma moves_sum: "(\<And>e. moves steps (g e)) \<Longrightarrow> (\<And>a. moves steps (f a)) \<Longrightarrow>
    moves steps (case x of Inl e \<Rightarrow> g e | Inr a \<Rightarrow> f a)"
  by (cases x) simp_all

lemma moves_prod: "(\<And>a b. moves steps (f a b)) \<Longrightarrow> moves steps (case x of (a, b) \<Rightarrow> f a b)"
  by (cases x) simp_all

lemma moves_log: "moves steps (log_line lv msg attrs)" "moves steps (fire ev)"
  unfolding log_line_def fire_def by (rule moves_runner)+

lemmas moves_basic = moves_return moves_bind moves_runner moves_clock moves_if moves_option moves_sum moves_prod moves_log

lemma moves_logError: "moves steps (logError msg e attrs)"
  unfolding logError_def by (intro moves_basic)

lemma moves_claims: "moves steps (logClaimError e)" "moves steps claimWorked"
  unfolding logClaimError_def claimWorked_def Let_def by (intro moves_basic)+

lemma moves_inFlight:
  "moves steps (inFlight_add i l)" "moves steps (inFlight_remove i)" "moves steps (inFlight_limit i)"
  unfolding inFlight_add_def inFlight_remove_def inFlight_limit_def by (intro moves_basic)+

lemmas moves_rules = moves_basic moves_logError moves_claims moves_inFlight

end

section \<open>The laws of the store\<close>

locale runner_store_laws = step_order +
  fixes S :: runner_store
  assumes due_reads: "rs_DueJobs S now d w = (x1, d', w') \<Longrightarrow> steps d d'"
    and get_reads: "rs_GetJob S orgID i d w = (x2, d', w') \<Longrightarrow> steps d d'"
    and secret_reads: "rs_GetSecret S orgID name d w = (x3, d', w') \<Longrightarrow> steps d d'"
    and running_reads: "rs_ListRunningRuns S d w = (x4, d', w') \<Longrightarrow> steps d d'"
    and enqueue_steps: "rs_EnqueueRun S orgID i d w = (x5, d', w') \<Longrightarrow> steps d d'"
    and update_steps: "rs_UpdateJob S j d w = (x6, d', w') \<Longrightarrow> steps d d'"
    and claim_steps: "rs_ClaimRun S worker d w = (x7, d', w') \<Longrightarrow> steps d d'"
    and emit_steps: "ev_type ev = RunStarted \<Longrightarrow> rs_EmitEvent S ev d w = (x8, d', w') \<Longrightarrow> steps d d'"
    and finish_steps: "terminal status \<Longrightarrow> ends_run_as i status ev \<Longrightarrow>
      rs_FinishRunAndEmit S i status exitCode attempts out ev d w = (x9, d', w') \<Longrightarrow> steps d d'"
    and requeue_steps: "rs_RequeueOrphanedRuns S d w = (x10, d', w') \<Longrightarrow> steps d d'"
    and reap_steps: "ends_run_as i StatusFailed ev \<Longrightarrow> rs_ReapStaleRun S i out ev d w = (x11, d', w') \<Longrightarrow> steps d d'"
    and unreadable_steps: "rs_FailUnreadableJob S orgID i name out d w = (x12, d', w') \<Longrightarrow> steps d d'"
begin

lemma calls:
  "moves steps (call (rs_DueJobs S now))" "moves steps (call (rs_GetJob S orgID i))"
  "moves steps (call (rs_GetSecret S orgID name))" "moves steps (call (rs_ListRunningRuns S))"
  "moves steps (call (rs_EnqueueRun S orgID i))" "moves steps (call (rs_UpdateJob S j))"
  "moves steps (call (rs_ClaimRun S worker))" "moves steps (call (rs_RequeueOrphanedRuns S))"
  "moves steps (call (rs_FailUnreadableJob S orgID i name out))"
  "ev_type ev = RunStarted \<Longrightarrow> moves steps (call (rs_EmitEvent S ev))"
  "terminal status \<Longrightarrow> ends_run_as i status ev \<Longrightarrow>
    moves steps (call (rs_FinishRunAndEmit S i status exitCode attempts out ev))"
  "ends_run_as i StatusFailed ev \<Longrightarrow> moves steps (call (rs_ReapStaleRun S i out ev))"
  by (rule moves_call, erule due_reads get_reads secret_reads running_reads enqueue_steps update_steps
      claim_steps requeue_steps unreadable_steps emit_steps finish_steps reap_steps; assumption?)+

lemma moves_resolve: "moves steps (resolve_each S box err_text orgID vars result secs)"
  by (induction vars arbitrary: result secs) (auto intro!: moves_rules calls)

lemma moves_finish_once:
  assumes "terminal status" "ends_run_as (r_id run) status ev" "\<And>e. moves steps (again e)"
  shows "moves steps (finish_once S run j status exitCode attempts out ev tries again)"
  unfolding finish_once_def Let_def log_shutdown_def
  by (intro moves_rules calls assms)

lemma moves_finish_from:
  assumes "terminal status" "ends_run_as (r_id run) status ev"
  shows "moves steps (finish_from S run j status exitCode attempts out ev pauses tries)"
  by (induction pauses arbitrary: tries)
    (auto simp: finishBackoff_def log_shutdown_def intro!: moves_finish_once assms moves_rules)

lemma moves_finish:
  assumes "terminal status" "ends_run_as (r_id run) status ev"
  shows "moves steps (finish S run j status exitCode attempts out truncated ev)"
  unfolding finish_def Let_def
  by (intro moves_finish_from) (use assms in \<open>auto simp: ends_run_as_def\<close>)

lemma built_event: "ends_run_as (r_id run) status
    (buildEvent run j (if status = StatusSucceeded then RunSucceeded else RunFailed) status exitCode)"
  by (simp add: ends_run_as_def buildEvent_def RunEvent_def)

lemma moves_emit: "moves steps (emit S run j RunStarted StatusRunning 0)"
  unfolding emit_def
  by (intro moves_rules calls) (simp add: buildEvent_def RunEvent_def)

lemma moves_execute:
  assumes "\<And>j vars secs. moves steps (exec j vars secs)"
    and "\<And>j vars secs. yields (\<lambda>res. terminal (rr_status res)) (exec j vars secs)"
  shows "moves steps (execute_run S box err_text exec run j)"
proof -
  have failed: "moves steps (finish S run j StatusFailed (-1) (r_attempt run) out False (buildEvent run j RunFailed StatusFailed (-1)))" for out
    using built_event [of run StatusFailed j "-1"] by (intro moves_finish) (simp_all add: terminal_def)
  have finished: "moves steps (do { res \<leftarrow> exec j vars secs;
      let out = storedOutput (rr_output res) secs (rr_truncated res);
      let termType = (if rr_status res = StatusSucceeded then RunSucceeded else RunFailed);
      finish S run j (rr_status res) (rr_exit res) (rr_attempt res) out (rr_truncated res)
        (buildEvent run j termType (rr_status res) (rr_exit res)) })" for vars secs
    unfolding Let_def by (rule moves_bind_dep [OF assms]) (rule moves_finish, assumption, rule built_event)
  show ?thesis
    unfolding execute_run_def resolveEnv_def
    by (intro moves_rules moves_emit moves_resolve failed finished)
qed

lemma moves_claimAndRun:
  assumes "\<And>j vars secs. moves steps (exec j vars secs)"
    and "\<And>j vars secs. yields (\<lambda>res. terminal (rr_status res)) (exec j vars secs)"
  shows "moves steps (claimAndRun S box err_text exec)"
  unfolding claimAndRun_def by (intro moves_rules calls moves_execute assms)

lemma moves_drain:
  assumes "\<And>j vars secs. moves steps (exec j vars secs)"
    and "\<And>j vars secs. yields (\<lambda>res. terminal (rr_status res)) (exec j vars secs)"
  shows "moves steps (DrainOnce n S box err_text exec)"
  by (induction n) (auto intro!: moves_rules moves_claimAndRun assms)

lemma moves_tick: "moves steps (Tick S parse why)"
proof -
  have jobs: "moves steps (tick_jobs S parse now due e)" for now due e
    by (induction due arbitrary: e)
      (auto simp: tick_job_def tick_error_def update_next_def intro!: moves_rules calls)
  have bad: "moves steps (tick_unreadable S why us e)" for us e
    by (induction us arbitrary: e) (auto simp: Let_def intro!: moves_rules calls)
  show ?thesis unfolding Tick_def by (intro moves_rules calls jobs bad)
qed

lemma moves_reap: "moves steps (ReapOnce S)"
proof -
  have run: "moves steps (reap_run S run j limit cause e)" for run j limit cause e
  proof -
    have "ends_run_as (r_id run) StatusFailed (buildEvent run j RunFailed StatusFailed (- 1)\<lparr>ev_detail := x\<rparr>)" for x
      by (simp add: ends_run_as_def buildEvent_def RunEvent_def)
    then show ?thesis
      unfolding reap_run_def Let_def reap_error_def by (intro moves_rules calls) auto
  qed
  have each: "moves steps (reap_each S now runs e)" for now runs e
    by (induction runs arbitrary: e) (auto simp: reap_one_def reap_error_def Let_def intro!: moves_rules calls run)
  show ?thesis unfolding ReapOnce_def by (intro moves_rules calls each)
qed

lemma moves_start: "moves steps (start_setup S tick workers)"
  unfolding start_setup_def Let_def by (intro moves_rules calls)

end

section \<open>The SQLite store keeps the laws\<close>

lemma client_steps_trans: "client_steps d' d'' \<Longrightarrow> client_steps d d' \<Longrightarrow> client_steps d d''"
  by (induction rule: client_steps.induct) (auto intro: client_step)

lemma client_steps_reachable: "client_steps d d' \<Longrightarrow> client_reachable d \<Longrightarrow> client_reachable d'"
  by (induction rule: client_steps.induct) (auto intro: client_after)

lemma client_step_op: "client_op op \<Longrightarrow> exec_op op d w = (x, d', w') \<Longrightarrow> client_steps d d'"
  by (rule client_step [OF client_refl _ store_step.step])

lemma client_step_void:
  assumes "client_op op" "exec_op op = void m" "m d w = (x, d', w')"
  shows "client_steps d d'"
proof -
  have "\<exists>y. exec_op op d w = (y, d', w')"
    using assms(2,3) by (cases x) (simp_all add: void_def bnd_def ret_def)
  with client_step_op [OF assms(1)] show ?thesis by blast
qed

lemma reads_only: "keeps (\<lambda>x. x = d) m \<Longrightarrow> m d w = (x, d', w') \<Longrightarrow> client_steps d d'"
  using keepsD [of "\<lambda>x. x = d" m d w x d' w'] by (auto intro: client_refl)

lemma keeps_reads:
  "keeps I (DueJobs now)" "keeps I (GetJob orgID i)" "keeps I (GetSecret orgID name)" "keeps I ListRunningRuns"
  unfolding DueJobs_def GetJob_def GetSecret_def ListRunningRuns_def get_accounts_def or_not_found_def
  by (intro tx_rules)+

lemmas sqlite_steps =
  client_step_op [where op = "OpUpdateJob j" for j, unfolded client_op.simps exec_op.simps, OF TrueI]
  exec_op.simps(4-10) [THEN client_step_void [rotated], unfolded client_op.simps, simplified]

interpretation sqlite: runner_store_laws client_steps sqlite_store
  by unfold_locales
    (auto simp: sqlite_store_def intro: client_refl client_steps_trans sqlite_steps reads_only keeps_reads)

section \<open>Properties\<close>

text \<open>
  Everything the scheduler, the reaper and the workers do keeps the client contract, for every
  executor that gives a terminal status and lets only such steps happen meanwhile.
\<close>

lemma runner_keeps_contract:
  assumes "client_reachable (dbase s)"
    and "\<forall>j vars secs. moves client_steps (exec j vars secs)
      \<and> yields (\<lambda>res. terminal (rr_status res)) (exec j vars secs)"
    and "run_state (Tick sqlite_store parse why) s = (e1, s1)"
    and "run_state (claimAndRun sqlite_store box err_text exec) s1 = (e2, s2)"
    and "run_state (ReapOnce sqlite_store) s2 = (e3, s3)"
  shows "client_steps (dbase s) (dbase s3) \<and> client_reachable (dbase s1) \<and> client_reachable (dbase s2)
    \<and> client_reachable (dbase s3)"
proof -
  have 1: "client_steps (dbase s) (dbase s1)" by (rule state_io_relD [OF sqlite.moves_tick assms(3)])
  have 2: "client_steps (dbase s1) (dbase s2)"
    by (rule state_io_relD [OF sqlite.moves_claimAndRun assms(4)]) (use assms(2) in auto)
  have 3: "client_steps (dbase s2) (dbase s3)" by (rule state_io_relD [OF sqlite.moves_reap assms(5)])
  show ?thesis
    using 1 2 3 assms(1) by (blast intro: client_steps_trans client_steps_reachable)
qed

text \<open>A runner that has just started, and a job that is due and needs a secret.\<close>

definition fresh_runner :: runner where
  "fresh_runner = \<lparr>rn_claimant = [], rn_sink = True, rn_backoff = None, rn_finish_backoff = None,
     rn_limits = (\<lambda>_. None), rn_failed = 0, rn_last_log = 0, rn_lines = [], rn_fired = []\<rparr>"

definition due_job :: job where
  "due_job = \<lparr>j_id = 0, j_org = 1, j_name = ''backup'', j_type = Shell, j_command = ''true'', j_http_url = [],
     j_http_method = [], j_http_body = [], j_cron = [], j_interval = 60, j_run_at = 0, j_timeout = 10,
     j_max_retries = 0, j_enabled = True, j_env = [(''A'', '' {{ secret.key }}'')], j_spec = None, j_next_run = 3,
     j_created = 0, j_updated = 0\<rparr>"

definition due_state :: rstate where
  "due_state = (fresh_runner, run_ops [OpCreateJob due_job] empty_db, quiet 5)"

end
