(* ===== verification/Runner_Laws.thy ===== *)
theory Runner_Laws
  imports Runner_Client
begin

text \<open>
  What the runner guarantees about results and the reaper: a result is recorded although
  the store fails for a while, a late one is dropped, and a run inside its time limit is
  never reaped.
\<close>

section \<open>Running the steps\<close>

lemma run_runner [simp]:
  "run_state get_runner (r, d, w) = (r, r, d, w)" "run_state (upd_runner f) (r, d, w) = ((), f r, d, w)"
  by (simp_all add: get_runner_def upd_runner_def)

lemma run_ctx: "w_cancelled w = [] \<Longrightarrow> run_state ctx_done (r, d, w) = (False, r, d, w)"
  by (simp add: ctx_done_def ctx_err_def)

lemma run_sleep: "w_cancelled w = [] \<Longrightarrow> run_state (sleep p) (r, d, w) = (False, r, d, w)"
  by (simp add: sleep_def run_ctx)

definition fired :: "event \<Rightarrow> runner \<Rightarrow> runner" where
  "fired ev r = (if rn_sink r then r\<lparr>rn_fired := rn_fired r @ [ev]\<rparr> else r)"

lemma run_fire [simp]: "run_state (fire ev) (r, d, w) = ((), fired ev r, d, w)"
  by (simp add: fire_def fired_def)

text \<open>What only the log of a runner differs in.\<close>

definition same_but_lines :: "runner \<Rightarrow> runner \<Rightarrow> bool" where
  "same_but_lines r r' \<longleftrightarrow> r' = r\<lparr>rn_lines := rn_lines r'\<rparr>"

lemma run_log: "\<exists>r'. run_state (log_line lv msg attrs) (r, d, w) = ((), r', d, w) \<and> same_but_lines r r'"
  by (simp add: log_line_def same_but_lines_def)

lemma same_but_lines_refl [simp]: "same_but_lines r r"
  by (simp add: same_but_lines_def)

lemma same_but_lines_trans: "same_but_lines r r' \<Longrightarrow> same_but_lines r' r'' \<Longrightarrow> same_but_lines r r''"
  unfolding same_but_lines_def by (cases r, cases r', cases r'') simp

section \<open>Recording a result\<close>

lemma transact_fault:
  "w_faults w = Fault # fs \<Longrightarrow> transact m d w = (Inl DbError, d, w\<lparr>w_faults := fs\<rparr>)"
  by (simp add: transact_def next_fault_def)

lemma finish_attempt_fault:
  "w_faults w = Fault # fs \<Longrightarrow>
   FinishRunAndEmit i status x n out ev d w = (Inl DbError, d, w\<lparr>w_faults := fs\<rparr>)"
  by (simp add: FinishRunAndEmit_def transact_fault)

text \<open>A store that fails for a while: the next pause, and then one attempt more.\<close>

lemma finish_from_fault:
  assumes "w_faults w = Fault # fs" "w_cancelled w = []"
  shows "\<exists>r'. same_but_lines r r' \<and>
    run_state (finish_from sqlite_store run j status x n out ev pauses tries) (r, d, w) =
      (case pauses of
         [] \<Rightarrow> (Some DbError, r', d, w\<lparr>w_faults := fs\<rparr>)
       | p # ps \<Rightarrow> run_state (finish_from sqlite_store run j status x n out ev ps (tries + 1)) (r', d, w\<lparr>w_faults := fs\<rparr>))"
proof -
  have fin: "rs_FinishRunAndEmit sqlite_store = FinishRunAndEmit" by (simp add: sqlite_store_def)
  let ?w = "w\<lparr>w_faults := fs\<rparr>"
  have ctx: "run_state ctx_done (r, d, ?w) = (False, r, d, ?w)" "run_state (sleep p) (r, d, ?w) = (False, r, d, ?w)" for r p
    using assms(2) by (simp_all add: run_ctx run_sleep)
  show ?thesis
  proof (cases pauses)
    case Nil
    then show ?thesis
      by (auto simp: finish_once_def fin finish_attempt_fault [OF assms(1)] ctx log_line_def same_but_lines_def)
  next
    case (Cons p ps)
    let ?line = "\<lparr>ll_level = LevelWarn, ll_msg = ''runner: finish run failed, retrying'',
      ll_attrs = run_attrs run j @ [(''finish_attempt'', AttrInt tries),
        (''retry_in'', AttrInt (case rn_finish_backoff r of Some f \<Rightarrow> f tries | None \<Rightarrow> p)),
        (''err'', AttrError (StoreError DbError))]\<rparr>"
    show ?thesis
      by (rule exI [where x = "r\<lparr>rn_lines := rn_lines r @ [?line]\<rparr>"])
        (simp add: Cons finish_once_def fin finish_attempt_fault [OF assms(1)] ctx finishBackoff_def log_line_def
          same_but_lines_def)
  qed
qed

lemma finish_from_clean:
  assumes "clean w" "list_ex (is_running (r_id run)) (t_runs d)" "distinct (map rw_id (t_runs d))"
  shows "\<exists>d' w'. run_state (finish_from sqlite_store run j status x n out ev pauses tries) (r, d, w)
       = (None, fired ev r, d', w') \<and> finish_written (r_id run) status x n out ev d d'"
proof -
  from succeedsD [OF ok_finish, of "r_id run" d w status x n out ev] assms obtain k d' w' where
    f: "FinishRunAndEmit (r_id run) status x n out ev d w = (Inr k, d', w')" by blast
  have "triple (\<lambda>d0. d0 = d) (FinishRunAndEmit (r_id run) status x n out ev)
      (\<lambda>_. finish_written (r_id run) status x n out ev d)"
    unfolding FinishRunAndEmit_def by (rule finish_committed [OF assms(3)])
  from tripleD [OF this refl f] have "finish_written (r_id run) status x n out ev d d'" .
  with f show ?thesis by (cases pauses) (auto simp: finish_once_def sqlite_store_def)
qed

lemma finish_from_retries:
  assumes "w_faults w = replicate k Fault" "w_cancelled w = []" "k \<le> length pauses"
    and "list_ex (is_running (r_id run)) (t_runs d)" "distinct (map rw_id (t_runs d))"
  shows "\<exists>r' d' w'. run_state (finish_from sqlite_store run j status x n out ev pauses tries) (r, d, w)
       = (None, fired ev r', d', w') \<and> same_but_lines r r' \<and> finish_written (r_id run) status x n out ev d d'"
  using assms
proof (induction k arbitrary: w pauses tries r)
  case 0
  then have "clean w" by (simp add: clean_def)
  from finish_from_clean [OF this 0(4,5)] show ?case by fastforce
next
  case (Suc k)
  then obtain p ps where ps: "pauses = p # ps" by (cases pauses) auto
  let ?w = "w\<lparr>w_faults := replicate k Fault\<rparr>"
  from finish_from_fault [of w "replicate k Fault" r run j status x n out ev pauses tries d] Suc.prems ps
  obtain r1 where r1: "same_but_lines r r1"
    "run_state (finish_from sqlite_store run j status x n out ev pauses tries) (r, d, w)
      = run_state (finish_from sqlite_store run j status x n out ev ps (tries + 1)) (r1, d, ?w)" by auto
  from Suc.IH [of ?w ps "tries + 1" r1] Suc.prems ps obtain r' d' w' where
    "run_state (finish_from sqlite_store run j status x n out ev ps (tries + 1)) (r1, d, ?w) = (None, fired ev r', d', w')"
    "same_but_lines r1 r'" "finish_written (r_id run) status x n out ev d d'" by auto
  with r1 show ?case by (auto intro: same_but_lines_trans)
qed

lemma finish_from_gives_up:
  assumes "w_faults w = replicate (Suc (length pauses) + k) Fault" "w_cancelled w = []"
  shows "\<exists>r'. run_state (finish_from sqlite_store run j status x n out ev pauses tries) (r, d, w)
       = (Some DbError, r', d, w\<lparr>w_faults := replicate k Fault\<rparr>) \<and> same_but_lines r r'"
  using assms
proof (induction pauses arbitrary: w tries r)
  case Nil
  with finish_from_fault [of w "replicate k Fault" r run j status x n out ev "[]" tries d] show ?case by auto
next
  case (Cons p ps)
  let ?w = "w\<lparr>w_faults := replicate (Suc (length ps) + k) Fault\<rparr>"
  from finish_from_fault [of w "replicate (Suc (length ps) + k) Fault" r run j status x n out ev "p # ps" tries d] Cons.prems
  obtain r1 where r1: "same_but_lines r r1"
    "run_state (finish_from sqlite_store run j status x n out ev (p # ps) tries) (r, d, w)
      = run_state (finish_from sqlite_store run j status x n out ev ps (tries + 1)) (r1, d, ?w)" by auto
  from Cons.IH [of ?w "tries + 1" r1] Cons.prems obtain r' where
    "run_state (finish_from sqlite_store run j status x n out ev ps (tries + 1)) (r1, d, ?w)
      = (Some DbError, r', d, ?w\<lparr>w_faults := replicate k Fault\<rparr>)" "same_but_lines r1 r'" by auto
  with r1 show ?case by (auto intro: same_but_lines_trans)
qed

definition with_detail :: "job \<Rightarrow> run_status \<Rightarrow> int \<Rightarrow> string \<Rightarrow> bool \<Rightarrow> event \<Rightarrow> event" where
  "with_detail j status x out truncated ev =
     (if ev_type ev = RunFailed then ev\<lparr>ev_detail := failureDetail j status x out truncated\<rparr> else ev)"

lemma finish_is:
  "finish S run j status x n out truncated ev
     = finish_from S run j status x n out (with_detail j status x out truncated ev) finishRetryPauses 1"
  by (simp add: finish_def with_detail_def)

lemma finish_nothing_running:
  assumes "clean w" "\<not> list_ex (is_running i) (t_runs d)"
  shows "\<exists>w'. FinishRunAndEmit i status x n out ev d w
    = (Inl (if find_run i d = None then ErrRunGone else ErrRunNotRunning), d, w')"
proof -
  have same: "set_run_rows (is_running i) f d = d" for f
    using assms(2) by (simp add: set_run_rows_def list_ex_iff map_idI)
  show ?thesis
    using assms(1)
    by (cases "w_steps w")
      (simp_all add: FinishRunAndEmit_def transact_def finishRunTx_def bnd_def time_now_def stmt_def query_def
        throw_def next_fault_def clean_def assms(2) same)
qed

section \<open>Properties\<close>


abbreviation claimed :: run where
  "claimed \<equiv> \<lparr>r_id = 1, r_org = 1, r_job = 1, r_status = StatusRunning, r_attempt = 1, r_exit = 0, r_output = [],
     r_claimed_by = ''runner'', r_started = 5, r_ended = 0, r_created = 5\<rparr>"


text \<open>
  C38: A run that is no longer running keeps the outcome it has: a late result is not
  written, no event is recorded or fired, and the worker goes on without an error; when
  the run itself is gone, nothing is written either, but the worker gets an error.
\<close>

theorem late_result_dropped:
  assumes "clean w" "\<not> list_ex (is_running (r_id run)) (t_runs d)"
  shows "\<exists>r' w'. run_state (finish sqlite_store run j status x n out truncated ev) (r, d, w)
      = (if find_run (r_id run) d = None then Some ErrRunGone else None, r', d, w')
    \<and> same_but_lines r r' \<and> length (rn_lines r') = Suc (length (rn_lines r))"
proof -
  obtain w' where "FinishRunAndEmit (r_id run) status x n out (with_detail j status x out truncated ev) d w
    = (Inl (if find_run (r_id run) d = None then ErrRunGone else ErrRunNotRunning), d, w')"
    using finish_nothing_running [OF assms] by blast
  then show ?thesis
    by (auto simp: finish_is finishRetryPauses_def finish_once_def sqlite_store_def log_line_def same_but_lines_def)
qed

theorem late_result_dropped_witness:
  "\<exists>r' w'. run_state (finish sqlite_store claimed due_job StatusSucceeded 0 1 ''ok'' False sample_run_event)
      (fresh_runner, run_ops run_history empty_db, quiet 9) = (None, r', run_ops run_history empty_db, w')"
proof -
  let ?d = "run_ops run_history empty_db"
  have "\<not> list_ex (is_running (r_id claimed)) (t_runs ?d)" "(find_run (r_id claimed) ?d = None) = False" by code_simp+
  with late_result_dropped [of "quiet 9" claimed ?d due_job StatusSucceeded 0 1 "''ok''" False sample_run_event fresh_runner]
  show ?thesis by (auto simp: clean_def)
qed

section \<open>The reaper\<close>

lemma withinWindow_iff: "in64 elapsed \<Longrightarrow> 0 \<le> limit \<Longrightarrow> withinWindow elapsed limit \<longleftrightarrow> elapsed < reapSlack + limit"
proof -
  assume "in64 elapsed" "0 \<le> limit"
  then have "elapsed < reapSlack \<or> in64 (elapsed - reapSlack)"
    by (auto simp: in64_def min_int64_def max_int64_def reapSlack_def)
  with \<open>0 \<le> limit\<close> show ?thesis by (auto simp: withinWindow_def)
qed

text \<open>What a computation does between two states, for any order on states.\<close>

lemma io_return: "reflp R \<Longrightarrow> state_io_rel R (State_Monad.return a)"
  by (rule state_io_relI) (simp add: reflpD)

lemma io_bind:
  assumes "transp R" "state_io_rel R m" "\<And>a. state_io_rel R (f a)"
  shows "state_io_rel R (State_Monad.bind m f)"
proof (rule state_io_relI)
  fix a s s' assume b: "run_state (State_Monad.bind m f) s = (a, s')"
  obtain x s1 where 1: "run_state m s = (x, s1)" by (cases "run_state m s")
  with b have "run_state (f x) s1 = (a, s')" by simp
  with assms 1 show "R s s'" by (meson state_io_relD transpD)
qed

text \<open>Going from one state to another, a row stays as it is and the limits of the runs in flight too.\<close>

definition leaves :: "run_row \<Rightarrow> rstate \<Rightarrow> rstate \<Rightarrow> bool" where
  "leaves row s s' \<longleftrightarrow>
     rn_limits (fst s') = rn_limits (fst s) \<and> (row \<in> set (t_runs (dbase s)) \<longrightarrow> row \<in> set (t_runs (dbase s')))"

lemma leaves_order: "reflp (leaves row)" "transp (leaves row)"
  by (auto simp: leaves_def intro!: reflpI transpI)

lemmas leaves_basic = io_return [OF leaves_order(1)] io_bind [OF leaves_order(2)]

lemma leaves_call: "keeps (\<lambda>d. row \<in> set (t_runs d)) m \<Longrightarrow> state_io_rel (leaves row) (call m)"
  by (auto intro!: state_io_relI simp: leaves_def call_def dest: keepsD split: prod.splits)

lemma leaves_runner:
  "(\<And>r. rn_limits (f r) = rn_limits r) \<Longrightarrow> state_io_rel (leaves row) (upd_runner f)"
  "state_io_rel (leaves row) get_runner"
  by (auto intro!: state_io_relI simp: leaves_def upd_runner_def get_runner_def)

lemma leaves_clock: "state_io_rel (leaves row) clk_now" "state_io_rel (leaves row) ctx_done"
  unfolding clk_now_def ctx_done_def by (intro leaves_basic leaves_call tx_rules)+

lemma leaves_log:
  "state_io_rel (leaves row) (log_line lv msg attrs)" "state_io_rel (leaves row) (fire ev)"
  "state_io_rel (leaves row) (logError msg e attrs)" "state_io_rel (leaves row) (inFlight_limit i)"
proof -
  show 1: "state_io_rel (leaves row) (log_line lv msg attrs)" for lv msg attrs
    unfolding log_line_def by (rule leaves_runner) simp
  show "state_io_rel (leaves row) (fire ev)" unfolding fire_def by (rule leaves_runner) simp
  show "state_io_rel (leaves row) (logError msg e attrs)"
    unfolding logError_def by (auto intro!: leaves_basic leaves_clock 1)
  show "state_io_rel (leaves row) (inFlight_limit i)"
    unfolding inFlight_limit_def by (auto intro!: leaves_basic leaves_runner)
qed

interpretation one_row: about_runs "\<lambda>d. row \<in> set (t_runs d)" for row
  by unfold_locales simp

lemma keeps_other_row: "i \<noteq> rw_id row \<Longrightarrow> keeps (\<lambda>d. row \<in> set (t_runs d)) (ReapStaleRun i out ev)"
  unfolding ReapStaleRun_def
  by (intro keeps_transact_body tx_rules keeps_stmt one_row.keeps_emit)
    (auto simp: set_run_rows_def is_running_def image_iff intro!: bexI [of _ row])

lemma leaves_reap_run:
  assumes "r_id run \<noteq> rw_id row"
  shows "state_io_rel (leaves row) (reap_run sqlite_store run j limit cause e)"
  unfolding reap_run_def Let_def reap_error_def
  by (auto intro!: leaves_basic leaves_log leaves_call keeps_other_row assms split: sum.split simp: sqlite_store_def)

lemma leaves_reap_one:
  assumes "r_id run \<noteq> rw_id row"
  shows "state_io_rel (leaves row) (reap_one sqlite_store now run e)"
proof -
  have get: "rs_GetJob sqlite_store = GetJob" by (simp add: sqlite_store_def)
  show ?thesis
    unfolding reap_one_def Let_def reap_error_def get
    by (auto intro!: leaves_basic leaves_log leaves_call leaves_runner keeps_reads leaves_reap_run assms
        split: sum.split option.split)
qed

text \<open>A run in flight, inside its claim-time limit, is passed over.\<close>

lemma reap_one_spares:
  assumes "rn_limits r (r_id run) = Some limit" "0 \<le> limit" "time_sub now (r_started run) < reapSlack + limit"
  shows "run_state (reap_one S now run e) (r, d, w) = (e, r, d, w)"
proof -
  have "in64 (time_sub now (r_started run))" by (simp add: time_sub_def in64_def min_int64_def max_int64_def)
  with assms have "withinWindow (time_sub now (r_started run)) limit" by (simp add: withinWindow_iff)
  with assms(1) show ?thesis by (simp add: reap_one_def inFlight_limit_def Let_def)
qed

lemma leaves_reap_each:
  assumes "\<And>run. run \<in> set runs \<Longrightarrow> r_id run = rw_id row \<Longrightarrow> run = scanRun row"
    and "0 \<le> limit" "time_sub now (parseTime (rw_started row)) < reapSlack + limit"
    and "run_state (reap_each sqlite_store now runs e) s = (e', s')" "rn_limits (fst s) (rw_id row) = Some limit"
  shows "leaves row s s'"
  using assms
proof (induction runs arbitrary: e s)
  case Nil
  then show ?case using leaves_order(1) by (auto dest: reflpD)
next
  case (Cons run runs)
  obtain e1 s1 where 1: "run_state (reap_one sqlite_store now run e) s = (e1, s1)" by (metis surj_pair)
  have "leaves row s s1"
  proof (cases "r_id run = rw_id row")
    case True
    with Cons.prems(1) have "run = scanRun row" by simp
    moreover obtain r d w where "s = (r, d, w)" using prod_cases3 by blast
    ultimately have "s1 = s"
      using 1 Cons.prems(2,3,5) reap_one_spares [of r run limit now sqlite_store e d w] by (simp add: scanRun_def)
    then show ?thesis using leaves_order(1) by (auto dest: reflpD)
  next
    case False
    with leaves_reap_one 1 show ?thesis by (blast dest: state_io_relD)
  qed
  moreover have "leaves row s1 s'"
  proof (rule Cons.IH)
    show "run_state (reap_each sqlite_store now runs e1) s1 = (e', s')" using Cons.prems(4) 1 by simp
    show "rn_limits (fst s1) (rw_id row) = Some limit" using \<open>leaves row s s1\<close> Cons.prems(5) by (simp add: leaves_def)
  qed (use Cons.prems in auto)
  ultimately show ?case using leaves_order(2) by (blast dest: transpD)
qed

text \<open>The time a sweep sees: the first reading of the clock.\<close>

definition next_now :: "world \<Rightarrow> gotime" where
  "next_now w = w_clock w + (case w_steps w of [] \<Rightarrow> 0 | s # _ \<Rightarrow> int s)"

lemma next_now_fault: "next_now (snd (next_fault w)) = next_now w"
  by (cases "w_faults w") (simp_all add: next_now_def next_fault_def)

lemma query_cases:
  obtains (fails) "query f d w = (Inl DbError, d, snd (next_fault w))"
  | (answers) "query f d w = (Inr (f d), d, snd (next_fault w))"
  by (cases "next_fault w", cases "fst (next_fault w)") (auto simp: query_def stmt_def)

text \<open>
  C5: The reaper never takes a run from a worker of this process that is still within its
  time limit, as computed from the job when the run was claimed, whatever became of the job
  since: until its limit and the slack have passed, a sweep leaves the run's row as it is,
  however the store fails and whatever else the sweep reaps.
\<close>

theorem reaper_spares_in_flight:
  assumes "distinct (map rw_id (t_runs d))" "row \<in> set (t_runs d)"
    and "rn_limits r (rw_id row) = Some limit" "0 \<le> limit"
    and "time_sub (next_now w) (parseTime (rw_started row)) < reapSlack + limit"
    and "run_state (ReapOnce sqlite_store) (r, d, w) = (e, r', d', w')"
  shows "row \<in> set (t_runs d')"
proof -
  let ?runs = "map scanRun (sort_key rw_id (filter (\<lambda>r. rw_status r = StatusRunning) (t_runs d)))"
  have list: "rs_ListRunningRuns sqlite_store = ListRunningRuns" by (simp add: sqlite_store_def)
  have ids: "run = scanRun row" if "run \<in> set ?runs" "r_id run = rw_id row" for run
  proof -
    from that(1) obtain x where "x \<in> set (t_runs d)" "run = scanRun x" by auto
    moreover from this that(2) have "x = row" by (intro same_row [OF assms(1) _ assms(2)]) (simp_all add: scanRun_def)
    ultimately show ?thesis by simp
  qed
  from query_cases [of "\<lambda>d. map scanRun (sort_key rw_id (filter (\<lambda>r. rw_status r = StatusRunning) (t_runs d)))" d w]
  consider (failed) w1 where "ListRunningRuns d w = (Inl DbError, d, w1)"
    | (listed) w1 where "ListRunningRuns d w = (Inr ?runs, d, w1)" "next_now w1 = next_now w"
    unfolding ListRunningRuns_def by (metis next_now_fault)
  then show ?thesis
  proof cases
    case failed
    then have "run_state (logError ''runner: reaper: list running runs'' (StoreError DbError) []) (r, d, w1) = ((), r', d', w')"
      using assms(6) by (simp add: ReapOnce_def list split: prod.splits)
    with leaves_log(3) [of row] have "leaves row (r, d, w1) (r', d', w')" by (blast dest: state_io_relD)
    with assms(2) show ?thesis by (simp add: leaves_def)
  next
    case listed
    obtain w2 where clk: "run_state clk_now (r, d, w1) = (next_now w, r, d, w2)"
      using listed(2) by (cases "w_steps w1") (auto simp: clk_now_def time_now_def next_now_def)
    have each: "run_state (reap_each sqlite_store (next_now w) ?runs None) (r, d, w2) = (e, r', d', w')"
      using assms(6) by (simp add: ReapOnce_def list listed clk)
    have "leaves row (r, d, w2) (r', d', w')"
      by (rule leaves_reap_each [OF _ assms(4,5) each]) (use ids assms(3) in auto)
    with assms(2) show ?thesis by (simp add: leaves_def)
  qed
qed

theorem reaper_spares_in_flight_witness:
  "\<exists>e r' d' w'. run_state (ReapOnce sqlite_store)
       (fresh_runner\<lparr>rn_limits := [1 \<mapsto> hour]\<rparr>, running_db, quiet (40 * minute)) = (e, r', d', w')
     \<and> hd (t_runs running_db) \<in> set (t_runs d')"
proof -
  let ?row = "hd (t_runs running_db)"
  have row: "distinct (map rw_id (t_runs running_db))" "?row \<in> set (t_runs running_db)" "rw_id ?row = 1"
    "time_sub (next_now (quiet (40 * minute))) (parseTime (rw_started ?row)) < reapSlack + hour"
    by code_simp+
  obtain e r' d' w' where m: "run_state (ReapOnce sqlite_store)
       (fresh_runner\<lparr>rn_limits := [1 \<mapsto> hour]\<rparr>, running_db, quiet (40 * minute)) = (e, r', d', w')"
    by (metis surj_pair)
  have "?row \<in> set (t_runs d')"
    by (rule reaper_spares_in_flight [OF row(1,2) _ _ row(4) m]) (simp_all add: row(3))
  with m show ?thesis by blast
qed

end
