(* ===== verification/Runner_Tick.thy ===== *)
theory Runner_Tick
  imports Runner_Laws
begin

text \<open>
  The scheduler never overlaps the runs of a job, and a job whose secrets do not resolve is
  never executed.
\<close>

section \<open>Runs of one job\<close>

definition active_runs :: "db \<Rightarrow> int \<Rightarrow> nat" where
  "active_runs d i = length (filter (\<lambda>r. rw_job r = i \<and> active r) (t_runs d))"

definition no_overlap :: "db \<Rightarrow> bool" where
  "no_overlap d \<longleftrightarrow> (\<forall>i. active_runs d i \<le> 1)"

definition no_more :: "db \<Rightarrow> db \<Rightarrow> bool" where
  "no_more d d' \<longleftrightarrow> (\<forall>i. active_runs d' i \<le> active_runs d i)"

interpretation no_more: step_order no_more
  by unfold_locales (auto simp: no_more_def intro: order_trans)

interpretation active_at_most: about_runs "\<lambda>d. \<forall>i. active_runs d i \<le> c i" for c
  by unfold_locales (simp add: active_runs_def)

lemma no_more_call:
  "(\<And>c. keeps (\<lambda>d. \<forall>i. active_runs d i \<le> c i) m) \<Longrightarrow> moves no_more (call m)"
proof (rule no_more.moves_call)
  fix d w x d' w' assume k: "\<And>c. keeps (\<lambda>d. \<forall>i. active_runs d i \<le> c i) m" and m: "m d w = (x, d', w')"
  from keepsD [OF k [of "active_runs d"] _ m] show "no_more d d'" by (simp add: no_more_def)
qed

lemma keeps_update_job: "keeps (\<lambda>d. \<forall>i. active_runs d i \<le> c i) (UpdateJob j)"
  unfolding UpdateJob_def
  by (intro tx_rules keeps_auto_stmt keeps_case_sum) (auto simp: active_runs_def set_job_rows_def)

lemma keeps_fail_unreadable: "keeps (\<lambda>d. \<forall>i. active_runs d i \<le> c i) (FailUnreadableJob orgID i name out)"
  unfolding FailUnreadableJob_def Let_def
  by (intro keeps_transact_body keeps_bnd keeps_time_now keeps_ret keeps_stmt active_at_most.keeps_record active_at_most.same_exec)
    (auto simp: active_runs_def add_run_def failed_run_def active_def set_job_rows_def)

text \<open>One more run for the job at most, whether the enqueueing succeeds or not.\<close>

definition one_more :: "int \<Rightarrow> db \<Rightarrow> db \<Rightarrow> bool" where
  "one_more i d d' \<longleftrightarrow> (\<forall>k. active_runs d' k \<le> active_runs d k + (if k = i then 1 else 0))"

lemma one_more_trans: "one_more i d d' \<Longrightarrow> no_more d' d'' \<Longrightarrow> one_more i d d''"
  unfolding one_more_def no_more_def by (meson order_trans)

lemma enqueue_one_more: "EnqueueRun orgID i d w = (x, d', w') \<Longrightarrow> one_more i d d'"
  by (auto simp: EnqueueRun_def bnd_def time_now_def auto_stmt_def Let_def case_prod_beta add_run_def pending_run_def
      one_more_def active_runs_def active_def split: list.splits fault.splits)

lemma moves_bind_first:
  assumes "moves (one_more i) m" "\<And>a. moves no_more (f a)"
  shows "moves (one_more i) (State_Monad.bind m f)"
proof (rule state_io_relI)
  fix a s s' assume b: "run_state (State_Monad.bind m f) s = (a, s')"
  obtain x s1 where 1: "run_state m s = (x, s1)" by (cases "run_state m s")
  with b have "run_state (f x) s1 = (a, s')" by simp
  with assms 1 show "one_more i (dbase s) (dbase s')" by (meson state_io_relD one_more_trans)
qed

lemma tick_job_one_more: "moves (one_more (j_id j)) (tick_job sqlite_store parse now j e)"
proof -
  have ops: "rs_EnqueueRun sqlite_store = EnqueueRun" "rs_UpdateJob sqlite_store = UpdateJob"
    by (simp_all add: sqlite_store_def)
  have first: "moves (one_more (j_id j)) (call (EnqueueRun (j_org j) (j_id j)))"
    by (rule state_io_relI) (auto simp: call_def dest!: enqueue_one_more split: prod.splits)
  show ?thesis
    unfolding tick_job_def ops
    by (rule moves_bind_first [OF first])
      (auto simp: update_next_def ops tick_error_def intro!: no_more.moves_rules no_more_call keeps_update_job
        split: sum.split)
qed

lemma tick_jobs_no_overlap:
  assumes "run_state (tick_jobs sqlite_store parse now due e) s = (e', s')"
    and "no_overlap (dbase s)" "distinct (map j_id due)" "\<And>j. j \<in> set due \<Longrightarrow> active_runs (dbase s) (j_id j) = 0"
  shows "no_overlap (dbase s')"
  using assms
proof (induction due arbitrary: e s)
  case (Cons j due)
  obtain e1 s1 where 1: "run_state (tick_job sqlite_store parse now j e) s = (e1, s1)" by (metis surj_pair)
  then have om: "one_more (j_id j) (dbase s) (dbase s1)" using tick_job_one_more by (rule state_io_relD [rotated])
  show ?case
  proof (rule Cons.IH)
    show "run_state (tick_jobs sqlite_store parse now due e1) s1 = (e', s')" using Cons.prems(1) 1 by simp
    show "no_overlap (dbase s1)" unfolding no_overlap_def
    proof
      fix i show "active_runs (dbase s1) i \<le> 1"
        using om [unfolded one_more_def, rule_format, of i] Cons.prems(2) [unfolded no_overlap_def, rule_format, of i]
          Cons.prems(4) [of j] by (simp split: if_splits)
    qed
    show "active_runs (dbase s1) (j_id k) = 0" if "k \<in> set due" for k
    proof -
      have "j_id k \<noteq> j_id j" using that Cons.prems(3) by (auto simp: image_iff)
      then have "active_runs (dbase s1) (j_id k) \<le> active_runs (dbase s) (j_id k)" using om [unfolded one_more_def, rule_format, of "j_id k"] by simp
      then show ?thesis using Cons.prems(4) that by simp
    qed
  qed (use Cons.prems in auto)
qed simp

lemma readable_ids:
  "map j_id (List.map_filter (\<lambda>r. case scanJob r of Inr j \<Rightarrow> Some j | Inl _ \<Rightarrow> None) rs)
     = map (j_id \<circ> jr_job) (filter (\<lambda>r. \<not> jr_unreadable r) rs)"
  by (induction rs) (auto simp: map_filter_simps scanJob_def Let_def)

lemma due_jobs_idle:
  assumes "distinct (map (j_id \<circ> jr_job) (t_jobs d))" "DueJobs now d w = (Inr (due, bad), d', w')"
  shows "d' = d \<and> distinct (map j_id due) \<and> (\<forall>j \<in> set due. active_runs d (j_id j) = 0)"
proof -
  let ?rows = "sort_key (\<lambda>r. j_id (jr_job r)) (filter (due_row now d) (t_jobs d))"
  from assms(2) have 1: "d' = d" "map j_id due = map (j_id \<circ> jr_job) (filter (\<lambda>r. \<not> jr_unreadable r) ?rows)"
    using readable_ids [of ?rows]
    by (cases "next_fault w", cases "fst (next_fault w)"; auto simp: DueJobs_def query_def stmt_def Let_def)+
  have "distinct (map (j_id \<circ> jr_job) (filter (\<lambda>r. \<not> jr_unreadable r) ?rows))"
    using assms(1) by (simp add: distinct_map inj_on_def)
  moreover have "active_runs d (j_id j) = 0" if "j \<in> set due" for j
  proof -
    from that have "j_id j \<in> set (map j_id due)" by simp
    then obtain r where "r \<in> set ?rows" "j_id j = j_id (jr_job r)" unfolding 1(2) by auto
    then show ?thesis by (auto simp: due_row_def active_runs_def filter_empty_conv)
  qed
  ultimately show ?thesis by (simp add: 1)
qed

lemma tick_unreadable_no_more: "moves no_more (tick_unreadable sqlite_store why us e)"
proof -
  have op: "rs_FailUnreadableJob sqlite_store = FailUnreadableJob" by (simp add: sqlite_store_def)
  show ?thesis
    by (induction us arbitrary: e)
      (auto simp: op Let_def intro!: no_more.moves_rules no_more_call keeps_fail_unreadable split: sum.split)
qed

text \<open>
  C6: The scheduler does not overlap the runs of a job: when no job has more than one run
  that is pending or running, this is still so after a tick, whatever fails in it, even
  where a run was enqueued although the store reported an error.
\<close>

theorem tick_no_overlap:
  assumes "no_overlap d" "distinct (map (j_id \<circ> jr_job) (t_jobs d))"
    and "run_state (Tick sqlite_store parse why) (r, d, w) = (e, r', d', w')"
  shows "no_overlap d'"
proof -
  obtain now w1 where clk: "run_state clk_now (r, d, w) = (now, r, d, w1)"
    by (cases "w_steps w") (simp_all add: clk_now_def time_now_def)
  obtain x d2 w2 where due: "DueJobs now d w1 = (x, d2, w2)" using prod_cases3 by blast
  show ?thesis
  proof (cases x)
    case (Inl err)
    have "d2 = d" using keepsD [OF keeps_reads(1) [of "\<lambda>x. x = d"] _ due] by simp
    with Inl assms(3) clk due have "run_state (logError ''runner: scheduler tick: list due jobs'' (StoreError err) []) (r, d, w2)
        = ((), r', d', w')" by (simp add: Tick_def sqlite_store_def split: prod.splits)
    with no_more.moves_logError have "no_more d d'" by (fastforce dest: state_io_relD)
    with assms(1) show ?thesis by (meson no_more_def no_overlap_def order_trans)
  next
    case (Inr y)
    obtain jobs bad where y: "y = (jobs, bad)" by (cases y)
    from due_jobs_idle [OF assms(2) due [unfolded Inr y]]
    have idle: "d2 = d" "distinct (map j_id jobs)" "\<And>j. j \<in> set jobs \<Longrightarrow> active_runs d (j_id j) = 0" by auto
    obtain e1 s1 where 1: "run_state (tick_jobs sqlite_store parse now jobs None) (r, d, w2) = (e1, s1)" by (metis surj_pair)
    have op: "rs_DueJobs sqlite_store = DueJobs" by (simp add: sqlite_store_def)
    have 2: "run_state (tick_unreadable sqlite_store why bad e1) s1 = (e, r', d', w')"
      using assms(3) clk due 1 by (simp add: Tick_def op Inr y idle)
    have "no_overlap (dbase s1)" by (rule tick_jobs_no_overlap [OF 1]) (use assms(1) idle in auto)
    moreover have "no_more (dbase s1) d'" using state_io_relD [OF tick_unreadable_no_more 2] by simp
    ultimately show ?thesis by (meson no_more_def no_overlap_def order_trans)
  qed
qed

theorem tick_no_overlap_witness:
  "\<exists>e r' d' w'. run_state (Tick sqlite_store (\<lambda>_. None) (\<lambda>_. [])) due_state = (e, r', d', w')
     \<and> map rw_status (t_runs d') = [StatusPending] \<and> no_overlap d'"
proof -
  let ?d = "run_ops [OpCreateJob due_job] empty_db" and ?t = "run_state (Tick sqlite_store (\<lambda>_. None) (\<lambda>_. [])) due_state"
  have "t_runs ?d = []" "distinct (map (j_id \<circ> jr_job) (t_jobs ?d))" by code_simp+
  then have pre: "no_overlap ?d" "distinct (map (j_id \<circ> jr_job) (t_jobs ?d))" by (simp_all add: no_overlap_def active_runs_def)
  have run: "map rw_status (t_runs (dbase (snd ?t))) = [StatusPending]" by code_simp
  obtain e r' d' w' where t: "?t = (e, r', d', w')" by (metis surj_pair)
  from tick_no_overlap [OF pre t [unfolded due_state_def]] run t show ?thesis by auto
qed

section \<open>Secrets that do not resolve\<close>

definition unresolvable :: "runner_store \<Rightarrow> secret_box \<Rightarrow> int \<Rightarrow> string \<Rightarrow> bool" where
  "unresolvable S box orgID v \<longleftrightarrow>
     (case secretRef (trim_space v) of
        None \<Rightarrow> False
      | Some name \<Rightarrow>
          (case box of
             None \<Rightarrow> True
           | Some decrypt \<Rightarrow>
               \<forall>d w. case fst (rs_GetSecret S orgID name d w) of Inl _ \<Rightarrow> True | Inr ct \<Rightarrow> isl (decrypt ct)))"

lemma resolve_each_fails:
  assumes "list_ex (\<lambda>(k, v). unresolvable S box orgID v) vars"
  shows "yields isl (resolve_each S box err_text orgID vars result secs)"
proof (rule pred_stateI)
  fix a s s' assume "run_state (resolve_each S box err_text orgID vars result secs) s = (a, s')"
  with assms show "isl a"
  proof (induction vars arbitrary: result secs s)
    case (Cons kv vars)
    obtain k v r d w where kv: "kv = (k, v)" and s: "s = (r, d, w)" by (metis surj_pair)
    show ?case
    proof (cases "secretRef (trim_space v)")
      case None
      with Cons kv show ?thesis by (auto simp: unresolvable_def)
    next
      case (Some name)
      show ?thesis
      proof (cases box)
        case None
        with Cons.prems kv Some show ?thesis by auto
      next
        case box: (Some decrypt)
        obtain x d1 w1 where g: "rs_GetSecret S orgID name d w = (x, d1, w1)" using prod_cases3 by blast
        show ?thesis
        proof (cases x)
          case (Inl e)
          with Cons.prems kv s Some box g show ?thesis by auto
        next
          case (Inr ct)
          show ?thesis
          proof (cases "decrypt ct")
            case (Inl m)
            with Cons.prems kv s Some box g Inr show ?thesis by auto
          next
            case plain: (Inr p)
            then have "\<not> unresolvable S box orgID v"
              using g Some box Inr by (auto simp: unresolvable_def intro!: exI [of _ d] exI [of _ w])
            with Cons kv s Some box g Inr plain show ?thesis by auto
          qed
        qed
      qed
    qed
  qed simp
qed

lemma bind_cong_yields: "yields P m \<Longrightarrow> (\<And>a. P a \<Longrightarrow> f a = g a) \<Longrightarrow> State_Monad.bind m f = State_Monad.bind m g"
  by (rule state_ext) (auto split: prod.split dest: pred_stateD)


text \<open>An executor whose command prints a line and succeeds.\<close>

definition prints :: "string \<Rightarrow> executor" where
  "prints out j vars secs =
     State_Monad.return (runOnceShell [out] False None secs 1 6 7)"


end
