(* ===== verification/Jobs_Once.thy ===== *)
theory Jobs_Once
  imports Jobs_TLS Jobs_Domain Jobs_Drill Runner_Client
begin

text \<open>
  One attempt of a job of any type (\<^verbatim>\<open>runOnce\<close> of \<^verbatim>\<open>internal/jobs/executor.go\<close>), and the
  executor the runner uses: the retry loop over it. An attempt meets an environment, which
  gives what processes, connections and registries do; environments may differ from attempt
  to attempt in any way.
\<close>

section \<open>One attempt\<close>

record shell_command =
  sc_name :: string
  sc_args :: "string list"
  sc_env :: "string list"
  sc_wait_delay :: duration

definition shellCommand :: "string list \<Rightarrow> string \<Rightarrow> env \<Rightarrow> shell_command" where
  "shellCommand environ command vars =
     \<lparr>sc_name = ''sh'', sc_args = [''-c'', command], sc_env = environ @ toEnvSlice vars, sc_wait_delay = killGraceDelay\<rparr>"

text \<open>
  What an attempt meets. \<open>ae_shell\<close> runs a command with its two outputs in one buffer,
  \<open>ae_process\<close> with one buffer for each; \<open>ae_http\<close> sends the request of an HTTP job, given
  its kind, its address and its body. \<open>ae_expired\<close> says whether the attempt's deadline had
  passed when a probe gave up, \<open>ae_asked\<close> and \<open>ae_now\<close> are the times the probes read, and
  \<open>ae_ended\<close> is when the attempt was over.
\<close>

record ('r, 'w) attempt_env =
  ae_environ :: "string list"
  ae_shell :: "shell_command \<Rightarrow> step_result"
  ae_process :: "shell_command \<Rightarrow> process"
  ae_http :: "string \<Rightarrow> string \<Rightarrow> string \<Rightarrow> http_outcome"
  ae_tls :: "'r tls_env"
  ae_domain :: domain_env
  ae_os :: "'w os"
  ae_cache :: bootstraps
  ae_world :: 'w
  ae_decode :: "string \<Rightarrow> spec"
  ae_expired :: bool
  ae_asked :: gotime
  ae_now :: gotime
  ae_ended :: gotime

definition http_method :: "job \<Rightarrow> string" where
  "http_method j = (if j_http_method j = [] then ''GET'' else j_http_method j)"

definition runOnce :: "('r, 'w) attempt_env \<Rightarrow> job \<Rightarrow> env \<Rightarrow> string list \<Rightarrow> int \<Rightarrow> gotime \<Rightarrow> run_result \<times> bootstraps \<times> 'w" where
  "runOnce e j vars secrets n started =
     (let s = specOf (ae_decode e) j; parse = de_url_Parse (ae_domain e); text_of = de_spec_text (ae_domain e);
          same = (\<lambda>r. (r, ae_cache e, ae_world e))
      in case j_type j of
           HTTP \<Rightarrow> same (runOnceHTTP (ae_http e (http_method j) (j_http_url j) (j_http_body j)) n started (ae_ended e))
         | TLS \<Rightarrow> same (runOnceTLS (ae_tls e) (ae_expired e) (ae_now e) s n started (ae_ended e))
         | Domain \<Rightarrow>
             (case runOnceDomain (ae_domain e) (ae_expired e) (ae_asked e) (ae_now e) s n started (ae_ended e) (ae_cache e) of
                (r, cache) \<Rightarrow> (r, cache, ae_world e))
         | Expiry \<Rightarrow>
             same (runOnceExpiry parse text_of (\<lambda>c. ae_process e (shellCommand (ae_environ e) c vars)) (ae_expired e) (ae_now e) s
                     secrets n started (ae_ended e))
         | Drill \<Rightarrow>
             (case runOnceDrill parse text_of (ae_os e) s vars secrets n started (ae_ended e) (ae_world e) of
                (r, w) \<Rightarrow> (r, ae_cache e, w))
         | _ \<Rightarrow>
             (let p = ae_shell e (shellCommand (ae_environ e) (j_command j) vars)
              in same (runOnceShell (sr_written p) (sr_deadline p) (sr_err p) secrets n started (ae_ended e))))"

text \<open>
  The executor of the runner: the attempts of a job, each in the environment it meets, while
  other parts of the program work on the database.
\<close>

definition attempt_in ::
  "(int \<Rightarrow> gotime \<Rightarrow> ('r, 'w) attempt_env) \<Rightarrow> job \<Rightarrow> env \<Rightarrow> string list \<Rightarrow> int \<Rightarrow> gotime \<Rightarrow> run_result \<times> gotime" where
  "attempt_in envs j vars secrets a t = (fst (runOnce (envs a t) j vars secrets a t), ae_ended (envs a t))"

definition executor_in ::
  "(int \<Rightarrow> gotime \<Rightarrow> ('r, 'w) attempt_env) \<Rightarrow> (int \<Rightarrow> duration) option \<Rightarrow> gotime option \<Rightarrow> (int \<Rightarrow> bool) \<Rightarrow> unit rn \<Rightarrow> executor" where
  "executor_in envs custom cancelled tie others j vars secrets = do {
     now \<leftarrow> clk_now;
     _ \<leftarrow> others;
     State_Monad.return (fst (exec_run (attempt_in envs j vars secrets) custom cancelled tie j now)) }"

section \<open>Every attempt ends in a terminal status\<close>

lemma shellOutcome_terminal: "terminal (fst (shellOutcome x err))"
  by (auto simp: shellOutcome_def terminal_def split: option.splits cmd_error.splits)

lemma result_terminal:
  "terminal (rr_status (result r a st en ok)) \<and> rr_attempt (result r a st en ok) = a \<and> rr_started (result r a st en ok) = st"
  by (simp add: result_def Let_def terminal_def)

lemma probeError_terminal:
  "terminal (rr_status (probeErrorResult x a st en e)) \<and> rr_attempt (probeErrorResult x a st en e) = a
   \<and> rr_started (probeErrorResult x a st en e) = st"
  by (simp add: probeErrorResult_def terminal_def)

text \<open>A result of attempt \<open>a\<close> begun at \<open>t\<close>.\<close>

definition ends_attempt :: "int \<Rightarrow> gotime \<Rightarrow> run_result \<Rightarrow> bool" where
  "ends_attempt a t r \<longleftrightarrow> terminal (rr_status r) \<and> rr_attempt r = a \<and> rr_started r = t"

lemmas attempt_ends = ends_attempt_def result_terminal probeError_terminal

lemma shell_ends: "ends_attempt a t (runOnceShell written x err secrets a t en)"
  using shellOutcome_terminal [of x err] by (auto simp: ends_attempt_def runOnceShell_def Let_def split: prod.splits)

lemma http_ends: "ends_attempt a t (runOnceHTTP outcome a t en)"
  by (auto simp: ends_attempt_def runOnceHTTP_def terminal_def Let_def split: http_outcome.splits)

lemma judge_ends: "ends_attempt a t (judgeExpiry now ex src wd a t en)"
  by (simp add: judgeExpiry_def Let_def attempt_ends)

lemma stderr_ends: "ends_attempt a t (with_stderr secrets written r) \<longleftrightarrow> ends_attempt a t r"
  by (simp add: with_stderr_def ends_attempt_def Let_def)

lemma code_ends: "ends_attempt a t (r\<lparr>rr_exit := c\<rparr>) \<longleftrightarrow> ends_attempt a t r"
  by (simp add: ends_attempt_def)

lemma error_ends: "ends_attempt a t (probeErrorResult x a t en e)"
  by (simp add: attempt_ends)

lemma expiry_ends: "ends_attempt a t (runOnceExpiry parse text_of cmd expired now s secrets a t en)"
  by (auto simp: runOnceExpiry_def Let_def stderr_ends code_ends error_ends judge_ends
      split: option.splits prod.splits run_status.splits sum.splits)

lemma tls_ends: "ends_attempt a t (runOnceTLS e expired now s a t en)"
  by (auto simp: runOnceTLS_def Let_def attempt_ends split: option.splits sum.splits)

lemma registry_ends: "ends_attempt a t (ask_registry e expired now s domain base note a t en)"
  by (auto simp: ask_registry_def Let_def attempt_ends split: option.splits sum.splits prod.splits)

lemma domain_ends: "ends_attempt a t (fst (runOnceDomain e expired asked now s a t en cache))"
  by (auto simp: runOnceDomain_def Let_def error_ends registry_ends split: option.splits sum.splits prod.splits)

lemma failed_terminal: "terminal st \<Longrightarrow> terminal (dr_status d) \<Longrightarrow> terminal (dr_status (failed st c d))"
  by (simp add: failed_def)

lemma statuses_terminal: "terminal StatusSucceeded" "terminal StatusFailed" "terminal StatusTimedOut"
  by (simp_all add: terminal_def)

lemmas drill_terminal = failed_terminal statuses_terminal

lemma drill_check_terminal:
  "terminal (dr_status d) \<Longrightarrow> terminal (dr_status (drill_check os vars sec scratch restore replaced i c d))"
  by (auto simp: drill_check_def Let_def intro!: drill_terminal split: prod.splits run_status.splits)

lemma drill_checks_terminal:
  "terminal (dr_status d) \<Longrightarrow> terminal (dr_status (drill_checks os vars sec scratch restore replaced i cs d))"
  by (induction cs arbitrary: i d) (simp_all add: drill_check_terminal)

lemma drill_in_terminal: "drill_in os s vars secrets scratch w = (restore, d) \<Longrightarrow> terminal (dr_status d)"
proof -
  have 1: "terminal (dr_status d) \<Longrightarrow> terminal (dr_status d')" if "drill_restore os s v sec sc d = (r, d')" for v sec sc d r d'
    using that by (auto simp: drill_restore_def Let_def intro!: drill_terminal split: prod.splits run_status.splits if_splits)
  have 2: "terminal (dr_status d) \<Longrightarrow> terminal (dr_status d')" if "drill_replaced os r sc d = (b, d')" for r sc d b d'
    using that by (auto simp: drill_replaced_def Let_def intro!: drill_terminal split: prod.splits if_splits)
  have 3: "terminal (dr_status (drill_limit s r b d))" if "terminal (dr_status d)" for r b d
    using that by (auto simp: drill_limit_def Let_def intro!: drill_terminal)
  have 4: "terminal (dr_status (drill_cleanup os s v sec sc d))" if "terminal (dr_status d)" for v sec sc d
    using that by (auto simp: drill_cleanup_def Let_def intro!: drill_terminal split: prod.splits run_status.splits)
  have 5: "terminal (dr_status (drill_remove os sc d))" if "terminal (dr_status d)" for sc d
    using that by (auto simp: drill_remove_def Let_def intro!: drill_terminal split: prod.splits option.splits)
  assume "drill_in os s vars secrets scratch w = (restore, d)"
  then show ?thesis
    by (auto simp: drill_in_def Let_def statuses_terminal split: prod.splits dest!: 1 2 intro!: 3 4 5 drill_checks_terminal)
qed

lemma drill_ends: "ends_attempt a t (fst (runOnceDrill parse text_of os s vars secrets a t en w))"
  by (auto simp: runOnceDrill_def Let_def error_ends ends_attempt_def drill_in_terminal probeError_terminal
      split: option.splits sum.splits prod.splits)

lemma runOnce_ends: "ends_attempt a t (fst (runOnce e j vars secrets a t))"
  using domain_ends [of a t "ae_domain e"] drill_ends [of a t _ _ "ae_os e"]
  by (auto simp: runOnce_def Let_def shell_ends http_ends tls_ends expiry_ends split: job_type.splits prod.splits)
     (metis fst_conv)+

lemma attempt_in_ends [simp]:
  "terminal (rr_status (fst (attempt_in envs j vars secs a t)))" "rr_attempt (fst (attempt_in envs j vars secs a t)) = a"
  using runOnce_ends [of a t "envs a t" j vars secs] by (simp_all add: attempt_in_def ends_attempt_def)

section \<open>The executor\<close>

lemma run_loop_pred:
  assumes "\<And>a t. P (fst (once a t))"
  shows "P (fst (run_loop once custom cancelled tie n a t))"
proof (induction "nat (n - a)" arbitrary: a t rule: less_induct)
  case less
  obtain l u where once: "once a t = (l, u)" by force
  from once show ?case
  proof (cases rule: run_loop_cases [of once a t l u custom cancelled tie n])
    case (stop v)
    with assms [of a t] once show ?thesis by simp
  next
    case retry
    with less [of "a + 1" "u + max 0 (backoff custom a)"] show ?thesis by simp
  qed
qed

lemma exec_run_terminal: "terminal (rr_status (fst (exec_run (attempt_in envs j vars secs) custom cancelled tie j now)))"
  unfolding exec_run_def by (rule run_loop_pred) simp

lemma executor_terminal: "yields (\<lambda>res. terminal (rr_status res)) (executor_in envs custom cancelled tie others j vars secs)"
  by (auto intro!: pred_stateI simp: executor_in_def exec_run_terminal split: prod.splits)

text \<open>
  C3: Everything the scheduler, the workers with the executor's attempts of every job type, and
  the reaper do to the database is a sequence of operations that keep the client contract of
  the store, under every fault of the store, every cancellation and whatever processes,
  servers and registries answer: a run is only ended with a terminal status and with the event
  of that status for that run, and only \<^verbatim>\<open>run.started\<close> is emitted on its own. What other parts
  do to the database while a job is executed has to keep to the contract too.
\<close>

theorem scheduler_keeps_contract:
  assumes "client_reachable (dbase s)" "moves client_steps others"
    and "run_state (Tick sqlite_store parse why) s = (e1, s1)"
    and "run_state (claimAndRun sqlite_store box err_text (executor_in envs custom cancelled tie others)) s1 = (e2, s2)"
    and "run_state (ReapOnce sqlite_store) s2 = (e3, s3)"
  shows "client_steps (dbase s) (dbase s3) \<and> client_reachable (dbase s1) \<and> client_reachable (dbase s2)
    \<and> client_reachable (dbase s3)"
proof -
  have "moves client_steps (executor_in envs custom cancelled tie others j vars secs)" for j vars secs
    unfolding executor_in_def by (intro sqlite.moves_bind sqlite.moves_clock sqlite.moves_return assms(2))
  then show ?thesis
    by (intro runner_keeps_contract [OF assms(1) _ assms(3,4,5)] allI conjI executor_terminal)
qed

text \<open>An environment in which commands print and succeed and nothing else answers.\<close>

definition calm_env :: "string \<Rightarrow> gotime \<Rightarrow> (unit, unit) attempt_env" where
  "calm_env out t =
     \<lparr>ae_environ = [''PATH=/bin''],
      ae_shell = (\<lambda>c. \<lparr>sr_written = [out], sr_took = second, sr_deadline = False, sr_err = None\<rparr>),
      ae_process = (\<lambda>c. \<lparr>px_stdout = [out], px_stderr = [], px_deadline = False, px_err = None\<rparr>),
      ae_http = (\<lambda>m u b. NoResponse False ''no route''),
      ae_tls = \<lparr>te_url_Parse = (\<lambda>_. None), te_spec_text = (\<lambda>_. []), te_starttls_text = (\<lambda>_. []),
                te_roots = (\<lambda>_. Inl ''no file''), te_dial = (\<lambda>_. Inl ''no route''), te_handshake = (\<lambda>_ _ _. Inl ''no route'')\<rparr>,
      ae_domain = \<lparr>de_url_Parse = (\<lambda>_. None), de_spec_text = (\<lambda>_. []), de_rdap_text = (\<lambda>_. []), de_quote = (\<lambda>q. q),
                   de_get = (\<lambda>_. GetFailed ''no route''), de_bootstrap = (\<lambda>_. Inl []), de_answer = (\<lambda>_. Inl []), de_source = []\<rparr>,
      ae_os = calm_os False, ae_cache = (\<lambda>_. None), ae_world = (), ae_decode = (\<lambda>_. zero_spec), ae_expired = False,
      ae_asked = t, ae_now = t, ae_ended = t + second\<rparr>"

theorem scheduler_keeps_contract_witness:
  "\<exists>s1 e2 s2 e3 s3. run_state (Tick sqlite_store (\<lambda>_. None) (\<lambda>_. [])) due_state = (None, s1)
     \<and> map rw_status (t_runs (dbase s1)) = [StatusPending]
     \<and> run_state (claimAndRun sqlite_store None (\<lambda>_. [])
         (executor_in (\<lambda>_. calm_env ''ok'') None None (\<lambda>_. False) (State_Monad.return ()))) s1 = (e2, s2)
     \<and> run_state (ReapOnce sqlite_store) s2 = (e3, s3)
     \<and> client_steps (dbase due_state) (dbase s3) \<and> client_reachable (dbase s3)"
proof -
  let ?t = "run_state (Tick sqlite_store (\<lambda>_. None) (\<lambda>_. [])) due_state"
  let ?x = "executor_in (\<lambda>_. calm_env ''ok'') None None (\<lambda>_. False) (State_Monad.return ())"
  have reach: "client_reachable (dbase due_state)"
    unfolding due_state_def dbase_simps by (intro client_run_ops client_start) simp
  have others: "moves client_steps (State_Monad.return () :: unit rn)" by (rule sqlite.moves_return)
  have "fst ?t = None" "map rw_status (t_runs (dbase (snd ?t))) = [StatusPending]" by code_simp+
  then obtain s1 where t: "?t = (None, s1)" "map rw_status (t_runs (dbase s1)) = [StatusPending]"
    by (metis prod.collapse)
  obtain e2 s2 where c: "run_state (claimAndRun sqlite_store None (\<lambda>_. []) ?x) s1 = (e2, s2)"
    by (metis surj_pair)
  obtain e3 s3 where r: "run_state (ReapOnce sqlite_store) s2 = (e3, s3)" by (metis surj_pair)
  from scheduler_keeps_contract [OF reach others t(1) c r]
  have "client_steps (dbase due_state) (dbase s3)" "client_reachable (dbase s3)" by simp_all
  with t c r show ?thesis by (intro exI conjI)
qed

text \<open>
  C32: The result of executing a job of any type comes from one of its attempts, between the
  first and number \<open>MaxRetries + 1\<close>, in a terminal status; unless its context is cancelled it
  succeeded or is that of the last attempt, whatever processes, servers and registries answer.
\<close>

theorem job_run_attempts:
  "let r = fst (exec_run (attempt_in envs j vars secs) custom cancelled tie j now) in
     terminal (rr_status r) \<and> 1 \<le> rr_attempt r \<and> rr_attempt r \<le> max_attempts j
     \<and> (rr_status r = StatusSucceeded \<or> rr_attempt r = max_attempts j \<or> (\<exists>c. cancelled = Some c))"
  using run_loop_attempt [of "attempt_in envs j vars secs" 1 "max_attempts j" custom cancelled tie now] max_attempts_pos [of j]
    exec_run_terminal [of envs j vars secs custom cancelled tie now]
  by (auto simp: exec_run_def Let_def)

end
