(* ===== verification/Ping_Model.thy ===== *)
theory Ping_Model
  imports Runner_Client
begin

text \<open>
  The ping API (\<^verbatim>\<open>internal/httpserver/ping.go\<close>): reading a ping from its URL, reading and
  redacting its body, and the handler. The rate limiters, which come from another
  repository, the client's address and the random token of a new heartbeat are arguments.
\<close>

section \<open>Parsing a ping\<close>

definition DefaultPingBodyLimit :: int where "DefaultPingBodyLimit = 10000"
definition MaxPingBodyLimit :: int where "MaxPingBodyLimit = 100000"

definition PingBodyTruncated :: string where
  "PingBodyTruncated = newline # ''... [ping body truncated]''"

definition autoCreatePeriod :: int where "autoCreatePeriod = 86400"
definition autoCreateGrace :: int where "autoCreateGrace = 3600"

record pingRequest =
  pq_token :: string
  pq_key :: string
  pq_slug :: string
  pq_create :: bool
  pq_in :: ping_input

datatype ping_error = errPingURL | errPingRID | errPingNotFound

definition ping_of :: "ping_kind \<Rightarrow> int option \<Rightarrow> ping_input" where
  "ping_of kind exit = \<lparr>pi_kind = kind, pi_exit = exit, pi_rid = [], pi_body = []\<rparr>"

definition pingAction :: "string \<Rightarrow> ping_error + ping_input option" where
  "pingAction seg =
     (if seg = ''start'' then Inr (Some (ping_of PingStart None))
      else if seg = ''fail'' then Inr (Some (ping_of PingFail None))
      else if seg = ''log'' then Inr (Some (ping_of PingLog None))
      else if seg = [] \<or> trim_both ''0123456789'' seg \<noteq> [] then Inr None
      else let n = decimal seg
           in if n > max_int64 \<or> n > 255 then Inl errPingURL
              else Inr (Some (ping_of (if n = 0 then PingSuccess else PingFail) (Some n))))"

definition validSlug :: "string \<Rightarrow> bool" where
  "validSlug s \<longleftrightarrow>
     s \<noteq> [] \<and> length s \<le> 100
     \<and> list_all (\<lambda>c. 97 \<le> byte c \<and> byte c \<le> 122 \<or> is_digit c \<or> c = CHR ''-'' \<or> c = CHR ''_'') s"

definition normalizeToken :: "string \<Rightarrow> string" where
  "normalizeToken token = (case CanonicalUUID token of Some u \<Rightarrow> u | None \<Rightarrow> token)"

text \<open>\<^verbatim>\<open>url.PathUnescape\<close>.\<close>

definition hex_value :: "char \<Rightarrow> nat" where
  "hex_value c = (if is_digit c then byte c - 48 else byte (lower c) - 87)"

fun path_unescape :: "string \<Rightarrow> string option" where
  "path_unescape [] = Some []"
| "path_unescape (c # s) =
     (if c \<noteq> CHR ''%'' then map_option (Cons c) (path_unescape s)
      else case s of
             a # b # t \<Rightarrow>
               if is_hex a \<and> is_hex b
               then map_option (Cons (char_of (16 * hex_value a + hex_value b))) (path_unescape t)
               else None
           | _ \<Rightarrow> None)"

fun unescape_all :: "string list \<Rightarrow> string list option" where
  "unescape_all [] = Some []"
| "unescape_all (seg # segs) =
     (case path_unescape seg of
        None \<Rightarrow> None
      | Some s \<Rightarrow> if s = [] then None else map_option (Cons s) (unescape_all segs))"

text \<open>A query maps a name to its values; a name that is present has at least one.\<close>

type_synonym url_query = "string \<Rightarrow> string list option"

definition parse_rid :: "url_query \<Rightarrow> pingRequest \<Rightarrow> ping_error + pingRequest" where
  "parse_rid qs req =
     (case qs ''rid'' of
        Some (rid # _) \<Rightarrow>
          (case CanonicalUUID rid of
             None \<Rightarrow> Inl errPingRID
           | Some u \<Rightarrow> Inr (req\<lparr>pq_in := (pq_in req)\<lparr>pi_rid := u\<rparr>\<rparr>))
      | _ \<Rightarrow> Inr req)"

definition create_flag :: "url_query \<Rightarrow> pingRequest \<Rightarrow> pingRequest" where
  "create_flag qs req =
     (if pq_key req \<noteq> []
      then req\<lparr>pq_create := (case qs ''create'' of Some (v # _) \<Rightarrow> v = ''1'' | _ \<Rightarrow> False)\<rparr>
      else req)"

definition by_token :: "string \<Rightarrow> ping_input \<Rightarrow> pingRequest" where
  "by_token token inp =
     \<lparr>pq_token = normalizeToken token, pq_key = [], pq_slug = [], pq_create = False, pq_in = inp\<rparr>"

definition by_slug :: "string \<Rightarrow> string \<Rightarrow> ping_input \<Rightarrow> pingRequest" where
  "by_slug key slug inp =
     \<lparr>pq_token = [], pq_key = key, pq_slug = slug, pq_create = False, pq_in = inp\<rparr>"

definition parse_segments :: "string list \<Rightarrow> ping_error + pingRequest" where
  "parse_segments segs =
     (case segs of
        [a] \<Rightarrow> Inr (by_token a (ping_of PingSuccess None))
      | [a, b] \<Rightarrow>
          (case pingAction b of
             Inl e \<Rightarrow> Inl e
           | Inr (Some inp) \<Rightarrow> Inr (by_token a inp)
           | Inr None \<Rightarrow> Inr (by_slug a b (ping_of PingSuccess None)))
      | [a, b, c] \<Rightarrow>
          (case pingAction c of
             Inl e \<Rightarrow> Inl e
           | Inr (Some inp) \<Rightarrow> Inr (by_slug a b inp)
           | Inr None \<Rightarrow> Inl errPingNotFound)
      | _ \<Rightarrow> Inl errPingNotFound)"

definition parsePing :: "string \<Rightarrow> url_query \<Rightarrow> ping_error + pingRequest" where
  "parsePing escapedPath qs =
     (let path = trim_suffix escapedPath ''/'';
          segs = split_on (CHR ''/'') path
      in if path = [] \<or> length segs > 3 then Inl errPingNotFound
         else case unescape_all segs of
           None \<Rightarrow> Inl errPingNotFound
         | Some segs' \<Rightarrow>
             (case parse_segments segs' of
                Inl e \<Rightarrow> Inl e
              | Inr req \<Rightarrow> parse_rid qs (create_flag qs req)))"

section \<open>The body\<close>

text \<open>A request body: none, one that is read to its end, or one whose reading fails after some bytes.\<close>

datatype request_body = NoBody | FullBody string | BrokenBody string

definition read_limited :: "nat \<Rightarrow> string \<Rightarrow> bool \<Rightarrow> string option" where
  "read_limited n bytes broken = (if broken \<and> length bytes < n then None else Some (take n bytes))"

text \<open>Characters are compared pairwise; the two texts have the same length where it is used.\<close>

definition asciiEqualFold :: "string \<Rightarrow> string \<Rightarrow> bool" where
  "asciiEqualFold a b = list_all (\<lambda>(x, y). lower x = lower y) (zip a b)"

definition credential_as :: "string \<Rightarrow> string \<Rightarrow> bool" where
  "credential_as cred x \<longleftrightarrow>
     length x = length cred
     \<and> (if CanonicalUUID cred = None then x = cred else asciiEqualFold x cred)"

text \<open>The scan of \<^verbatim>\<open>redactCredential\<close>, which is also what \<^verbatim>\<open>strings.ReplaceAll\<close> does.\<close>

function scan_replace :: "string \<Rightarrow> string \<Rightarrow> string" where
  "scan_replace cred s =
     (if s = [] then []
      else if cred \<noteq> [] \<and> credential_as cred (take (length cred) s)
      then ''***'' @ scan_replace cred (drop (length cred) s)
      else hd s # scan_replace cred (tl s))"
  by pat_completeness auto
termination
  by (relation "measure (\<lambda>(cred, s). length s)") auto

declare scan_replace.simps [simp del]

definition redactCredential :: "string \<Rightarrow> string \<Rightarrow> string" where
  "redactCredential s cred = (if cred = [] then s else scan_replace cred s)"

fun drop_longest :: "string \<Rightarrow> string \<Rightarrow> nat \<Rightarrow> string" where
  "drop_longest s c 0 = s"
| "drop_longest s c (Suc n) =
     (if asciiEqualFold (drop (length s - Suc n) s) (take (Suc n) c)
      then take (length s - Suc n) s
      else drop_longest s c n)"

definition dropCredentialPrefix :: "string \<Rightarrow> string list \<Rightarrow> string" where
  "dropCredentialPrefix s creds =
     foldl (\<lambda>s c. drop_longest s c (min (length c - 1) (length s))) s creds"

definition utf8_max :: nat where "utf8_max = 4"

definition clean_body :: "string \<Rightarrow> string" where
  "clean_body s =
     (if \<not> valid_utf8 s \<or> CHR 0x00 \<in> set s
      then to_valid_utf8 [CHR 0xEF, CHR 0xBF, CHR 0xBD] (dropNULs s) else s)"

definition redact_body :: "nat \<Rightarrow> string list \<Rightarrow> string \<Rightarrow> bool \<Rightarrow> string" where
  "redact_body limit creds s cutRaw =
     (let s1 = (if cutRaw then dropCredentialPrefix s creds else s);
          s2 = foldl redactCredential s1 creds;
          long = length s2 > limit;
          s3 = (if long then dropCredentialPrefix (take (cut_back s2 limit) s2) creds else s2)
      in if cutRaw \<or> long then s3 @ PingBodyTruncated else s3)"

definition readPingBody :: "string \<Rightarrow> request_body \<Rightarrow> int \<Rightarrow> string list \<Rightarrow> string option" where
  "readPingBody rmethod body limit creds =
     (if body = NoBody \<or> rmethod \<noteq> ''POST'' \<or> limit \<le> 0 then Some []
      else
        let slack = foldl (\<lambda>m c. max m (length c + utf8_max)) utf8_max creds;
            room = nat limit + slack;
            (bytes, broken) = (case body of FullBody b \<Rightarrow> (b, False) | BrokenBody b \<Rightarrow> (b, True) | NoBody \<Rightarrow> ([], False))
        in case read_limited (room + 1) bytes broken of
             None \<Rightarrow> None
           | Some raw \<Rightarrow>
               let cutRaw = length raw > room;
                   raw' = (if cutRaw then trimPartialRune (take room raw) else raw)
               in Some (redact_body (nat limit) creds (clean_body raw') cutRaw))"

section \<open>The handler\<close>

text \<open>What the limiters do is not known here: a budget and the two questions asked of it.\<close>

record 'l limiter =
  lm_has :: "'l \<Rightarrow> string \<Rightarrow> gotime \<Rightarrow> bool"
  lm_allow :: "'l \<Rightarrow> string \<Rightarrow> gotime \<Rightarrow> bool \<times> 'l"

record 'l server =
  sv_miss :: 'l
  sv_tokens :: 'l
  sv_creates :: 'l
  sv_body_limit :: int
  sv_dispatch :: bool
  sv_sent :: "event list"
  sv_lines :: "(string \<times> string) list"

type_synonym ('l, 'a) handler = "('l server \<times> db \<times> world, 'a) state"

record http_request =
  rq_method :: string
  rq_path :: string
  rq_query :: url_query
  rq_body :: request_body
  rq_client :: string

datatype reply =
    PingOK int int string     \<comment> \<open>status, announced body limit, text\<close>
  | PingError int string
  | TooManyRequests

definition get_server :: "('l, 'l server) handler" where
  "get_server = State (\<lambda>(sv, s). (sv, sv, s))"

definition upd_server :: "('l server \<Rightarrow> 'l server) \<Rightarrow> ('l, unit) handler" where
  "upd_server f = State (\<lambda>(sv, s). ((), f sv, s))"

definition log_to :: "string \<Rightarrow> string \<Rightarrow> ('l, unit) handler" where
  "log_to msg attr = upd_server (\<lambda>sv. sv\<lparr>sv_lines := sv_lines sv @ [(msg, attr)]\<rparr>)"

definition charge_miss :: "'l limiter \<Rightarrow> string \<Rightarrow> gotime \<Rightarrow> ('l, unit) handler" where
  "charge_miss L key now = upd_server (\<lambda>sv. sv\<lparr>sv_miss := snd (lm_allow L (sv_miss sv) key now)\<rparr>)"

definition tokenHint :: "string \<Rightarrow> string" where
  "tokenHint token = (if length token \<le> 8 then ''********'' else take 8 token @ ''...'')"

definition SetPingBodyLimit :: "int \<Rightarrow> 'l server \<Rightarrow> 'l server" where
  "SetPingBodyLimit n sv = sv\<lparr>sv_body_limit := min (max n 0) MaxPingBodyLimit\<rparr>"

definition auto_heartbeat :: "int \<Rightarrow> string \<Rightarrow> string \<Rightarrow> heartbeat" where
  "auto_heartbeat orgID slug token =
     \<lparr>hb_id = 0, hb_org = orgID, hb_name = slug, hb_token = token, hb_last_seen = 0, hb_period = autoCreatePeriod,
      hb_grace = autoCreateGrace, hb_status = HbNew, hb_created = 0, hb_started = 0, hb_rid = []\<rparr>"

text \<open>The token and whether it was created, or the status and text to answer with.\<close>

definition resolveSlug ::
  "'l limiter \<Rightarrow> string option \<Rightarrow> pingRequest \<Rightarrow> gotime \<Rightarrow> ('l, (int \<times> string) + string \<times> bool) handler" where
  "resolveSlug L fresh req now = do {
     o1 \<leftarrow> call (orgByPingKey (pq_key req));
     case o1 of
       Inl ErrNotFound \<Rightarrow> State_Monad.return (Inl (404, ''not found''))
     | Inl e \<Rightarrow> do { log_to ''ping: resolve ping key failed'' []; State_Monad.return (Inl (500, ''internal error'')) }
     | Inr orgID \<Rightarrow> do {
         h \<leftarrow> call (GetHeartbeatByName orgID (pq_slug req));
         case h of
           Inr hb \<Rightarrow> State_Monad.return (Inr (hb_token hb, False))
         | Inl e \<Rightarrow>
             if e \<noteq> ErrNotFound then do { log_to ''ping: resolve slug failed'' []; State_Monad.return (Inl (500, ''internal error'')) }
             else if \<not> pq_create req then State_Monad.return (Inl (404, ''not found''))
             else if \<not> validSlug (pq_slug req) then State_Monad.return (Inl (400, ''invalid url format''))
             else do {
               sv \<leftarrow> get_server;
               let (allowed, creates) = lm_allow L (sv_creates sv) (''ping-create|'' @ dec orgID) now;
               upd_server (\<lambda>sv. sv\<lparr>sv_creates := creates\<rparr>);
               if \<not> allowed then State_Monad.return (Inl (429, []))
               else case fresh of
                 None \<Rightarrow> State_Monad.return (Inl (500, ''internal error''))
               | Some token \<Rightarrow> do {
                   c \<leftarrow> call (createHeartbeatIfAbsent (auto_heartbeat orgID (pq_slug req) token));
                   case c of
                     Inl _ \<Rightarrow> do { log_to ''ping: create heartbeat for slug failed'' []; State_Monad.return (Inl (500, ''internal error'')) }
                   | Inr (tok, created) \<Rightarrow> do {
                       (if created then log_to ''ping: created heartbeat from a slug ping'' (pq_slug req) else State_Monad.return ());
                       State_Monad.return (Inr (tok, created)) } } } } }"

definition trim_prefix :: "string \<Rightarrow> string \<Rightarrow> string" where
  "trim_prefix s p = (if take (length p) s = p then drop (length p) s else s)"

text \<open>From here both forms are the same ping.\<close>

definition record_ping ::
  "'l limiter \<Rightarrow> http_request \<Rightarrow> string \<Rightarrow> gotime \<Rightarrow> pingRequest \<Rightarrow> string \<Rightarrow> bool \<Rightarrow> ('l, reply) handler" where
  "record_ping L rq missKey now req token created = do {
     sv \<leftarrow> get_server;
     let tokenKey = ''ping-token|'' @ token;
     if \<not> lm_has L (sv_tokens sv) tokenKey now then State_Monad.return TooManyRequests
     else case readPingBody (rq_method rq) (rq_body rq) (sv_body_limit sv) [token, pq_key req] of
       None \<Rightarrow> State_Monad.return (PingError 400 ''could not read the request body'')
     | Some body \<Rightarrow> do {
         x \<leftarrow> call (recordHeartbeatPing token ((pq_in req)\<lparr>pi_body := body\<rparr>) now);
         case x of
           Inl e \<Rightarrow>
             if e = ErrNotFound then do { charge_miss L missKey now; State_Monad.return (PingError 404 []) }
             else do {
               log_to ''record ping failed'' (tokenHint token);
               State_Monad.return (PingError 500 ''internal error'') }
         | Inr res \<Rightarrow> do {
             upd_server (\<lambda>sv. sv\<lparr>sv_tokens := snd (lm_allow L (sv_tokens sv) tokenKey now)\<rparr>);
             upd_server (\<lambda>sv. case pr_event res of
                 Some ev \<Rightarrow> if sv_dispatch sv then sv\<lparr>sv_sent := sv_sent sv @ [ev]\<rparr> else sv
               | None \<Rightarrow> sv);
             State_Monad.return
               (if created then PingOK 201 (sv_body_limit sv) ''Created'' else PingOK 200 (sv_body_limit sv) ''ok'') } } }"

definition handlePing :: "'l limiter \<Rightarrow> string option \<Rightarrow> http_request \<Rightarrow> ('l, reply) handler" where
  "handlePing L fresh rq =
     (if rq_method rq \<notin> {''HEAD'', ''GET'', ''POST''} then State_Monad.return (PingError 405 ''method not allowed'')
      else case parsePing (trim_prefix (rq_path rq) ''/ping/'') (rq_query rq) of
        Inl errPingURL \<Rightarrow> State_Monad.return (PingError 400 ''invalid url format'')
      | Inl errPingRID \<Rightarrow> State_Monad.return (PingError 400 ''invalid uuid format'')
      | Inl errPingNotFound \<Rightarrow> State_Monad.return (PingError 404 [])
      | Inr req \<Rightarrow> do {
          now \<leftarrow> clk_now;
          sv \<leftarrow> get_server;
          let missKey = rq_client rq @ ''|ping-miss'';
          if \<not> lm_has L (sv_miss sv) missKey now then State_Monad.return TooManyRequests
          else if pq_key req = [] then record_ping L rq missKey now req (pq_token req) False
          else do {
            r \<leftarrow> resolveSlug L fresh req now;
            case r of
              Inl (code, msg) \<Rightarrow> do {
                (if code = 404 then charge_miss L missKey now else State_Monad.return ());
                State_Monad.return (if code = 429 then TooManyRequests
                        else PingError code (if code = 404 then [] else msg)) }
            | Inr (token, created) \<Rightarrow> record_ping L rq missKey now req token created } })"

end
