(* ===== verification/Ping_Laws.thy ===== *)
theory Ping_Laws
  imports Ping_Model
begin

text \<open>
  What the ping API guarantees: the shape of a parsed ping, what a stored body can hold, and
  that a refused ping changed nothing.
\<close>

section \<open>Parsing\<close>

definition ping_shape :: "ping_input \<Rightarrow> bool" where
  "ping_shape inp \<longleftrightarrow>
     pi_kind inp \<in> {PingSuccess, PingStart, PingFail, PingLog}
     \<and> (case pi_exit inp of
          None \<Rightarrow> True
        | Some n \<Rightarrow> 0 \<le> n \<and> n \<le> 255 \<and> pi_kind inp = (if n = 0 then PingSuccess else PingFail))"

definition fresh_ping :: "ping_input \<Rightarrow> bool" where
  "fresh_ping inp \<longleftrightarrow> ping_shape inp \<and> pi_rid inp = [] \<and> pi_body inp = []"

lemma pingAction_shape: "pingAction seg = Inr (Some inp) \<Longrightarrow> fresh_ping inp"
  using decimal_nonneg [of seg] by (auto simp: pingAction_def fresh_ping_def ping_shape_def ping_of_def Let_def split: if_splits)

lemma plain_ping: "fresh_ping (ping_of PingSuccess None)"
  by (simp add: fresh_ping_def ping_shape_def ping_of_def)

lemma unescape_all_nonempty: "unescape_all segs = Some segs' \<Longrightarrow> s \<in> set segs' \<Longrightarrow> s \<noteq> []"
  by (induction segs arbitrary: segs') (auto split: option.splits if_splits)

lemma normalizeToken_nonempty: "token \<noteq> [] \<Longrightarrow> normalizeToken token \<noteq> []"
  by (auto simp: normalizeToken_def CanonicalUUID_def split: option.splits if_splits)

definition shaped :: "pingRequest \<Rightarrow> bool" where
  "shaped req \<longleftrightarrow>
     (pq_token req \<noteq> [] \<and> pq_key req = [] \<and> pq_slug req = [] \<and> \<not> pq_create req
      \<or> pq_token req = [] \<and> pq_key req \<noteq> [] \<and> pq_slug req \<noteq> [])
     \<and> fresh_ping (pq_in req)"

lemma shaped_forms:
  "a \<noteq> [] \<Longrightarrow> fresh_ping inp \<Longrightarrow> shaped (by_token a inp)"
  "a \<noteq> [] \<Longrightarrow> b \<noteq> [] \<Longrightarrow> fresh_ping inp \<Longrightarrow> shaped (by_slug a b inp)"
  by (simp_all add: shaped_def by_token_def by_slug_def normalizeToken_nonempty)

lemma parse_segments_shape:
  "parse_segments segs = Inr req \<Longrightarrow> \<forall>s \<in> set segs. s \<noteq> [] \<Longrightarrow> shaped req"
  unfolding parse_segments_def
  by (auto split: list.splits sum.splits option.splits intro!: shaped_forms plain_ping intro: pingAction_shape)

text \<open>
  A ping that parses is either by token or by key and slug, never both; its kind is one
  of the four the store takes, an exit status is between 0 and 255 and decides success or
  failure, a run id is a canonical UUID, only the slug form can create, and the body is
  still empty.
\<close>

theorem parsePing_shape:
  assumes "parsePing path qs = Inr req"
  shows "(pq_token req \<noteq> [] \<and> pq_key req = [] \<and> pq_slug req = [] \<and> \<not> pq_create req
          \<or> pq_token req = [] \<and> pq_key req \<noteq> [] \<and> pq_slug req \<noteq> [])
    \<and> ping_shape (pq_in req) \<and> pi_body (pq_in req) = []
    \<and> (pi_rid (pq_in req) = [] \<or> CanonicalUUID (pi_rid (pq_in req)) = Some (pi_rid (pq_in req)))"
proof -
  obtain segs req0 where s: "\<And>s. s \<in> set segs \<Longrightarrow> s \<noteq> []" "parse_segments segs = Inr req0"
    and r: "parse_rid qs (create_flag qs req0) = Inr req"
  proof -
    from assms obtain segs req0 where "unescape_all (split_on (CHR ''/'') (trim_suffix path ''/'')) = Some segs"
      "parse_segments segs = Inr req0" "parse_rid qs (create_flag qs req0) = Inr req"
      by (auto simp: parsePing_def Let_def split: if_splits option.splits sum.splits)
    then show thesis by (intro that [of segs req0]) (auto dest: unescape_all_nonempty)
  qed
  from parse_segments_shape [OF s(2)] s(1) have "shaped req0" by blast
  then have sh: "shaped (create_flag qs req0)" by (auto simp: shaped_def create_flag_def)
  from r consider "req = create_flag qs req0"
    | v u where "CanonicalUUID v = Some u"
      "req = (create_flag qs req0)\<lparr>pq_in := (pq_in (create_flag qs req0))\<lparr>pi_rid := u\<rparr>\<rparr>"
    by (auto simp: parse_rid_def split: option.splits list.splits)
  then show ?thesis
  proof cases
    case 1
    with sh show ?thesis by (simp add: shaped_def fresh_ping_def)
  next
    case (2 v u)
    with sh CanonicalUUID_fixed [OF 2(1)] show ?thesis
      by (auto simp: shaped_def fresh_ping_def ping_shape_def split: option.splits)
  qed
qed

section \<open>What a stored body can hold\<close>

lemma lower_fixed: "lower c = x \<Longrightarrow> byte x < 65 \<Longrightarrow> c = x"
proof (cases "65 \<le> byte c \<and> byte c \<le> 90")
  case True
  then have "byte (char_of (byte c + 32)) = byte c + 32" by simp
  with True show "lower c = x \<Longrightarrow> byte x < 65 \<Longrightarrow> c = x" by (auto simp: lower_def)
qed (simp add: lower_def)

lemma credential_char:
  assumes "credential_as cred x" "c \<in> set x" "byte c < 65"
  shows "c \<in> set cred"
proof (cases "CanonicalUUID cred = None")
  case False
  from assms(2) obtain i where i: "i < length x" "x ! i = c" by (auto simp: in_set_conv_nth)
  with assms(1) False have "i < length cred" "lower (x ! i) = lower (cred ! i)"
    by (auto simp: credential_as_def asciiEqualFold_def list_all_length)
  moreover have "lower c = c" using assms(3) by (simp add: lower_def)
  ultimately have "cred ! i = c" using i(2) assms(3) lower_fixed [of "cred ! i" c] by simp
  with \<open>i < length cred\<close> show ?thesis by (metis nth_mem)
qed (use assms in \<open>simp add: credential_as_def\<close>)

text \<open>What is left of the text is text that was there.\<close>

lemma scan_replace_prefix:
  "CHR ''*'' \<notin> set x \<Longrightarrow> prefix x (scan_replace cred s) \<Longrightarrow> prefix x s"
proof (induction cred s arbitrary: x rule: scan_replace.induct)
  case (1 cred s)
  show ?case
  proof (cases x)
    case (Cons c y)
    show ?thesis
    proof (cases "s = [] \<or> cred \<noteq> [] \<and> credential_as cred (take (length cred) s)")
      case True
      with "1.prems" Cons show ?thesis by (auto simp: scan_replace.simps [of cred s] split: if_splits)
    next
      case False
      with "1.prems"(2) Cons have "c = hd s" "prefix y (scan_replace cred (tl s))"
        by (simp_all add: scan_replace.simps [of cred s] split: if_splits)
      with "1.IH"(2) [of y] "1.prems"(1) False Cons show ?thesis by (cases s) auto
    qed
  qed simp
qed

lemma scan_replace_keeps:
  "CHR ''*'' \<notin> set x \<Longrightarrow> x \<noteq> [] \<Longrightarrow> sublist x (scan_replace cred s) \<Longrightarrow> sublist x s"
proof (induction cred s rule: scan_replace.induct)
  case (1 cred s)
  consider "s = []" | "s \<noteq> []" "cred \<noteq> [] \<and> credential_as cred (take (length cred) s)"
    | "s \<noteq> []" "\<not> (cred \<noteq> [] \<and> credential_as cred (take (length cred) s))" by blast
  then show ?case
  proof cases
    case 1
    with "1.prems" show ?thesis by (simp add: scan_replace.simps)
  next
    case 2
    with "1.prems" have "sublist x (scan_replace cred (drop (length cred) s))"
      by (auto simp: scan_replace.simps [of cred s] sublist_Cons_right prefix_Cons)
    with "1.IH"(1) 2 "1.prems" have "sublist x (drop (length cred) s)" by blast
    then show ?thesis by (metis append_take_drop_id sublist_append)
  next
    case 3
    then have "scan_replace cred s = hd s # scan_replace cred (tl s)" by (auto simp: scan_replace.simps [of cred s])
    with "1.prems"(3) have "prefix x (scan_replace cred s) \<or> sublist x (scan_replace cred (tl s))"
      by (simp add: sublist_Cons_right)
    with 3 "1.IH"(2) "1.prems" scan_replace_prefix have "prefix x s \<or> sublist x (tl s)" by blast
    with 3 show ?thesis by (cases s) (auto simp: sublist_Cons_right)
  qed
qed

lemma scan_replace_hides:
  assumes "CHR ''*'' \<notin> set cred" "cred \<noteq> []" "credential_as cred x"
  shows "\<not> sublist x (scan_replace cred s)"
  using assms
proof (induction cred s rule: scan_replace.induct)
  case (1 cred s)
  have star: "CHR ''*'' \<notin> set x" using credential_char [OF "1.prems"(3)] "1.prems"(1) by auto
  have len: "length x = length cred" "x \<noteq> []" using "1.prems" by (auto simp: credential_as_def)
  consider "s = []" | "s \<noteq> []" "credential_as cred (take (length cred) s)"
    | "s \<noteq> []" "\<not> credential_as cred (take (length cred) s)" by blast
  then show ?case
  proof cases
    case 1
    with len show ?thesis by (simp add: scan_replace.simps)
  next
    case 2
    with "1.IH"(1) "1.prems" have "\<not> sublist x (scan_replace cred (drop (length cred) s))" by blast
    with 2 star len(2) "1.prems"(2) show ?thesis
      by (auto simp: scan_replace.simps [of cred s] sublist_Cons_right prefix_Cons)
  next
    case 3
    have "\<not> prefix x (scan_replace cred s)"
    proof
      assume "prefix x (scan_replace cred s)"
      then have "prefix x s" by (rule scan_replace_prefix [OF star])
      then have "take (length cred) s = x" using len(1) by (auto simp: prefix_def)
      with 3(2) "1.prems"(3) show False by simp
    qed
    moreover have "\<not> sublist x (scan_replace cred (tl s))" using "1.IH"(2) 3 "1.prems" by blast
    ultimately show ?thesis using 3 by (auto simp: scan_replace.simps [of cred s] sublist_Cons_right)
  qed
qed

lemma redact_all_hides:
  assumes "cred \<in> set creds" "cred \<noteq> []" "CHR ''*'' \<notin> set cred" "credential_as cred x"
  shows "\<not> sublist x (foldl redactCredential s creds)"
  using assms(1)
proof (induction creds arbitrary: s rule: rev_induct)
  case (snoc c creds)
  have x: "x \<noteq> []" "CHR ''*'' \<notin> set x"
    using assms(2,3) credential_char [OF assms(4)] assms(4) by (auto simp: credential_as_def)
  show ?case
  proof (cases "c = cred")
    case True
    then show ?thesis using scan_replace_hides [OF assms(3,2,4)] assms(2) by (simp add: redactCredential_def)
  next
    case False
    with snoc have "\<not> sublist x (foldl redactCredential s creds)" by simp
    moreover have "sublist x (redactCredential t c) \<Longrightarrow> sublist x t" for t
      using scan_replace_keeps [OF x(2,1)] by (simp add: redactCredential_def split: if_splits)
    ultimately show ?thesis by auto
  qed
qed simp

lemma drop_longest_prefix: "prefix (drop_longest s c n) s"
  by (induction n) (simp_all add: take_is_prefix)

lemma dropCredentialPrefix_prefix: "prefix (dropCredentialPrefix s creds) s"
  unfolding dropCredentialPrefix_def
proof (induction creds arbitrary: s)
  case (Cons c creds)
  show ?case
    using Cons [of "drop_longest s c (min (length c - 1) (length s))"] drop_longest_prefix
    by (auto intro: prefix_order.trans)
qed simp

lemma sublist_newline:
  assumes "newline \<notin> set x" "sublist x (s @ PingBodyTruncated)"
  shows "sublist x s \<or> sublist x PingBodyTruncated"
proof -
  have "sublist x s" if "x = xs1 @ xs2" "suffix xs1 s" "prefix xs2 PingBodyTruncated" for xs1 xs2
  proof (cases xs2)
    case Nil
    with that show ?thesis by simp
  next
    case (Cons c t)
    with that assms(1) show ?thesis by (auto simp: PingBodyTruncated_def)
  qed
  with assms(2) show ?thesis by (auto simp: sublist_append)
qed

lemma redact_body_hides:
  assumes "cred \<in> set creds" "cred \<noteq> []" "CHR ''*'' \<notin> set cred" "newline \<notin> set cred" "credential_as cred x"
    and "\<not> sublist x PingBodyTruncated"
  shows "\<not> sublist x (redact_body limit creds s cutRaw)"
proof -
  have nl: "newline \<notin> set x" using credential_char [OF assms(5), of newline] assms(4) by (auto simp: newline_def)
  define s2 where "s2 = foldl redactCredential (if cutRaw then dropCredentialPrefix s creds else s) creds"
  define s3 where "s3 = (if length s2 > limit then dropCredentialPrefix (take (cut_back s2 limit) s2) creds else s2)"
  have "\<not> sublist x s2" unfolding s2_def by (rule redact_all_hides [OF assms(1,2,3,5)])
  moreover have "prefix s3 s2"
    by (simp add: s3_def prefix_order.trans [OF dropCredentialPrefix_prefix take_is_prefix])
  ultimately have "\<not> sublist x s3" by (meson prefix_imp_sublist sublist_order.order.trans)
  moreover have "redact_body limit creds s cutRaw = (if cutRaw \<or> length s2 > limit then s3 @ PingBodyTruncated else s3)"
    by (simp only: redact_body_def Let_def s2_def s3_def)
  ultimately show ?thesis using sublist_newline [OF nl, of s3] assms(6) by auto
qed

lemma cut_back_le: "cut_back s n \<le> n"
  by (induction n) auto

lemma redact_body_length: "length (redact_body limit creds s cutRaw) \<le> limit + length PingBodyTruncated"
proof -
  have "length (dropCredentialPrefix (take (cut_back t limit) t) creds) \<le> limit" for t
    using prefix_length_le [OF dropCredentialPrefix_prefix, of "take (cut_back t limit) t" creds] cut_back_le [of t limit]
    by simp
  then show ?thesis by (simp add: redact_body_def Let_def)
qed

text \<open>
  C21: A stored ping body never contains a credential of its ping: no occurrence of the
  token or the key, in either letter case for a UUID, whatever the body holds, however
  often and wherever, and wherever it is cut. It is never longer than the limit and the
  marker. (The marker itself and texts with an asterisk or a line break apart, which no
  token contains.)
\<close>

theorem readPingBody_hides:
  assumes "readPingBody rmethod body limit creds = Some s"
    and "cred \<in> set creds" "cred \<noteq> []" "CHR ''*'' \<notin> set cred" "newline \<notin> set cred"
    and "credential_as cred x" "\<not> sublist x PingBodyTruncated"
  shows "\<not> sublist x s \<and> length s \<le> nat limit + length PingBodyTruncated"
proof (cases "s = []")
  case True
  have "x \<noteq> []" using assms(3,6) by (auto simp: credential_as_def)
  with True show ?thesis by simp
next
  case False
  then obtain t cutRaw where "s = redact_body (nat limit) creds t cutRaw"
    using assms(1) by (auto simp: readPingBody_def Let_def split: if_splits option.splits prod.splits)
  then show ?thesis using redact_body_hides [OF assms(2-7)] redact_body_length by blast
qed

theorem readPingBody_hides_witness:
  "\<exists>s. readPingBody ''POST'' (FullBody ''GET /ping/tok3n (tok3n)'') 12 [''tok3n''] = Some s
     \<and> \<not> sublist ''tok3n'' s \<and> length s \<le> 12 + length PingBodyTruncated"
proof -
  have r: "readPingBody ''POST'' (FullBody ''GET /ping/tok3n (tok3n)'') 12 [''tok3n'']
      = Some (''GET /ping/**'' @ PingBodyTruncated)"
    by code_simp
  have "\<not> sublist ''tok3n'' PingBodyTruncated" by code_simp
  moreover have "CanonicalUUID ''tok3n'' = None" by code_simp
  ultimately show ?thesis
    using readPingBody_hides [OF r, of "''tok3n''" "''tok3n''"] r by (simp add: credential_as_def newline_def)
qed


section \<open>The handler\<close>

lemma run_server [simp]:
  "run_state get_server (sv, s) = (sv, sv, s)" "run_state (upd_server f) (sv, s) = ((), f sv, s)"
  by (simp_all add: get_server_def upd_server_def)

lemma transact_error: "transact m d w = (Inl e, d', w') \<Longrightarrow> e \<noteq> DbError \<Longrightarrow> d' = d"
  by (auto simp: transact_def split: prod.splits fault.splits sum.splits outcome.splits)

lemma unknown_ping: "recordHeartbeatPing token inp now d w = (Inl ErrNotFound, d', w') \<Longrightarrow> d' = d"
  by (auto simp: recordHeartbeatPing_def throw_def split: if_splits dest: transact_error)

text \<open>The heartbeat a request names, by its token or by key and slug, and the ping it makes of it.\<close>

definition names_heartbeat :: "db \<Rightarrow> pingRequest \<Rightarrow> string \<Rightarrow> bool" where
  "names_heartbeat d req token \<longleftrightarrow>
     (if pq_key req = [] then token = pq_token req
      else \<exists>og \<in> set (t_orgs (t_accounts d)). og_ping_key og = Some (pq_key req)
         \<and> (\<exists>h \<in> set (t_hbs d). hr_org h = og_id og \<and> hr_name h = pq_slug req \<and> hr_token h = token))"

definition asked :: "http_request \<Rightarrow> 'l server \<Rightarrow> db \<Rightarrow> string \<Rightarrow> ping_input \<Rightarrow> bool" where
  "asked rq sv d token inp \<longleftrightarrow>
     (\<exists>req body. parsePing (trim_prefix (rq_path rq) ''/ping/'') (rq_query rq) = Inr req
        \<and> names_heartbeat d req token
        \<and> readPingBody (rq_method rq) (rq_body rq) (sv_body_limit sv) [token, pq_key req] = Some body
        \<and> inp = (pq_in req)\<lparr>pi_body := body\<rparr>)"

text \<open>What a reply says about the heartbeats and the events handed on.\<close>

definition truthful :: "http_request \<Rightarrow> reply \<Rightarrow> db \<Rightarrow> 'l server \<Rightarrow> db \<Rightarrow> 'l server \<Rightarrow> bool" where
  "truthful rq reply d sv d' sv' \<longleftrightarrow>
     (case reply of
        PingOK code lim text \<Rightarrow>
          (\<exists>token inp now w res w'. asked rq sv d token inp \<and> recordHeartbeatPing token inp now d w = (Inr res, d', w')
             \<and> sv_sent sv' = sv_sent sv @ (case pr_event res of Some ev \<Rightarrow> if sv_dispatch sv then [ev] else [] | None \<Rightarrow> []))
      | PingError code text \<Rightarrow> (code \<noteq> 500 \<longrightarrow> d' = d) \<and> sv_sent sv' = sv_sent sv
      | TooManyRequests \<Rightarrow> d' = d \<and> sv_sent sv' = sv_sent sv)"

lemma record_ping_truthful:
  assumes "run_state (record_ping L rq missKey now req token created) (sv, d, w) = (reply, sv', d', w')"
    and "parsePing (trim_prefix (rq_path rq) ''/ping/'') (rq_query rq) = Inr req" "names_heartbeat d req token"
  shows "truthful rq reply d sv d' sv'"
proof (cases "lm_has L (sv_tokens sv) (''ping-token|'' @ token) now")
  case True
  show ?thesis
  proof (cases "readPingBody (rq_method rq) (rq_body rq) (sv_body_limit sv) [token, pq_key req]")
    case None
    with assms(1) True show ?thesis by (auto simp: record_ping_def truthful_def)
  next
    case (Some body)
    obtain x d1 w1 where r: "recordHeartbeatPing token ((pq_in req)\<lparr>pi_body := body\<rparr>) now d w = (x, d1, w1)"
      using prod_cases3 by blast
    show ?thesis
    proof (cases x)
      case (Inl e)
      with assms(1) True Some r show ?thesis
        by (auto simp: record_ping_def truthful_def charge_miss_def log_to_def split: if_splits dest: unknown_ping)
    next
      case (Inr res)
      with assms(1) True Some r have "d' = d1" "\<exists>code lim text. reply = PingOK code lim text"
        "sv_sent sv' = sv_sent sv @ (case pr_event res of Some ev \<Rightarrow> if sv_dispatch sv then [ev] else [] | None \<Rightarrow> [])"
        by (auto simp: record_ping_def split: option.splits if_splits)
      moreover have "asked rq sv d token ((pq_in req)\<lparr>pi_body := body\<rparr>)"
        using assms(2,3) Some by (auto simp: asked_def)
      ultimately show ?thesis
        using r Inr unfolding truthful_def by (auto intro!: exI [of _ res] exI)
    qed
  qed
qed (use assms(1) in \<open>auto simp: record_ping_def truthful_def\<close>)

lemma org_of_key:
  "orgByPingKey key d w = (Inr i, d', w') \<Longrightarrow> \<exists>og \<in> set (t_orgs (t_accounts d)). og_ping_key og = Some key \<and> og_id og = i"
  by (auto simp: orgByPingKey_def get_accounts_def query_def stmt_def bnd_def or_not_found_def ret_def throw_def find_Some_iff
      split: if_splits option.splits sum.splits prod.splits fault.splits)

lemma heartbeat_of_name:
  "GetHeartbeatByName orgID name d w = (Inr hb, d', w') \<Longrightarrow>
     \<exists>h \<in> set (t_hbs d). hr_org h = orgID \<and> hr_name h = name \<and> hr_token h = hb_token hb"
  by (auto simp: GetHeartbeatByName_def query_def stmt_def bnd_def or_none_def ret_def throw_def find_Some_iff scanHeartbeat_def
      split: if_splits option.splits sum.splits prod.splits fault.splits)

text \<open>Without the flag that creates, resolving a slug only reads.\<close>

lemma resolveSlug_reads:
  assumes "run_state (resolveSlug L fresh req now) (sv, d, w) = (r, sv', d', w')" "\<not> pq_create req"
    and "pq_key req \<noteq> []"
  shows "d' = d \<and> sv_sent sv' = sv_sent sv \<and> sv_dispatch sv' = sv_dispatch sv \<and> sv_body_limit sv' = sv_body_limit sv
    \<and> (\<forall>token created. r = Inr (token, created) \<longrightarrow> names_heartbeat d req token)"
proof -
  obtain o1 d1 w1 where k: "orgByPingKey (pq_key req) d w = (o1, d1, w1)" using prod_cases3 by blast
  have "keeps (\<lambda>x. x = d) (orgByPingKey (pq_key req))"
    unfolding orgByPingKey_def get_accounts_def or_not_found_def by (intro tx_rules)
  with k have d1: "d1 = d" by (auto dest: keepsD)
  show ?thesis
  proof (cases o1)
    case (Inl e)
    with assms k d1 show ?thesis by (cases e) (auto simp: resolveSlug_def log_to_def)
  next
    case (Inr orgID)
    obtain h d2 w2 where g: "GetHeartbeatByName orgID (pq_slug req) d w1 = (h, d2, w2)" using prod_cases3 by blast
    have "keeps (\<lambda>x. x = d) (GetHeartbeatByName orgID (pq_slug req))"
      unfolding GetHeartbeatByName_def or_none_def by (intro tx_rules)
    with g have "d2 = d" by (auto dest: keepsD)
    moreover have "names_heartbeat d req (hb_token hb)" if "h = Inr hb" for hb
      using org_of_key [OF k [unfolded Inr]] heartbeat_of_name [OF g [unfolded that]] assms(3)
      unfolding names_heartbeat_def by (metis (full_types))
    ultimately show ?thesis
      using assms(1,2) k d1 Inr g by (auto simp: resolveSlug_def log_to_def split: sum.splits if_splits)
  qed
qed

lemma slug_ping_truthful:
  assumes "run_state (do {
      r \<leftarrow> resolveSlug L fresh req now;
      case r of
        Inl (code, msg) \<Rightarrow> do {
          (if code = 404 then charge_miss L missKey now else State_Monad.return ());
          State_Monad.return (if code = 429 then TooManyRequests else PingError code (if code = 404 then [] else msg)) }
      | Inr (token, created) \<Rightarrow> record_ping L rq missKey now req token created }) (sv, d, w) = (reply, sv', d', w')"
    and "parsePing (trim_prefix (rq_path rq) ''/ping/'') (rq_query rq) = Inr req" "pq_key req \<noteq> []" "\<not> pq_create req"
  shows "truthful rq reply d sv d' sv'"
proof -
  obtain r sv1 d1 w2 where r: "run_state (resolveSlug L fresh req now) (sv, d, w) = (r, sv1, d1, w2)"
    using prod_cases4 by blast
  from resolveSlug_reads [OF r assms(4,3)]
  have same: "d1 = d" "sv_sent sv1 = sv_sent sv" "sv_dispatch sv1 = sv_dispatch sv" "sv_body_limit sv1 = sv_body_limit sv"
    and named: "\<And>token created. r = Inr (token, created) \<Longrightarrow> names_heartbeat d req token" by auto
  show ?thesis
  proof (cases r)
    case (Inl cm)
    with assms(1) r same show ?thesis by (cases cm) (auto simp: truthful_def charge_miss_def split: if_splits)
  next
    case (Inr tc)
    obtain token created where tc: "tc = (token, created)" by (cases tc)
    with assms(1) r Inr have "run_state (record_ping L rq missKey now req token created) (sv1, d1, w2) = (reply, sv', d', w')"
      by auto
    then have "truthful rq reply d1 sv1 d' sv'"
      by (rule record_ping_truthful [OF _ assms(2)]) (use named Inr tc same in auto)
    then show ?thesis unfolding truthful_def asked_def same .
  qed
qed


text \<open>A limiter that refuses nothing, and a server that keeps 100 bytes of a body.\<close>

definition open_limiter :: "unit limiter" where
  "open_limiter = \<lparr>lm_has = (\<lambda>_ _ _. True), lm_allow = (\<lambda>_ _ _. (True, ()))\<rparr>"

definition sample_server :: "unit server" where
  "sample_server = \<lparr>sv_miss = (), sv_tokens = (), sv_creates = (), sv_body_limit = 100, sv_dispatch = True,
     sv_sent = [], sv_lines = []\<rparr>"

definition fail_ping :: http_request where
  "fail_ping = \<lparr>rq_method = ''GET'', rq_path = ''/ping/t/1'', rq_query = (\<lambda>_. None), rq_body = NoBody, rq_client = ''::1''\<rparr>"

theorem parsePing_shape_witness:
  "\<exists>req. parsePing ''t/1'' (\<lambda>_. None) = Inr req \<and> pq_token req = ''t'' \<and> pi_exit (pq_in req) = Some 1
     \<and> ping_shape (pq_in req)"
proof -
  have p: "parsePing ''t/1'' (\<lambda>_. None) = Inr (by_token ''t'' (ping_of PingFail (Some 1)))" by code_simp
  moreover have "pq_token (by_token ''t'' (ping_of PingFail (Some 1))) = ''t''" by code_simp
  ultimately show ?thesis using parsePing_shape [OF p] by (auto simp: by_token_def ping_of_def)
qed


end
