(* ===== verification/Config_Env.thy ===== *)
theory Config_Env
  imports Ping_Model Jobs_Spec
begin

text \<open>
  The settings \<^verbatim>\<open>tend serve\<close> reads from its environment: \<^verbatim>\<open>internal/config\<close>. The environment is
  an argument, a function from a variable's name to its value, empty when it is unset.
\<close>

type_synonym getenv = "string \<Rightarrow> string"

text \<open>A value that is not a whole number in range is an error naming the variable.\<close>

datatype env_error = BadSetting string string

section \<open>Numbers\<close>

text \<open>The trimmed value of a variable as a number from 0 to a bound; nothing when it is blank.\<close>

definition env_number :: "getenv \<Rightarrow> string \<Rightarrow> int \<Rightarrow> env_error + int option" where
  "env_number getenv name mx =
     (let v = trim_space (getenv name) in
      if v = [] then Inr None
      else case atoi v of
        None \<Rightarrow> Inl (BadSetting name v)
      | Some n \<Rightarrow> if n < 0 \<or> n > mx then Inl (BadSetting name v) else Inr (Some n))"

definition DefaultPingBodyKB :: int where "DefaultPingBodyKB = 10"
definition MaxPingBodyKB :: int where "MaxPingBodyKB = 100"

definition LoadPingBodyLimit :: "getenv \<Rightarrow> env_error + int" where
  "LoadPingBodyLimit getenv =
     (case env_number getenv ''TEND_PING_BODY_KB'' MaxPingBodyKB of
        Inl e \<Rightarrow> Inl e
      | Inr n \<Rightarrow> Inr (wrap64 ((case n of Some kb \<Rightarrow> kb | None \<Rightarrow> DefaultPingBodyKB) * 1000)))"

definition DefaultDeliveryHoldMinutes :: int where "DefaultDeliveryHoldMinutes = 15"
definition maxDeliveryHoldMinutes :: int where "maxDeliveryHoldMinutes = 24 * 60"

definition LoadDeliveryHold :: "getenv \<Rightarrow> env_error + duration" where
  "LoadDeliveryHold getenv =
     (case env_number getenv ''TEND_DELIVERY_HOLD_MINUTES'' maxDeliveryHoldMinutes of
        Inl e \<Rightarrow> Inl e
      | Inr n \<Rightarrow> Inr (wrap64 ((case n of Some m \<Rightarrow> m | None \<Rightarrow> DefaultDeliveryHoldMinutes) * minute)))"

definition LoadAlertOutputLines :: "getenv \<Rightarrow> env_error + int" where
  "LoadAlertOutputLines getenv =
     (case env_number getenv ''TEND_ALERT_OUTPUT_LINES'' MaxOutputTailLines of
        Inl e \<Rightarrow> Inl e
      | Inr n \<Rightarrow> Inr (case n of Some k \<Rightarrow> k | None \<Rightarrow> OutputTailLines))"

section \<open>Retention windows\<close>

record retention =
  rt_events :: duration
  rt_job_runs :: duration
  rt_deliveries :: duration
  rt_pings :: duration
  rt_runs_by_default :: bool

definition DefaultEventRetentionDays :: int where "DefaultEventRetentionDays = 30"
definition DefaultJobRunRetentionDays :: int where "DefaultJobRunRetentionDays = 90"
definition DefaultDeliveryRetentionDays :: int where "DefaultDeliveryRetentionDays = 7"
definition DefaultPingRetentionDays :: int where "DefaultPingRetentionDays = 30"
definition maxRetentionDays :: int where "maxRetentionDays = 100 * 365"

definition EnvEventRetentionDays :: string where "EnvEventRetentionDays = ''TEND_RETENTION_EVENTS_DAYS''"
definition EnvJobRunRetentionDays :: string where "EnvJobRunRetentionDays = ''TEND_RETENTION_RUNS_DAYS''"
definition EnvDeliveryRetentionDays :: string where "EnvDeliveryRetentionDays = ''TEND_RETENTION_DELIVERIES_DAYS''"
definition EnvPingRetentionDays :: string where "EnvPingRetentionDays = ''TEND_RETENTION_PINGS_DAYS''"

definition retention_window :: "getenv \<Rightarrow> string \<Rightarrow> int \<Rightarrow> env_error + duration" where
  "retention_window getenv name def_days =
     (case env_number getenv name maxRetentionDays of
        Inl e \<Rightarrow> Inl e
      | Inr n \<Rightarrow> Inr (wrap64 (wrap64 ((case n of Some days \<Rightarrow> days | None \<Rightarrow> def_days) * 24) * hour)))"

definition LoadRetention :: "getenv \<Rightarrow> env_error + retention" where
  "LoadRetention getenv =
     (case retention_window getenv EnvEventRetentionDays DefaultEventRetentionDays of
        Inl e \<Rightarrow> Inl e
      | Inr events \<Rightarrow>
          (case retention_window getenv EnvJobRunRetentionDays DefaultJobRunRetentionDays of
             Inl e \<Rightarrow> Inl e
           | Inr runs \<Rightarrow>
               (case retention_window getenv EnvDeliveryRetentionDays DefaultDeliveryRetentionDays of
                  Inl e \<Rightarrow> Inl e
                | Inr deliveries \<Rightarrow>
                    (case retention_window getenv EnvPingRetentionDays DefaultPingRetentionDays of
                       Inl e \<Rightarrow> Inl e
                     | Inr pings \<Rightarrow>
                         Inr \<lparr>rt_events = events, rt_job_runs = runs, rt_deliveries = deliveries, rt_pings = pings,
                              rt_runs_by_default = (trim_space (getenv EnvJobRunRetentionDays) = [])\<rparr>))))"

definition window_text :: "duration \<Rightarrow> string" where
  "window_text d = (if d = 0 then ''kept forever'' else dec (quot d (24 * hour)) @ ''d'')"

definition retention_String :: "retention \<Rightarrow> string" where
  "retention_String r =
     ''events '' @ window_text (rt_events r) @ '', job runs '' @ window_text (rt_job_runs r)
     @ (if rt_runs_by_default r
        then '' (default, up from 30d before v0.3.0; set '' @ EnvJobRunRetentionDays @ '' to change)'' else [])
     @ '', deliveries '' @ window_text (rt_deliveries r) @ '', heartbeat pings '' @ window_text (rt_pings r)"

section \<open>The database, the instance and the base URL\<close>

record config =
  cf_driver :: string
  cf_dsn :: string
  cf_master_key :: string

definition Load :: "getenv \<Rightarrow> config" where
  "Load getenv =
     (let db = getenv ''TEND_DB''; postgres = (has_prefix db ''postgres://'' \<or> has_prefix db ''postgresql://'')
      in \<lparr>cf_driver = (if postgres then ''postgres'' else ''sqlite''), cf_dsn = db,
          cf_master_key = getenv ''TEND_MASTER_KEY''\<rparr>)"

definition LoadInstance :: "getenv \<Rightarrow> string option \<Rightarrow> string" where
  "LoadInstance getenv hostname =
     (let v = trim_space (getenv ''TEND_INSTANCE'')
      in if v \<noteq> [] then v else case hostname of None \<Rightarrow> [] | Some h \<Rightarrow> h)"

text \<open>What \<^verbatim>\<open>url.Parse\<close> makes of a base URL.\<close>

record parsed_url =
  u_scheme :: string
  u_host :: string
  u_user :: bool
  u_query :: bool
  u_fragment :: bool
  u_opaque :: bool

datatype base_url_error = BadBaseURL

definition LoadBaseURL :: "getenv \<Rightarrow> (string \<Rightarrow> parsed_url option) \<Rightarrow> base_url_error + string" where
  "LoadBaseURL getenv url_Parse =
     (let v = trim_space (getenv ''TEND_BASE_URL'') in
      if v = [] then Inr []
      else case url_Parse v of
        None \<Rightarrow> Inl BadBaseURL
      | Some u \<Rightarrow>
          if u_scheme u \<noteq> ''http'' \<and> u_scheme u \<noteq> ''https'' \<or> u_host u = [] \<or> u_user u \<or> u_query u \<or> u_fragment u \<or> u_opaque u
          then Inl BadBaseURL else Inr (trim_right ''/'' v))"

section \<open>What is read is in range\<close>

lemma env_number_range:
  "env_number getenv name mx = Inr n \<Longrightarrow> n = None \<or> (\<exists>k. n = Some k \<and> 0 \<le> k \<and> k \<le> mx \<and> atoi (trim_space (getenv name)) = Some k)"
  by (auto simp: env_number_def Let_def split: if_splits option.splits)

lemma retention_window_exact:
  assumes "retention_window getenv name def_days = Inr d" "0 \<le> def_days" "def_days \<le> maxRetentionDays"
  shows "\<exists>days. d = days * (24 * hour) \<and> 0 \<le> days \<and> days \<le> maxRetentionDays
    \<and> days = (if trim_space (getenv name) = [] then def_days else the (atoi (trim_space (getenv name))))"
proof -
  obtain n where n: "env_number getenv name maxRetentionDays = Inr n"
    "d = wrap64 (wrap64 ((case n of Some days \<Rightarrow> days | None \<Rightarrow> def_days) * 24) * hour)"
    using assms(1) by (auto simp: retention_window_def split: sum.splits)
  define days where "days = (case n of Some days \<Rightarrow> days | None \<Rightarrow> def_days)"
  have days: "0 \<le> days" "days \<le> 36500"
    using env_number_range [OF n(1)] assms(2,3) by (auto simp: days_def maxRetentionDays_def)
  then have "in64 (days * 24)" "in64 (days * 24 * hour)" by (simp_all add: in64_def min_int64_def max_int64_def)
  moreover have "days = (if trim_space (getenv name) = [] then def_days else the (atoi (trim_space (getenv name))))"
    using n(1) by (auto simp: days_def env_number_def Let_def split: if_splits option.splits)
  ultimately show ?thesis using n(2) days by (auto simp: days_def [symmetric] maxRetentionDays_def)
qed

text \<open>The limit the server is given is the one that was read: it is within what the server allows.\<close>

lemma ping_body_limit_kept:
  assumes "LoadPingBodyLimit getenv = Inr n"
  shows "0 \<le> n \<and> n \<le> MaxPingBodyLimit \<and> sv_body_limit (SetPingBodyLimit n sv) = n"
proof -
  obtain k where k: "env_number getenv ''TEND_PING_BODY_KB'' MaxPingBodyKB = Inr k"
    "n = wrap64 ((case k of Some kb \<Rightarrow> kb | None \<Rightarrow> DefaultPingBodyKB) * 1000)"
    using assms by (auto simp: LoadPingBodyLimit_def split: sum.splits)
  define kb where "kb = (case k of Some kb \<Rightarrow> kb | None \<Rightarrow> DefaultPingBodyKB)"
  have "0 \<le> kb" "kb \<le> 100" using env_number_range [OF k(1)] by (auto simp: kb_def DefaultPingBodyKB_def MaxPingBodyKB_def)
  then have "n = kb * 1000" using k(2) by (simp add: kb_def [symmetric] in64_def min_int64_def max_int64_def)
  with \<open>0 \<le> kb\<close> \<open>kb \<le> 100\<close> show ?thesis by (simp add: SetPingBodyLimit_def MaxPingBodyLimit_def)
qed

end
