(* ===== verification/Config_File.thy ===== *)
theory Config_File
  imports Jobs_Spec Go_Time Core_Event
begin

text \<open>
  Reading \<^verbatim>\<open>tend.yml\<close>: \<^verbatim>\<open>Parse\<close> and its helpers in \<^verbatim>\<open>internal/configfile/configfile.go\<close>, with the
  checks of \<^verbatim>\<open>internal/notify\<close> it makes. The YAML decoder is an argument and gives the document
  as the code's own structures; so are the cron parser, \<^verbatim>\<open>url.Parse\<close> and the encoding of a
  job's settings.
\<close>

section \<open>The document\<close>

record job_spec =
  js_name :: string
  js_type :: string
  js_command :: string
  js_http_url :: string
  js_http_method :: string
  js_http_body :: string
  js_cron :: string
  js_interval :: int
  js_run_at :: string
  js_timeout :: int
  js_max_retries :: int
  js_enabled :: "bool option"
  js_env :: "(string \<times> string) list"
  js_warn_days :: "int option"
  js_host :: string
  js_port :: int
  js_server_name :: string
  js_starttls :: string
  js_insecure :: bool
  js_ca_file :: string
  js_renew_after :: "rat option"
  js_domain :: string
  js_rdap_url :: string
  js_expires_at :: string
  js_expiry_command :: string
  js_restore :: string
  js_checks :: "string list"
  js_cleanup :: string
  js_scratch_dir :: string
  js_max_duration :: int

text \<open>The values of a channel's settings: texts, which may refer to secrets, and others.\<close>

datatype 'v setting = Text string | Other 'v

record 'v channel_spec =
  cs_name :: string
  cs_type :: string
  cs_config :: "(string \<times> 'v setting) list"

record rule_spec =
  rs_channel :: string
  rs_events :: "string list"
  rs_job :: string
  rs_repeat :: string

record hb_spec =
  hs_name :: string
  hs_period :: int
  hs_grace :: int

record 'v file_root =
  fr_jobs :: "job_spec list"
  fr_notifications :: "('v channel_spec list \<times> rule_spec list) option"
  fr_heartbeats :: "hb_spec list"

text \<open>The parsed file. A rule's \<^verbatim>\<open>repeat\<close> is a duration here.\<close>

record parsed_rule =
  pr_channel :: string
  pr_events :: "string list"
  pr_job :: string
  pr_repeat :: "duration option"

record 'v config_file =
  cfg_jobs :: "job list"
  cfg_channels :: "'v channel_spec list"
  cfg_rules :: "parsed_rule list"
  cfg_heartbeats :: "hb_spec list"

section \<open>What rules and channels may name\<close>

definition channelTypes :: "string list" where
  "channelTypes = [''webhook'', ''slack'', ''discord'', ''smtp'', ''telegram'', ''ntfy'', ''pushover'']"

definition ValidChannelType :: "string \<Rightarrow> bool" where
  "ValidChannelType t \<longleftrightarrow> t \<in> set channelTypes"

definition ChannelTypeList :: string where
  "ChannelTypeList = joined '', '' (butlast channelTypes) @ '', or '' @ last channelTypes"

datatype rule_event_error = NeverNotifies string | UnknownEvent string

text \<open>A rule's event by its name.\<close>

definition event_named :: "string \<Rightarrow> event_type" where
  "event_named s =
     (case List.find (\<lambda>t. event_name t = s)
        [RunStarted, RunSucceeded, RunFailed, RunRecovered, JobRemoved, HeartbeatMissed, HeartbeatRecovered,
         HeartbeatRemoved, NotificationFailed] of
        Some t \<Rightarrow> t | None \<Rightarrow> OtherEvent s)"

definition ValidateRuleEvent :: "string \<Rightarrow> rule_event_error option" where
  "ValidateRuleEvent t =
     (if Alertable (event_named t) then None
      else if t = ''run.succeeded'' \<or> t = ''run.started'' then Some (NeverNotifies t) else Some (UnknownEvent t))"

section \<open>Jobs\<close>

datatype config_error =
    JobUnnamed nat
  | JobTypeMissing string
  | JobTypeUnknown string string
  | JobNeedsCommand string
  | JobNeedsURL string
  | JobCommandUnused string job_type string
  | JobURLUnused string job_type
  | JobExpiresAt string date_error
  | JobSettings string spec_error
  | JobTimeout string int
  | JobSchedules string nat
  | JobCron string
  | JobRunAt string string
  | ChannelUnnamed nat
  | ChannelTypeMissing string
  | ChannelTypeUnknown string string
  | RuleChannelMissing nat
  | RuleChannelUnknown nat string
  | RuleNoEvents string
  | RuleEventEmpty string
  | RuleEvent nat string rule_event_error
  | RuleRepeatUnused nat string
  | RuleRepeat nat string repeat_error
  | HeartbeatUnnamed nat
  | BadYAML string

definition commandHint :: "job_type \<Rightarrow> string \<Rightarrow> string \<Rightarrow> string" where
  "commandHint t expiry drill =
     (if t = Expiry then ''; use '' @ expiry else if t = Drill then ''; use '' @ drill else [])"

definition DefaultRenewAfterFraction :: rat where
  "DefaultRenewAfterFraction = 6004799503160661 / 9007199254740992"

definition settings_of :: "job_type \<Rightarrow> job_spec \<Rightarrow> date_error + spec" where
  "settings_of t y =
     (let s = zero_spec\<lparr>sp_warn_days := (case js_warn_days y of
                  Some n \<Rightarrow> if t \<noteq> Drill then n else DefaultWarnDays t | None \<Rightarrow> DefaultWarnDays t)\<rparr>
      in case t of
           TLS \<Rightarrow> Inr (s\<lparr>sp_host := js_host y, sp_port := js_port y, sp_server_name := js_server_name y,
                         sp_starttls := js_starttls y, sp_insecure := js_insecure y, sp_ca_file := js_ca_file y,
                         sp_renew_after := (case js_renew_after y of Some f \<Rightarrow> f | None \<Rightarrow> DefaultRenewAfterFraction)\<rparr>)
         | Domain \<Rightarrow> Inr (s\<lparr>sp_domain := (case NormalizeDomain (js_domain y) of Inr d \<Rightarrow> d | Inl _ \<Rightarrow> js_domain y),
                            sp_rdap_url := js_rdap_url y\<rparr>)
         | Expiry \<Rightarrow>
             if js_expires_at y \<noteq> [] then
               (case ParseExpiryDate (js_expires_at y) of
                  Inl e \<Rightarrow> Inl e
                | Inr t \<Rightarrow> Inr (s\<lparr>sp_expiry_command := js_expiry_command y, sp_expires_at := t\<rparr>))
             else Inr (s\<lparr>sp_expiry_command := js_expiry_command y\<rparr>)
         | Drill \<Rightarrow> Inr (s\<lparr>sp_warn_days := 0, sp_restore := js_restore y, sp_checks := js_checks y, sp_cleanup := js_cleanup y,
                           sp_scratch_dir := js_scratch_dir y, sp_max_duration := js_max_duration y\<rparr>)
         | _ \<Rightarrow> Inr s)"

definition specFor :: "url_parser \<Rightarrow> job_type \<Rightarrow> job_spec \<Rightarrow> config_error + spec option" where
  "specFor url_Parse t y =
     (if \<not> HasSpec t then Inr None
      else case settings_of t y of
        Inl e \<Rightarrow> Inl (JobExpiresAt (js_name y) e)
      | Inr s \<Rightarrow> (case ValidateSpec url_Parse t (Some s) of
                    Some e \<Rightarrow> Inl (JobSettings (js_name y) e)
                  | None \<Rightarrow> Inr (Some s)))"

definition job_type_of :: "job_spec \<Rightarrow> config_error + job_type" where
  "job_type_of y =
     (let ref = js_name y;
          probe = (\<lambda>t. if js_command y \<noteq> [] then Inl (JobCommandUnused ref t (commandHint t ''expiry_command'' ''restore, checks and cleanup''))
                       else if js_http_url y \<noteq> [] then Inl (JobURLUnused ref t) else Inr t)
      in if js_type y = ''shell'' then (if js_command y = [] then Inl (JobNeedsCommand ref) else Inr Shell)
         else if js_type y = ''http'' then (if js_http_url y = [] then Inl (JobNeedsURL ref) else Inr HTTP)
         else if js_type y = ''tls'' then probe TLS
         else if js_type y = ''domain'' then probe Domain
         else if js_type y = ''expiry'' then probe Expiry
         else if js_type y = ''drill'' then probe Drill
         else if js_type y = [] then Inl (JobTypeMissing ref)
         else Inl (JobTypeUnknown ref (js_type y)))"

definition schedules :: "job_spec \<Rightarrow> nat" where
  "schedules y = (if js_cron y \<noteq> [] then 1 else 0) + (if js_interval y > 0 then 1 else 0) + (if js_run_at y \<noteq> [] then 1 else 0)"

definition run_at_of :: "job_spec \<Rightarrow> config_error + gotime" where
  "run_at_of y =
     (if js_run_at y = [] then Inr 0
      else case time_Parse RFC3339 (js_run_at y) of
        None \<Rightarrow> Inl (JobRunAt (js_name y) (js_run_at y))
      | Some t \<Rightarrow> Inr t)"

definition mapSpec ::
  "cron_parser \<Rightarrow> url_parser \<Rightarrow> (spec \<Rightarrow> string) \<Rightarrow> nat \<Rightarrow> job_spec \<Rightarrow> config_error + job" where
  "mapSpec parse url_Parse encode idx y =
     (if js_name y = [] then Inl (JobUnnamed idx)
      else case job_type_of y of
        Inl e \<Rightarrow> Inl e
      | Inr t \<Rightarrow>
          (case specFor url_Parse t y of
             Inl e \<Rightarrow> Inl e
           | Inr settings \<Rightarrow>
               if js_timeout y < 0 then Inl (JobTimeout (js_name y) (js_timeout y))
               else if schedules y > 1 then Inl (JobSchedules (js_name y) (schedules y))
               else if js_cron y \<noteq> [] \<and> \<not> ValidateCron parse (js_cron y) then Inl (JobCron (js_name y))
               else case run_at_of y of
                 Inl e \<Rightarrow> Inl e
               | Inr runAt \<Rightarrow>
                   Inr \<lparr>j_id = 0, j_org = 0, j_name = js_name y, j_type = t, j_command = js_command y,
                        j_http_url = js_http_url y, j_http_method = js_http_method y, j_http_body = js_http_body y,
                        j_cron = js_cron y, j_interval = js_interval y, j_run_at = runAt, j_timeout = js_timeout y,
                        j_max_retries = js_max_retries y,
                        j_enabled = (case js_enabled y of None \<Rightarrow> True | Some b \<Rightarrow> b), j_env = js_env y,
                        j_spec = map_option encode settings, j_next_run = 0, j_created = 0, j_updated = 0\<rparr>))"

section \<open>The file\<close>

text \<open>The entries of a section in order, up to the first that is wrong.\<close>

fun each_from :: "(nat \<Rightarrow> 'a \<Rightarrow> 'e + 'b) \<Rightarrow> nat \<Rightarrow> 'a list \<Rightarrow> 'e + 'b list" where
  "each_from f i [] = Inr []"
| "each_from f i (x # xs) =
     (case f i x of
        Inl e \<Rightarrow> Inl e
      | Inr y \<Rightarrow> (case each_from f (Suc i) xs of Inl e \<Rightarrow> Inl e | Inr ys \<Rightarrow> Inr (y # ys)))"

definition parse_channel :: "nat \<Rightarrow> 'v channel_spec \<Rightarrow> config_error + 'v channel_spec" where
  "parse_channel i c =
     (if cs_name c = [] then Inl (ChannelUnnamed i)
      else if cs_type c = [] then Inl (ChannelTypeMissing (cs_name c))
      else if \<not> ValidChannelType (cs_type c) then Inl (ChannelTypeUnknown (cs_name c) (cs_type c))
      else Inr c)"

fun event_error :: "nat \<Rightarrow> string \<Rightarrow> string list \<Rightarrow> config_error option" where
  "event_error i ch [] = None"
| "event_error i ch (ev # evs) =
     (if trim_space ev = [] then Some (RuleEventEmpty ch)
      else case ValidateRuleEvent ev of Some e \<Rightarrow> Some (RuleEvent i ch e) | None \<Rightarrow> event_error i ch evs)"

definition parse_rule :: "string list \<Rightarrow> nat \<Rightarrow> rule_spec \<Rightarrow> config_error + parsed_rule" where
  "parse_rule declared i r =
     (let ch = rs_channel r;
          rule = (\<lambda>rep. \<lparr>pr_channel = ch, pr_events = rs_events r, pr_job = rs_job r, pr_repeat = rep\<rparr>)
      in if ch = [] then Inl (RuleChannelMissing i)
         else if ch \<notin> set declared then Inl (RuleChannelUnknown i ch)
         else if rs_events r = [] then Inl (RuleNoEvents ch)
         else case event_error i ch (rs_events r) of
           Some e \<Rightarrow> Inl e
         | None \<Rightarrow>
             if trim_space (rs_repeat r) = [] then Inr (rule None)
             else if ''run.failed'' \<notin> set (rs_events r) then Inl (RuleRepeatUnused i ch)
             else case ParseRepeat (rs_repeat r) of
               Inl e \<Rightarrow> Inl (RuleRepeat i ch e)
             | Inr d \<Rightarrow> Inr (rule (Some d)))"

definition parse_heartbeat :: "nat \<Rightarrow> hb_spec \<Rightarrow> config_error + hb_spec" where
  "parse_heartbeat i h = (if hs_name h = [] then Inl (HeartbeatUnnamed i) else Inr h)"

definition parse_notifications ::
  "('v channel_spec list \<times> rule_spec list) option \<Rightarrow> config_error + 'v channel_spec list \<times> parsed_rule list" where
  "parse_notifications n =
     (case n of
        None \<Rightarrow> Inr ([], [])
      | Some (channels, rules) \<Rightarrow>
          (case each_from parse_channel 0 channels of
             Inl e \<Rightarrow> Inl e
           | Inr cs \<Rightarrow>
               (case each_from (parse_rule (map cs_name cs)) 0 rules of
                  Inl e \<Rightarrow> Inl e
                | Inr rs \<Rightarrow> Inr (cs, rs))))"

definition Parse ::
  "('y \<Rightarrow> string + 'v file_root) \<Rightarrow> cron_parser \<Rightarrow> url_parser \<Rightarrow> (spec \<Rightarrow> string) \<Rightarrow> 'y \<Rightarrow> config_error + 'v config_file" where
  "Parse unmarshal parse url_Parse encode data =
     (case unmarshal data of
        Inl e \<Rightarrow> Inl (BadYAML e)
      | Inr doc \<Rightarrow>
          (case each_from (mapSpec parse url_Parse encode) 0 (fr_jobs doc) of
             Inl e \<Rightarrow> Inl e
           | Inr js \<Rightarrow>
               (case parse_notifications (fr_notifications doc) of
                  Inl e \<Rightarrow> Inl e
                | Inr (cs, rs) \<Rightarrow>
                    (case each_from parse_heartbeat 0 (fr_heartbeats doc) of
                       Inl e \<Rightarrow> Inl e
                     | Inr hs \<Rightarrow> Inr \<lparr>cfg_jobs = js, cfg_channels = cs, cfg_rules = rs, cfg_heartbeats = hs\<rparr>))))"

section \<open>What a parsed file guarantees\<close>

definition sound_job :: "cron_parser \<Rightarrow> url_parser \<Rightarrow> (spec \<Rightarrow> string) \<Rightarrow> job \<Rightarrow> bool" where
  "sound_job parse url_Parse encode j \<longleftrightarrow>
     j_name j \<noteq> [] \<and> 0 \<le> j_timeout j
     \<and> (case j_type j of
          Shell \<Rightarrow> j_command j \<noteq> [] | HTTP \<Rightarrow> j_http_url j \<noteq> [] | OtherType _ \<Rightarrow> False
        | _ \<Rightarrow> j_command j = [] \<and> j_http_url j = [])
     \<and> (j_cron j \<noteq> [] \<longrightarrow> ValidateCron parse (j_cron j) \<and> j_interval j \<le> 0 \<and> j_run_at j = 0)
     \<and> (j_interval j > 0 \<longrightarrow> j_run_at j = 0)
     \<and> (if HasSpec (j_type j)
        then \<exists>s. j_spec j = Some (encode s) \<and> ValidateSpec url_Parse (j_type j) (Some s) = None
        else j_spec j = None)"

definition sound_rule :: "string list \<Rightarrow> parsed_rule \<Rightarrow> bool" where
  "sound_rule declared r \<longleftrightarrow>
     pr_channel r \<in> set declared \<and> pr_events r \<noteq> [] \<and> (\<forall>ev \<in> set (pr_events r). Alertable (event_named ev))
     \<and> (\<forall>d. pr_repeat r = Some d \<longrightarrow> ''run.failed'' \<in> set (pr_events r) \<and> (d = 0 \<or> MinRepeat \<le> d \<and> d \<le> MaxRepeat))"

lemma each_from_all:
  "each_from f i xs = Inr ys \<Longrightarrow> list_all2 (\<lambda>x y. \<exists>i. f i x = Inr y) xs ys"
  by (induction xs arbitrary: i ys) (auto split: sum.splits)

lemma each_from_set: "each_from f i xs = Inr ys \<Longrightarrow> y \<in> set ys \<Longrightarrow> \<exists>i x. x \<in> set xs \<and> f i x = Inr y"
  by (induction xs arbitrary: i ys) (auto split: sum.splits, blast+)

lemma job_type_of_sound:
  "job_type_of y = Inr t \<Longrightarrow> (case t of
      Shell \<Rightarrow> js_command y \<noteq> [] | HTTP \<Rightarrow> js_http_url y \<noteq> [] | OtherType _ \<Rightarrow> False
    | _ \<Rightarrow> js_command y = [] \<and> js_http_url y = [])"
  by (auto simp: job_type_of_def Let_def split: if_splits)

lemma specFor_sound:
  "specFor url_Parse t y = Inr so \<Longrightarrow>
     (if HasSpec t then \<exists>s. so = Some s \<and> ValidateSpec url_Parse t (Some s) = None else so = None)"
  by (auto simp: specFor_def split: if_splits sum.splits option.splits)

lemma schedules_one:
  assumes "schedules y \<le> 1"
  shows "js_cron y \<noteq> [] \<Longrightarrow> js_interval y \<le> 0 \<and> js_run_at y = []" "js_interval y > 0 \<Longrightarrow> js_run_at y = []"
  using assms by (auto simp: schedules_def split: if_splits)

lemma mapSpec_sound:
  assumes "mapSpec parse url_Parse encode i y = Inr j"
  shows "sound_job parse url_Parse encode j" "j_name j = js_name y"
proof -
  obtain t so runAt where m: "js_name y \<noteq> []" "job_type_of y = Inr t" "specFor url_Parse t y = Inr so" "0 \<le> js_timeout y"
    "schedules y \<le> 1" "js_cron y \<noteq> [] \<Longrightarrow> ValidateCron parse (js_cron y)" "run_at_of y = Inr runAt"
    and j: "j_name j = js_name y" "j_type j = t" "j_command j = js_command y" "j_http_url j = js_http_url y"
      "j_cron j = js_cron y" "j_interval j = js_interval y" "j_run_at j = runAt" "j_timeout j = js_timeout y"
      "j_spec j = map_option encode so"
    using assms by (auto simp: mapSpec_def split: if_splits sum.splits)
  have r: "js_run_at y = [] \<Longrightarrow> runAt = 0" using m(7) by (simp add: run_at_of_def)
  have "case j_type j of Shell \<Rightarrow> j_command j \<noteq> [] | HTTP \<Rightarrow> j_http_url j \<noteq> [] | OtherType _ \<Rightarrow> False
        | _ \<Rightarrow> j_command j = [] \<and> j_http_url j = []"
    using job_type_of_sound [OF m(2)] unfolding j .
  moreover have "if HasSpec (j_type j)
        then \<exists>s. j_spec j = Some (encode s) \<and> ValidateSpec url_Parse (j_type j) (Some s) = None else j_spec j = None"
    using specFor_sound [OF m(3)] by (auto simp: j split: if_splits)
  ultimately show "sound_job parse url_Parse encode j" "j_name j = js_name y"
    using m schedules_one [OF m(5)] r unfolding sound_job_def j by auto
qed

lemma event_error_None: "event_error i ch evs = None \<Longrightarrow> ev \<in> set evs \<Longrightarrow> Alertable (event_named ev)"
  by (induction evs) (auto simp: ValidateRuleEvent_def split: if_splits option.splits)

lemma ParseRepeat_range: "ParseRepeat s = Inr d \<Longrightarrow> d = 0 \<or> MinRepeat \<le> d \<and> d \<le> MaxRepeat"
  by (auto simp: ParseRepeat_def Let_def split: if_splits option.splits)

lemma parse_rule_sound: "parse_rule declared i r = Inr pr \<Longrightarrow> sound_rule declared pr"
  by (auto simp: parse_rule_def sound_rule_def Let_def split: if_splits option.splits sum.splits
      dest: event_error_None ParseRepeat_range)

lemma parse_channel_sound: "parse_channel i c = Inr c' \<Longrightarrow> c' = c \<and> cs_name c \<noteq> [] \<and> ValidChannelType (cs_type c)"
  by (auto simp: parse_channel_def split: if_splits)

lemma parse_notifications_sound:
  assumes "parse_notifications n = Inr (cs, rs)"
  shows "(\<forall>c \<in> set cs. cs_name c \<noteq> [] \<and> ValidChannelType (cs_type c)) \<and> (\<forall>r \<in> set rs. sound_rule (map cs_name cs) r)"
proof (cases n)
  case (Some p)
  obtain chans rules where p: "p = (chans, rules)" by force
  with Some assms have e: "each_from parse_channel 0 chans = Inr cs" "each_from (parse_rule (map cs_name cs)) 0 rules = Inr rs"
    by (auto simp: parse_notifications_def split: sum.splits)
  show ?thesis
    using each_from_set [OF e(1)] each_from_set [OF e(2)] parse_channel_sound parse_rule_sound by metis
qed (use assms in \<open>simp add: parse_notifications_def\<close>)

text \<open>
  C20: What \<^verbatim>\<open>Parse\<close> accepts can be run and routed: there is one job for each entry, in order, and
  each has a name, what its type needs and nothing its type does not use, a timeout that is not
  negative, at most one schedule, a cron expression that parses and settings the executor
  accepts; every channel has a name and a known type; every rule goes to a channel of the file,
  for events that are delivered, with a reminder interval only where it paces run.failed; every
  heartbeat has a name.
\<close>

theorem parsed_file_is_sound:
  assumes "Parse unmarshal parse url_Parse encode data = Inr cfg"
  shows "\<exists>doc. unmarshal data = Inr doc \<and> map j_name (cfg_jobs cfg) = map js_name (fr_jobs doc)
    \<and> (\<forall>j \<in> set (cfg_jobs cfg). sound_job parse url_Parse encode j)
    \<and> (\<forall>c \<in> set (cfg_channels cfg). cs_name c \<noteq> [] \<and> ValidChannelType (cs_type c))
    \<and> (\<forall>r \<in> set (cfg_rules cfg). sound_rule (map cs_name (cfg_channels cfg)) r)
    \<and> (\<forall>h \<in> set (cfg_heartbeats cfg). hs_name h \<noteq> [])"
proof -
  obtain doc js cs rs hs where p: "unmarshal data = Inr doc"
      "each_from (mapSpec parse url_Parse encode) 0 (fr_jobs doc) = Inr js"
      "parse_notifications (fr_notifications doc) = Inr (cs, rs)"
      "each_from parse_heartbeat 0 (fr_heartbeats doc) = Inr hs"
    and cfg: "cfg = \<lparr>cfg_jobs = js, cfg_channels = cs, cfg_rules = rs, cfg_heartbeats = hs\<rparr>"
    using assms by (auto simp: Parse_def split: sum.splits)
  have "map j_name js = map js_name (fr_jobs doc)"
    using each_from_all [OF p(2)] by (auto simp: list_all2_conv_all_nth intro!: nth_equalityI dest!: mapSpec_sound(2))
  moreover have "\<forall>j \<in> set js. sound_job parse url_Parse encode j"
    using each_from_set [OF p(2)] mapSpec_sound(1) by metis
  moreover have "\<forall>h \<in> set hs. hs_name h \<noteq> []"
    using each_from_set [OF p(4)] by (fastforce simp: parse_heartbeat_def split: if_splits)
  ultimately show ?thesis using p(1) parse_notifications_sound [OF p(3)] by (simp add: cfg)
qed

text \<open>A file with a tls probe, a channel and a rule for its failures.\<close>

definition blank_job :: job_spec where
  "blank_job = \<lparr>js_name = [], js_type = [], js_command = [], js_http_url = [], js_http_method = [], js_http_body = [],
     js_cron = [], js_interval = 0, js_run_at = [], js_timeout = 0, js_max_retries = 0, js_enabled = None, js_env = [],
     js_warn_days = None, js_host = [], js_port = 0, js_server_name = [], js_starttls = [], js_insecure = False,
     js_ca_file = [], js_renew_after = None, js_domain = [], js_rdap_url = [], js_expires_at = [], js_expiry_command = [],
     js_restore = [], js_checks = [], js_cleanup = [], js_scratch_dir = [], js_max_duration = 0\<rparr>"

definition sample_file :: "unit file_root" where
  "sample_file =
     \<lparr>fr_jobs = [blank_job\<lparr>js_name := ''restore'', js_type := ''drill'', js_restore := ''pg_restore'', js_interval := 3600\<rparr>],
      fr_notifications = Some ([\<lparr>cs_name = ''ops'', cs_type = ''slack'', cs_config = []\<rparr>],
        [\<lparr>rs_channel = ''ops'', rs_events = [''run.failed''], rs_job = [], rs_repeat = ''every''\<rparr>]),
      fr_heartbeats = [\<lparr>hs_name = ''cron'', hs_period = 60, hs_grace = 30\<rparr>]\<rparr>"

theorem parsed_file_is_sound_witness:
  "\<exists>cfg. Parse Inr (\<lambda>_. None) (\<lambda>_. None) sp_restore sample_file = Inr cfg
     \<and> map pr_repeat (cfg_rules cfg) = [Some 0]
     \<and> (\<forall>j \<in> set (cfg_jobs cfg). sound_job (\<lambda>_. None) (\<lambda>_. None) sp_restore j)"
proof -
  have r: "ParseRepeat ''every'' = Inr 0" by (simp add: ParseRepeat_def trim_space_visible visible_def)
  have e: "ValidateRuleEvent ''run.failed'' = None" by code_simp
  let ?y = "blank_job\<lparr>js_name := ''restore'', js_type := ''drill'', js_restore := ''pg_restore'', js_interval := 3600\<rparr>"
  let ?s = "zero_spec\<lparr>sp_restore := ''pg_restore''\<rparr>"
  have t: "job_type_of ?y = Inr Drill" by (simp add: job_type_of_def blank_job_def)
  have st: "settings_of Drill ?y = Inr ?s" by (simp add: settings_of_def blank_job_def zero_spec_def)
  have v: "ValidateSpec (\<lambda>_. None) Drill (Some ?s) = None"
    by (simp add: ValidateSpec_def HasSpec_def validateDrill_def zero_spec_def trim_space_visible visible_def)
  have sf: "specFor (\<lambda>_. None) Drill ?y = Inr (Some ?s)" by (simp add: specFor_def HasSpec_def st v)
  have "\<exists>j. mapSpec (\<lambda>_. None) (\<lambda>_. None) sp_restore 0 ?y = Inr j"
    unfolding mapSpec_def t sf sum.case by (simp add: blank_job_def schedules_def run_at_of_def)
  moreover have "\<exists>cs rs. parse_notifications (fr_notifications sample_file) = Inr (cs, rs) \<and> map pr_repeat rs = [Some 0]"
    by (simp add: sample_file_def parse_notifications_def parse_channel_def parse_rule_def ValidChannelType_def channelTypes_def
        trim_space_visible visible_def r e Let_def)
  ultimately have "\<exists>cfg. Parse Inr (\<lambda>_. None) (\<lambda>_. None) sp_restore sample_file = Inr cfg \<and> map pr_repeat (cfg_rules cfg) = [Some 0]"
    by (auto simp: Parse_def sample_file_def parse_heartbeat_def)
  then obtain cfg where p: "Parse Inr (\<lambda>_. None) (\<lambda>_. None) sp_restore sample_file = Inr cfg" "map pr_repeat (cfg_rules cfg) = [Some 0]"
    by (elim exE conjE)
  show ?thesis
    by (rule exI [of _ cfg]) (use p parsed_file_is_sound [OF p(1)] in simp)
qed

end
