(* ===== verification/Config_Sync.thy ===== *)
theory Config_Sync
  imports Config_File Store_Total Store_Reads
begin

text \<open>
  Applying a parsed \<^verbatim>\<open>tend.yml\<close> to the store: \<^verbatim>\<open>Reconcile\<close> of \<^verbatim>\<open>internal/configfile/configfile.go\<close> over
  the store's own operations, each a transaction of its own. An error the code wraps is the
  error itself here. The encryption of channel settings and their JSON, the cron parser and
  the random tokens of new heartbeats are arguments.
\<close>

section \<open>Jobs\<close>

record recon =
  rc_created :: nat
  rc_updated :: nat
  rc_disabled :: nat
  rc_disabled_names :: "string list"
  rc_channels :: nat
  rc_rules :: nat
  rc_heartbeats :: nat

definition empty_recon :: recon where
  "empty_recon = \<lparr>rc_created = 0, rc_updated = 0, rc_disabled = 0, rc_disabled_names = [], rc_channels = 0, rc_rules = 0,
     rc_heartbeats = 0\<rparr>"

definition mustNextRun :: "cron_parser \<Rightarrow> job \<Rightarrow> gotime \<Rightarrow> gotime" where
  "mustNextRun parse j now = (case NextRun parse j now of Inr t \<Rightarrow> t | Inl _ \<Rightarrow> 0)"

definition schedule_changed :: "job \<Rightarrow> job \<Rightarrow> bool" where
  "schedule_changed a b \<longleftrightarrow> j_cron a \<noteq> j_cron b \<or> j_interval a \<noteq> j_interval b \<or> j_run_at a \<noteq> j_run_at b"

definition updated :: "recon \<Rightarrow> recon" where
  "updated res = res\<lparr>rc_updated := rc_updated res + 1\<rparr>"

definition sync_found :: "cron_parser \<Rightarrow> gotime \<Rightarrow> job \<Rightarrow> job \<Rightarrow> job" where
  "sync_found parse now existing pj =
     (let pj' = pj\<lparr>j_id := j_id existing, j_org := j_org existing, j_created := j_created existing\<rparr>
      in pj'\<lparr>j_next_run := (if schedule_changed existing pj \<or> j_next_run existing = 0
                            then mustNextRun parse pj' now else j_next_run existing)\<rparr>)"

definition sync_job :: "cron_parser \<Rightarrow> int \<Rightarrow> gotime \<Rightarrow> job \<Rightarrow> recon \<Rightarrow> recon tx" where
  "sync_job parse orgID now j res =
     (let pj = j\<lparr>j_org := orgID\<rparr> in
      bnd (attempt (GetJobByName orgID (j_name pj))) (\<lambda>x.
      case x of
        Inl e \<Rightarrow>
          (case e of
             ErrUnreadable i \<Rightarrow>
               bnd (UpdateJob (pj\<lparr>j_id := i, j_next_run := mustNextRun parse (pj\<lparr>j_id := i\<rparr>) now\<rparr>)) (\<lambda>_. ret (updated res))
           | ErrNotFound \<Rightarrow>
               bnd (CreateJob (pj\<lparr>j_next_run := mustNextRun parse pj now\<rparr>)) (\<lambda>_.
               ret (res\<lparr>rc_created := rc_created res + 1\<rparr>))
           | _ \<Rightarrow> throw e)
      | Inr existing \<Rightarrow> bnd (UpdateJob (sync_found parse now existing pj)) (\<lambda>_. ret (updated res))))"

fun sync_jobs :: "cron_parser \<Rightarrow> int \<Rightarrow> gotime \<Rightarrow> job list \<Rightarrow> recon \<Rightarrow> recon tx" where
  "sync_jobs parse orgID now [] res = ret res"
| "sync_jobs parse orgID now (j # js) res = bnd (sync_job parse orgID now j res) (sync_jobs parse orgID now js)"

fun disable_jobs :: "string list \<Rightarrow> job list \<Rightarrow> recon \<Rightarrow> recon tx" where
  "disable_jobs names [] res = ret res"
| "disable_jobs names (ej # ejs) res =
     (if j_name ej \<in> set names \<or> \<not> j_enabled ej then disable_jobs names ejs res
      else bnd (UpdateJob (ej\<lparr>j_enabled := False\<rparr>)) (\<lambda>_.
           disable_jobs names ejs
             (res\<lparr>rc_disabled := rc_disabled res + 1, rc_disabled_names := rc_disabled_names res @ [j_name ej]\<rparr>)))"

definition reconcileJobs :: "cron_parser \<Rightarrow> int \<Rightarrow> job list \<Rightarrow> bool \<Rightarrow> recon \<Rightarrow> recon tx" where
  "reconcileJobs parse orgID parsed prune res =
     bnd time_now (\<lambda>now.
     bnd (ListJobs orgID) (\<lambda>(existing, unreadable).
     bnd (sync_jobs parse orgID now parsed res) (\<lambda>res.
     if prune then disable_jobs (map j_name parsed) existing res else ret res)))"

section \<open>Channels\<close>

lemma str_index_le: "str_index s v = Some i \<Longrightarrow> i + length v \<le> length s"
  by (drule str_index_Some) (auto simp: occurs_at_def)

text \<open>
  \<^verbatim>\<open>resolveSecretRefs\<close>: \<open>acc\<close> is what was written, \<open>rest\<close> what is left. A token that is no
  secret is written back without the white space inside it.
\<close>

function resolveSecretRefs :: "(string \<Rightarrow> string + string) \<Rightarrow> int \<Rightarrow> string \<Rightarrow> string \<Rightarrow> string tx" where
  "resolveSecretRefs decrypt orgID acc rest =
     (case str_index rest ''{{'' of
        None \<Rightarrow> ret (acc @ rest)
      | Some i \<Rightarrow>
          let acc1 = acc @ take i rest; rest1 = drop (i + 2) rest in
          (case str_index rest1 ''}}'' of
             None \<Rightarrow> ret (acc1 @ ''{{'' @ rest1)
           | Some j \<Rightarrow>
               let inner = trim_space (take j rest1); rest2 = drop (j + 2) rest1 in
               if \<not> has_prefix inner ''secret.'' then resolveSecretRefs decrypt orgID (acc1 @ ''{{'' @ inner @ ''}}'') rest2
               else
                 let name = trim_space (drop 7 inner) in
                 bnd (attempt (GetSecret orgID name)) (\<lambda>x.
                 case x of
                   Inl e \<Rightarrow> throw (if e = ErrNotFound then ErrInput (''secret '' @ name @ '' not found'') else e)
                 | Inr ct \<Rightarrow>
                     (case decrypt ct of
                        Inl err \<Rightarrow> throw (ErrInput (''decrypt secret '' @ name @ '': '' @ err))
                      | Inr plain \<Rightarrow> resolveSecretRefs decrypt orgID (acc1 @ plain) rest2))))"
  by pat_completeness auto
termination
  by (relation "measure (\<lambda>(_, _, _, rest). length rest)") (auto dest!: str_index_le)

declare resolveSecretRefs.simps [simp del]

fun resolve_config ::
  "(string \<Rightarrow> string + string) \<Rightarrow> int \<Rightarrow> (string \<times> 'v setting) list \<Rightarrow> (string \<times> 'v setting) list tx" where
  "resolve_config decrypt orgID [] = ret []"
| "resolve_config decrypt orgID ((k, v) # kvs) =
     bnd (case v of Text s \<Rightarrow> bnd (resolveSecretRefs decrypt orgID [] s) (\<lambda>out. ret (Text out)) | Other x \<Rightarrow> ret (Other x)) (\<lambda>v'.
     bnd (resolve_config decrypt orgID kvs) (\<lambda>rest. ret ((k, v') # rest)))"

definition kind_named :: "string \<Rightarrow> channel_kind" where
  "kind_named s = (if s = ''webhook'' then Webhook else OtherKind s)"

text \<open>The master key: what decrypts and what encrypts.\<close>

record master_key =
  mk_decrypt :: "string \<Rightarrow> string + string"
  mk_encrypt :: "string \<Rightarrow> string + string"

definition notify_CreateChannel :: "master_key \<Rightarrow> channel \<Rightarrow> string \<Rightarrow> int tx" where
  "notify_CreateChannel box ch cfg =
     (case mk_encrypt box cfg of Inl err \<Rightarrow> throw (ErrInput err) | Inr blob \<Rightarrow> CreateChannel ch blob)"

definition GetChannelDecrypted :: "master_key \<Rightarrow> int \<Rightarrow> int \<Rightarrow> (channel \<times> string) tx" where
  "GetChannelDecrypted box orgID i =
     bnd (GetChannel orgID i) (\<lambda>(ch, blob).
     case mk_decrypt box blob of Inl err \<Rightarrow> throw (ErrInput err) | Inr cfg \<Rightarrow> ret (ch, cfg))"

definition reconcileChannel ::
  "((string \<times> 'v setting) list \<Rightarrow> string + string) \<Rightarrow> master_key \<Rightarrow> int \<Rightarrow> 'v channel_spec \<Rightarrow> unit tx" where
  "reconcileChannel marshal box orgID c =
     bnd (resolve_config (mk_decrypt box) orgID (cs_config c)) (\<lambda>resolved.
     case marshal resolved of
       Inl err \<Rightarrow> throw (ErrInput err)
     | Inr configJSON \<Rightarrow>
         bnd (notify_CreateChannel box \<lparr>ch_id = 0, ch_org = orgID, ch_name = cs_name c, ch_kind = kind_named (cs_type c),
                 ch_config = None, ch_created = 0\<rparr> configJSON) (\<lambda>_. ret ()))"

fun sync_channels ::
  "((string \<times> 'v setting) list \<Rightarrow> string + string) \<Rightarrow> master_key \<Rightarrow> int \<Rightarrow> 'v channel_spec list \<Rightarrow> recon \<Rightarrow> recon tx" where
  "sync_channels marshal box orgID [] res = ret res"
| "sync_channels marshal box orgID (c # cs) res =
     bnd (reconcileChannel marshal box orgID c) (\<lambda>_.
     sync_channels marshal box orgID cs (res\<lparr>rc_channels := rc_channels res + 1\<rparr>))"

section \<open>Rules and heartbeats\<close>

definition sync_rule :: "int \<Rightarrow> int \<Rightarrow> int \<Rightarrow> duration option \<Rightarrow> string \<Rightarrow> unit tx" where
  "sync_rule orgID channelID jobID rep ev =
     bnd (CreateRule \<lparr>ru_id = 0, ru_org = orgID, ru_channel = channelID, ru_event = event_named ev, ru_job = jobID,
            ru_enabled = True, ru_repeat = None, ru_created = 0\<rparr> (if ev = ''run.failed'' then rep else None)) (\<lambda>_. ret ())"

definition rule_job :: "int \<Rightarrow> parsed_rule \<Rightarrow> int tx" where
  "rule_job orgID r =
     (if pr_job r = [] then ret 0
      else bnd (attempt (GetJobByName orgID (pr_job r))) (\<lambda>x.
        case x of
          Inl e \<Rightarrow> throw (if e = ErrNotFound then ErrInput (''rule references unknown job '' @ pr_job r) else e)
        | Inr j \<Rightarrow> ret (j_id j)))"

fun sync_rules :: "int \<Rightarrow> (string \<Rightarrow> int option) \<Rightarrow> parsed_rule list \<Rightarrow> nat \<Rightarrow> nat tx" where
  "sync_rules orgID byName [] n = ret n"
| "sync_rules orgID byName (r # rs) n =
     (case byName (pr_channel r) of
        None \<Rightarrow> throw (ErrInput (''rule references unknown channel '' @ pr_channel r))
      | Some channelID \<Rightarrow>
          bnd (rule_job orgID r) (\<lambda>jobID.
          bnd (for_each (pr_events r) (sync_rule orgID channelID jobID (pr_repeat r))) (\<lambda>_.
          sync_rules orgID byName rs (n + length (pr_events r)))))"

definition reconcileRules :: "int \<Rightarrow> parsed_rule list \<Rightarrow> nat tx" where
  "reconcileRules orgID rules =
     bnd (ListChannels orgID) (\<lambda>channels.
     if list_ex (\<lambda>r. list_ex (\<lambda>ev. ValidateRuleEvent ev \<noteq> None) (pr_events r)) rules
     then throw (ErrInput ''invalid event'')
     else sync_rules orgID (map_of (rev (map (\<lambda>ch. (ch_name ch, ch_id ch)) channels))) rules 0)"

fun sync_heartbeats :: "int \<Rightarrow> string option list \<Rightarrow> hb_spec list \<Rightarrow> recon \<Rightarrow> recon tx" where
  "sync_heartbeats orgID tokens [] res = ret res"
| "sync_heartbeats orgID tokens (h # hs) res =
     (case tokens of
        Some token # tokens' \<Rightarrow>
          bnd (CreateHeartbeat \<lparr>hb_id = 0, hb_org = orgID, hb_name = hs_name h, hb_token = token, hb_last_seen = 0,
                 hb_period = hs_period h, hb_grace = hs_grace h, hb_status = HbNew, hb_created = 0, hb_started = 0,
                 hb_rid = []\<rparr>) (\<lambda>_.
          sync_heartbeats orgID tokens' hs (res\<lparr>rc_heartbeats := rc_heartbeats res + 1\<rparr>))
      | _ \<Rightarrow> throw (ErrInput ''generate token''))"

definition Reconcile ::
  "cron_parser \<Rightarrow> ((string \<times> 'v setting) list \<Rightarrow> string + string) \<Rightarrow> master_key option \<Rightarrow> string option list
   \<Rightarrow> int \<Rightarrow> 'v config_file \<Rightarrow> bool \<Rightarrow> recon tx" where
  "Reconcile parse marshal box tokens orgID cfg prune =
     bnd (reconcileJobs parse orgID (cfg_jobs cfg) prune empty_recon) (\<lambda>res.
     bnd (case box of
            None \<Rightarrow> if cfg_channels cfg \<noteq> [] then throw (ErrInput ''no master key'') else ret res
          | Some b \<Rightarrow> sync_channels marshal b orgID (cfg_channels cfg) res) (\<lambda>res.
     bnd (if cfg_rules cfg = [] then ret 0 else reconcileRules orgID (cfg_rules cfg)) (\<lambda>n.
     sync_heartbeats orgID tokens (cfg_heartbeats cfg) (res\<lparr>rc_rules := rc_rules res + n\<rparr>))))"

end
