(* ===== verification/Config_Laws.thy ===== *)
theory Config_Laws
  imports Config_Sync
begin

text \<open>
  What applying a file does to the store: it only adds and updates rows of its organisation,
  however it ends, and when it succeeds the file's jobs are in the store.
\<close>

section \<open>Only additions and updates\<close>

text \<open>A table whose rows were each kept, as \<open>K\<close> says, and to which rows were added.\<close>

definition grown :: "('a \<Rightarrow> 'a \<Rightarrow> bool) \<Rightarrow> ('a \<Rightarrow> bool) \<Rightarrow> 'a list \<Rightarrow> 'a list \<Rightarrow> bool" where
  "grown K N xs ys \<longleftrightarrow> (\<exists>us vs. ys = us @ vs \<and> list_all2 K xs us \<and> list_all N vs)"

lemma grown_refl: "(\<And>x. K x x) \<Longrightarrow> grown K N xs xs"
  unfolding grown_def by (rule exI [of _ xs], rule exI [of _ "[]"]) (simp add: list_all2_refl)

lemma grown_trans:
  assumes "\<And>x y z. K x y \<Longrightarrow> K y z \<Longrightarrow> K x z" "\<And>x y. N x \<Longrightarrow> K x y \<Longrightarrow> N y"
    and "grown K N xs ys" "grown K N ys zs"
  shows "grown K N xs zs"
proof -
  obtain us vs where 1: "ys = us @ vs" "list_all2 K xs us" "list_all N vs" using assms(3) by (auto simp: grown_def)
  obtain us' vs' where 2: "zs = us' @ vs'" "list_all2 K ys us'" "list_all N vs'" using assms(4) by (auto simp: grown_def)
  obtain a b where ab: "us' = a @ b" "list_all2 K us a" "list_all2 K vs b" using 2(2) 1(1) by (auto simp: list_all2_append1)
  have "list_all2 K xs a" by (rule list_all2_trans [OF assms(1) 1(2) ab(2)])
  moreover have "list_all N b" using 1(3) ab(3) assms(2) by (auto simp: list_all_length list_all2_conv_all_nth)
  ultimately show ?thesis using 2 ab unfolding grown_def by (intro exI [of _ a] exI [of _ "b @ vs'"]) simp
qed

lemma grown_map: "(\<And>x. K x (f x)) \<Longrightarrow> grown K N xs (map f xs)"
  unfolding grown_def by (rule exI [of _ "map f xs"], rule exI [of _ "[]"]) (simp add: list_all2_conv_all_nth)

lemma grown_snoc: "(\<And>x. K x x) \<Longrightarrow> N x \<Longrightarrow> grown K N xs (xs @ [x])"
  unfolding grown_def by (rule exI [of _ xs], rule exI [of _ "[x]"]) (simp add: list_all2_refl)

definition job_kept :: "int \<Rightarrow> job_row \<Rightarrow> job_row \<Rightarrow> bool" where
  "job_kept orgID r r' \<longleftrightarrow>
     j_id (jr_job r') = j_id (jr_job r) \<and> j_org (jr_job r') = j_org (jr_job r) \<and> j_created (jr_job r') = j_created (jr_job r)
     \<and> jr_failed_runs r' = jr_failed_runs r \<and> jr_failing_since r' = jr_failing_since r
     \<and> (j_org (jr_job r) \<noteq> orgID \<longrightarrow> r' = r)"

definition channel_kept :: "int \<Rightarrow> channel \<Rightarrow> channel \<Rightarrow> bool" where
  "channel_kept orgID c c' \<longleftrightarrow> c'\<lparr>ch_kind := ch_kind c, ch_config := ch_config c\<rparr> = c \<and> (ch_org c \<noteq> orgID \<longrightarrow> c' = c)"

definition rule_kept :: "int \<Rightarrow> rule \<Rightarrow> rule \<Rightarrow> bool" where
  "rule_kept orgID r r' \<longleftrightarrow> r'\<lparr>ru_enabled := ru_enabled r, ru_repeat := ru_repeat r\<rparr> = r \<and> (ru_org r \<noteq> orgID \<longrightarrow> r' = r)"

definition hb_kept :: "int \<Rightarrow> hb_row \<Rightarrow> hb_row \<Rightarrow> bool" where
  "hb_kept orgID r r' \<longleftrightarrow> r'\<lparr>hr_period := hr_period r, hr_grace := hr_grace r\<rparr> = r \<and> (hr_org r \<noteq> orgID \<longrightarrow> r' = r)"

definition upserts :: "int \<Rightarrow> db \<Rightarrow> db \<Rightarrow> bool" where
  "upserts orgID d d' \<longleftrightarrow>
     grown (job_kept orgID) (\<lambda>r. j_org (jr_job r) = orgID) (t_jobs d) (t_jobs d')
     \<and> grown (channel_kept orgID) (\<lambda>c. ch_org c = orgID) (t_channels d) (t_channels d')
     \<and> grown (rule_kept orgID) (\<lambda>r. ru_org r = orgID) (t_rules d) (t_rules d')
     \<and> grown (hb_kept orgID) (\<lambda>r. hr_org r = orgID) (t_hbs d) (t_hbs d')
     \<and> t_runs d' = t_runs d \<and> t_events d' = t_events d \<and> t_deliveries d' = t_deliveries d
     \<and> t_alerts d' = t_alerts d \<and> t_pings d' = t_pings d \<and> t_accounts d' = t_accounts d"

lemma kept_refl [simp]: "job_kept o1 r1 r1" "channel_kept o1 c c" "rule_kept o1 r2 r2" "hb_kept o1 r3 r3"
  by (simp_all add: job_kept_def channel_kept_def rule_kept_def hb_kept_def)

lemma kept_trans:
  "job_kept o1 a b \<Longrightarrow> job_kept o1 b c \<Longrightarrow> job_kept o1 a c"
  "channel_kept o1 a2 b2 \<Longrightarrow> channel_kept o1 b2 c2 \<Longrightarrow> channel_kept o1 a2 c2"
  "rule_kept o1 a3 b3 \<Longrightarrow> rule_kept o1 b3 c3 \<Longrightarrow> rule_kept o1 a3 c3"
  "hb_kept o1 a4 b4 \<Longrightarrow> hb_kept o1 b4 c4 \<Longrightarrow> hb_kept o1 a4 c4"
  by (auto simp: job_kept_def)
    ((cases a2, cases b2, cases c2, auto simp: channel_kept_def),
     (cases a3, cases b3, cases c3, auto simp: rule_kept_def), (cases a4, cases b4, cases c4, auto simp: hb_kept_def))

lemma upserts_refl [simp]: "upserts orgID d d"
  by (simp add: upserts_def grown_refl)

lemma kept_org:
  "j_org (jr_job r1) = o1 \<Longrightarrow> job_kept o1 r1 r1' \<Longrightarrow> j_org (jr_job r1') = o1"
  "ch_org c = o1 \<Longrightarrow> channel_kept o1 c c' \<Longrightarrow> ch_org c' = o1"
  "ru_org r2 = o1 \<Longrightarrow> rule_kept o1 r2 r2' \<Longrightarrow> ru_org r2' = o1"
  "hr_org r3 = o1 \<Longrightarrow> hb_kept o1 r3 r3' \<Longrightarrow> hr_org r3' = o1"
  by (auto simp: job_kept_def)
    ((cases c, cases c', auto simp: channel_kept_def),
     (cases r2, cases r2', auto simp: rule_kept_def), (cases r3, cases r3', auto simp: hb_kept_def))

lemma grown_job:
  "grown (job_kept o1) (\<lambda>r. j_org (jr_job r) = o1) xs ys \<Longrightarrow> grown (job_kept o1) (\<lambda>r. j_org (jr_job r) = o1) ys zs \<Longrightarrow> grown (job_kept o1) (\<lambda>r. j_org (jr_job r) = o1) xs zs"
  by (rule grown_trans [OF _ _ _ _, rotated 2], assumption+, (erule (1) kept_trans kept_org)+)

lemma grown_channel:
  "grown (channel_kept o1) (\<lambda>c. ch_org c = o1) xs ys \<Longrightarrow> grown (channel_kept o1) (\<lambda>c. ch_org c = o1) ys zs \<Longrightarrow> grown (channel_kept o1) (\<lambda>c. ch_org c = o1) xs zs"
  by (rule grown_trans [OF _ _ _ _, rotated 2], assumption+, (erule (1) kept_trans kept_org)+)

lemma grown_rule:
  "grown (rule_kept o1) (\<lambda>r. ru_org r = o1) xs ys \<Longrightarrow> grown (rule_kept o1) (\<lambda>r. ru_org r = o1) ys zs \<Longrightarrow> grown (rule_kept o1) (\<lambda>r. ru_org r = o1) xs zs"
  by (rule grown_trans [OF _ _ _ _, rotated 2], assumption+, (erule (1) kept_trans kept_org)+)

lemma grown_hb:
  "grown (hb_kept o1) (\<lambda>r. hr_org r = o1) xs ys \<Longrightarrow> grown (hb_kept o1) (\<lambda>r. hr_org r = o1) ys zs \<Longrightarrow> grown (hb_kept o1) (\<lambda>r. hr_org r = o1) xs zs"
  by (rule grown_trans [OF _ _ _ _, rotated 2], assumption+, (erule (1) kept_trans kept_org)+)

lemma upserts_trans: "upserts orgID d d' \<Longrightarrow> upserts orgID d' d'' \<Longrightarrow> upserts orgID d d''"
  unfolding upserts_def by (auto intro: grown_job grown_channel grown_rule grown_hb)

text \<open>Statements that keep the relation, and operations built from them.\<close>

lemma keeps_upsert: "(\<And>d. upserts orgID d (snd (f d))) \<Longrightarrow> keeps (upserts orgID d0) (auto_stmt f)"
  by (rule keeps_auto_stmt) (rule upserts_trans)

lemma upserts_jobs: "upserts orgID d (set_job_rows orgID i (update_job_row j now) d)"
  by (auto simp: upserts_def set_job_rows_def update_job_row_def grown_refl intro!: grown_map simp: job_kept_def)

lemma keeps_UpdateJob: "j_org j = orgID \<Longrightarrow> keeps (upserts orgID d0) (UpdateJob j)"
  unfolding UpdateJob_def
  by (intro tx_rules keeps_upsert) (auto simp: upserts_jobs)

lemma keeps_CreateJob: "j_org j = orgID \<Longrightarrow> keeps (upserts orgID d0) (CreateJob j)"
  unfolding CreateJob_def
  by (intro tx_rules keeps_upsert) (auto simp: upserts_def grown_refl grown_snoc)

lemma keeps_CreateChannel: "ch_org ch = orgID \<Longrightarrow> keeps (upserts orgID d0) (CreateChannel ch blob)"
  unfolding CreateChannel_def
  by (intro tx_rules keeps_upsert)
    (auto simp: upserts_def grown_refl grown_snoc channel_kept_def same_channel_def intro!: grown_map split: option.splits)

lemma keeps_CreateRule: "ru_org r = orgID \<Longrightarrow> keeps (upserts orgID d0) (CreateRule r rep)"
  unfolding CreateRule_def
  by (intro tx_rules keeps_upsert)
    (auto simp: upserts_def grown_refl grown_snoc rule_kept_def same_rule_def intro!: grown_map split: option.splits)

lemma keeps_CreateHeartbeat: "hb_org h = orgID \<Longrightarrow> keeps (upserts orgID d0) (CreateHeartbeat h)"
  unfolding CreateHeartbeat_def
  by (intro tx_rules keeps_upsert)
    (auto simp: upserts_def grown_refl grown_snoc hb_kept_def same_name_def set_hb_rows_def add_hb_def new_hb_row_def
      intro!: grown_map split: option.splits)

lemma keeps_bnd_yields:
  "keeps I m \<Longrightarrow> triple (\<lambda>_. True) m (\<lambda>a _. Q a) \<Longrightarrow> (\<And>a. Q a \<Longrightarrow> keeps I (f a)) \<Longrightarrow> keeps I (bnd m f)"
  by (rule keeps_bnd_dep [where R = "\<lambda>a _. Q a"]) (auto simp: triple_def keeps_def)

lemma triple_attempt: "triple P m (\<lambda>a _. Q a) \<Longrightarrow> triple P (attempt m) (\<lambda>x _. \<forall>a. x = Inr a \<longrightarrow> Q a)"
  by (simp add: triple_def attempt_def split: prod.splits) blast

lemma scanJob_org: "scanJob r = Inr j \<Longrightarrow> j_org j = j_org (jr_job r) \<and> j_id j = j_id (jr_job r) \<and> j_name j = j_name (jr_job r)"
  by (auto simp: scanJob_def Let_def split: if_splits)

lemma GetJobByName_org: "triple P (GetJobByName orgID name) (\<lambda>j _. j_org j = orgID)"
  unfolding GetJobByName_def
  by (rule tripleI)
    (auto simp: bnd_def query_def stmt_def ret_def throw_def find_Some_iff dest!: scanJob_org
      split: prod.splits sum.splits fault.splits option.splits)

lemma ListJobs_org: "triple P (ListJobs orgID) (\<lambda>x _. \<forall>j \<in> set (fst x). j_org j = orgID)"
  unfolding ListJobs_def
  by (rule triple_query) (auto simp: scanJobs_def List.map_filter_def split: sum.splits option.splits dest!: scanJob_org)

lemma keeps_sync_reads:
  "keeps I (GetJobByName orgID name)" "keeps I (ListJobs orgID)" "keeps I (ListChannels orgID)" "keeps I (GetSecret orgID name)"
  unfolding GetJobByName_def ListJobs_def ListChannels_def GetSecret_def get_accounts_def or_not_found_def
  by (intro tx_rules)+

lemma keeps_resolve: "keeps I (resolveSecretRefs decrypt orgID acc rest)"
proof (induction rest arbitrary: acc rule: measure_induct_rule [of length])
  case (less rest)
  show ?case
    by (subst resolveSecretRefs.simps, unfold Let_def)
      (intro tx_rules keeps_sync_reads less; auto dest!: str_index_le)
qed

lemma keeps_resolve_config: "keeps I (resolve_config decrypt orgID kvs)"
  by (induction kvs rule: resolve_config.induct) (auto intro!: tx_rules keeps_resolve split: setting.split)

lemma keeps_sync_job: "keeps (upserts orgID d0) (sync_job parse orgID now j res)"
  unfolding sync_job_def Let_def
  by (rule keeps_bnd_yields [OF _ triple_attempt [OF GetJobByName_org]])
    (auto intro!: tx_rules keeps_sync_reads keeps_UpdateJob keeps_CreateJob simp: sync_found_def Let_def split: sum.split store_error.split)

lemma keeps_sync_jobs: "keeps (upserts orgID d0) (sync_jobs parse orgID now js res)"
  by (induction js arbitrary: res) (auto intro!: tx_rules keeps_sync_job)

lemma keeps_disable: "\<forall>j \<in> set ejs. j_org j = orgID \<Longrightarrow> keeps (upserts orgID d0) (disable_jobs names ejs res)"
  by (induction ejs arbitrary: res) (auto intro!: tx_rules keeps_UpdateJob)

lemma keeps_reconcileJobs: "keeps (upserts orgID d0) (reconcileJobs parse orgID js prune res)"
  unfolding reconcileJobs_def
  by (rule keeps_bnd [OF keeps_time_now], rule keeps_bnd_yields [OF keeps_sync_reads(2) ListJobs_org])
    (auto intro!: tx_rules keeps_sync_jobs keeps_disable)

lemma keeps_sync_channels: "keeps (upserts orgID d0) (sync_channels marshal box orgID cs res)"
  by (induction cs arbitrary: res)
    (auto intro!: tx_rules keeps_resolve_config keeps_CreateChannel simp: reconcileChannel_def notify_CreateChannel_def)

lemma keeps_sync_rules: "keeps (upserts orgID d0) (sync_rules orgID byName rs n)"
  by (induction rs arbitrary: n)
    (auto intro!: tx_rules keeps_sync_reads keeps_CreateRule simp: rule_job_def sync_rule_def split: option.split)

lemma keeps_sync_heartbeats: "keeps (upserts orgID d0) (sync_heartbeats orgID tokens hs res)"
  by (induction hs arbitrary: tokens res) (auto intro!: tx_rules keeps_CreateHeartbeat split: list.split option.split)

text \<open>
  C19: Applying a file only adds rows to the organisation's jobs, channels, rules and heartbeats
  and changes rows it has, which keep their ids, their failure streak and, for heartbeats,
  their token, status and times; it never removes a row, and it touches no run, event, alert,
  delivery, ping or account and nothing of another organisation. This holds on every error and
  under every fault.
\<close>

theorem reconcile_only_upserts:
  "upserts orgID d (fst (snd (Reconcile parse marshal box tokens orgID cfg prune d w)))"
proof -
  have "keeps (upserts orgID d) (Reconcile parse marshal box tokens orgID cfg prune)"
    unfolding Reconcile_def reconcileRules_def
    by (intro tx_rules keeps_reconcileJobs keeps_sync_channels keeps_sync_rules keeps_sync_reads keeps_sync_heartbeats)
  then show ?thesis by (simp add: keeps_def)
qed

section \<open>The file's jobs\<close>

text \<open>Job ids are unique and below the next one.\<close>

definition jobs_wf :: "db \<Rightarrow> bool" where
  "jobs_wf d \<longleftrightarrow> distinct (map (\<lambda>r. j_id (jr_job r)) (t_jobs d)) \<and> (\<forall>r \<in> set (t_jobs d). j_id (jr_job r) < n_jobs d)"

text \<open>A row that holds the definition of \<open>j\<close>, and a table that has one.\<close>

definition stored_as :: "int \<Rightarrow> job \<Rightarrow> job_row \<Rightarrow> bool" where
  "stored_as orgID j r \<longleftrightarrow>
     \<not> jr_unreadable r
     \<and> jr_job r = j\<lparr>j_id := j_id (jr_job r), j_org := orgID, j_command := storedCommand j, j_next_run := j_next_run (jr_job r),
                   j_created := j_created (jr_job r), j_updated := j_updated (jr_job r)\<rparr>"

definition applied :: "int \<Rightarrow> job \<Rightarrow> db \<Rightarrow> bool" where
  "applied orgID j d \<longleftrightarrow> list_ex (stored_as orgID j) (t_jobs d)"

definition pruned :: "int \<Rightarrow> string list \<Rightarrow> db \<Rightarrow> bool" where
  "pruned orgID names d \<longleftrightarrow>
     list_all (\<lambda>r. j_org (jr_job r) = orgID \<and> j_name (jr_job r) \<notin> set names \<longrightarrow> jr_unreadable r \<or> \<not> j_enabled (jr_job r)) (t_jobs d)"

text \<open>
  Where the two loops are: the jobs in \<open>K\<close> are stored, the jobs in \<open>ejs\<close> still have their
  rows, and every enabled job that is not in the file is among them.
\<close>

definition names_row :: "int \<Rightarrow> job \<Rightarrow> job_row \<Rightarrow> bool" where
  "names_row orgID j r \<longleftrightarrow> j_id (jr_job r) = j_id j \<and> j_org (jr_job r) = orgID \<and> j_name (jr_job r) = j_name j"

definition progress :: "int \<Rightarrow> string list \<Rightarrow> job list \<Rightarrow> job list \<Rightarrow> db \<Rightarrow> bool" where
  "progress orgID names K ejs d \<longleftrightarrow>
     jobs_wf d \<and> (\<forall>k \<in> set K. applied orgID k d)
     \<and> (\<forall>e \<in> set ejs. j_org e = orgID \<and> (\<exists>r \<in> set (t_jobs d). names_row orgID e r))
     \<and> (\<forall>r \<in> set (t_jobs d). j_org (jr_job r) = orgID \<and> j_name (jr_job r) \<notin> set names \<and> \<not> jr_unreadable r \<and> j_enabled (jr_job r)
          \<longrightarrow> (\<exists>e \<in> set ejs. j_id e = j_id (jr_job r) \<and> j_enabled e))"

lemma stored_as_name:
  assumes "stored_as orgID j r"
  shows "j_name (jr_job r) = j_name j" "j_org (jr_job r) = orgID"
proof -
  note e = assms [unfolded stored_as_def, THEN conjunct2]
  show "j_name (jr_job r) = j_name j" "j_org (jr_job r) = orgID"
    using arg_cong [OF e, of j_name] arg_cong [OF e, of j_org] by simp_all
qed

lemma same_id: "jobs_wf d \<Longrightarrow> r \<in> set (t_jobs d) \<Longrightarrow> r' \<in> set (t_jobs d) \<Longrightarrow> j_id (jr_job r) = j_id (jr_job r') \<Longrightarrow> r = r'"
  by (auto simp: jobs_wf_def distinct_map inj_on_def)

lemma update_keeps_row: "j_name (jr_job r) = j_name j \<Longrightarrow> names_row orgID e (update_job_row j now r) = names_row orgID e r"
  by (simp add: names_row_def update_job_row_def)

lemma progress_update:
  assumes p: "progress orgID names K ejs d" and r0: "r0 \<in> set (t_jobs d)" "names_row orgID j r0"
    and fresh: "j_name j \<notin> j_name ` set K" and out: "j_name j \<in> set names \<or> \<not> j_enabled j"
  shows "progress orgID names K ejs (set_job_rows orgID (j_id j) (update_job_row j now) d)"
    "update_job_row j now r0 \<in> set (t_jobs (set_job_rows orgID (j_id j) (update_job_row j now) d))"
proof -
  let ?f = "\<lambda>r. if j_org (jr_job r) = orgID \<and> j_id (jr_job r) = j_id j then update_job_row j now r else r"
  let ?d = "set_job_rows orgID (j_id j) (update_job_row j now) d"
  have t: "t_jobs ?d = map ?f (t_jobs d)" "n_jobs ?d = n_jobs d" by (simp_all add: set_job_rows_def)
  have wf: "jobs_wf d" using p by (simp add: progress_def)
  have id: "j_id (jr_job (?f r)) = j_id (jr_job r)" for r by (simp add: update_job_row_def)
  have wf': "jobs_wf ?d"
    using wf unfolding jobs_wf_def t by (auto simp: comp_def id update_job_row_def)
  have other: "?f r = r" if "r \<in> set (t_jobs d)" "r \<noteq> r0" for r
    using same_id [OF wf that(1) r0(1)] that(2) r0(2) by (auto simp: names_row_def)
  have it: "?f r0 = update_job_row j now r0" using r0(2) by (simp add: names_row_def)
  have "applied orgID k ?d" if k: "k \<in> set K" for k
  proof -
    obtain r where r: "r \<in> set (t_jobs d)" "stored_as orgID k r"
      using p k by (auto simp: progress_def applied_def list_ex_iff)
    then have "r \<noteq> r0" using stored_as_name [OF r(2)] fresh k r0(2) by (auto simp: names_row_def)
    with other r show ?thesis by (force simp: applied_def list_ex_iff t)
  qed
  moreover have "\<exists>r \<in> set (t_jobs ?d). names_row orgID e r" if e: "e \<in> set ejs" for e
  proof -
    obtain r where r: "r \<in> set (t_jobs d)" "names_row orgID e r" using p e by (auto simp: progress_def)
    have "names_row orgID e (?f r)"
    proof (cases "r = r0")
      case True
      with r it show ?thesis using update_keeps_row [of r0 j orgID e now] r0(2) by (simp add: names_row_def)
    next
      case False
      with r other show ?thesis by simp
    qed
    with r(1) show ?thesis unfolding t set_map by (intro bexI [of _ "?f r"]) simp_all
  qed
  moreover have "\<exists>e \<in> set ejs. j_id e = j_id (jr_job r) \<and> j_enabled e"
    if r: "r \<in> set (t_jobs ?d)" "j_org (jr_job r) = orgID" "j_name (jr_job r) \<notin> set names" "\<not> jr_unreadable r" "j_enabled (jr_job r)" for r
  proof -
    obtain x where x: "x \<in> set (t_jobs d)" "r = ?f x" using r(1) unfolding t by auto
    have "x \<noteq> r0" using r out it x(2) by (auto simp: update_job_row_def)
    then have "r = x" using other x by simp
    with p r x(1) show ?thesis unfolding progress_def by blast
  qed
  ultimately show "progress orgID names K ejs ?d"
    using wf' p unfolding progress_def by blast
  show "update_job_row j now r0 \<in> set (t_jobs ?d)" unfolding t using imageI [OF r0(1), of ?f] it by simp
qed

lemma UpdateJob_triple:
  "(\<And>d now. P d \<Longrightarrow> Q (set_job_rows (j_org j) (j_id j) (update_job_row j now) d)) \<Longrightarrow> triple P (UpdateJob j) (\<lambda>_. Q)"
  unfolding UpdateJob_def
  by (rule tripleI)
    (auto simp: bnd_def time_now_def auto_stmt_def ret_def throw_def Let_def
      split: prod.splits sum.splits fault.splits list.splits if_splits)

definition new_job_row :: "job \<Rightarrow> int \<Rightarrow> gotime \<Rightarrow> job_row" where
  "new_job_row j i now =
     \<lparr>jr_job = j\<lparr>j_id := i, j_command := storedCommand j, j_created := now, j_updated := now\<rparr>,
      jr_failed_runs = 0, jr_failing_since = None, jr_unreadable = False\<rparr>"

lemma CreateJob_triple:
  "(\<And>d now. P d \<Longrightarrow> Q (d\<lparr>t_jobs := t_jobs d @ [new_job_row j (n_jobs d) now], n_jobs := n_jobs d + 1\<rparr>)) \<Longrightarrow>
   triple P (CreateJob j) (\<lambda>_. Q)"
  unfolding CreateJob_def new_job_row_def
  by (rule tripleI)
    (auto simp: bnd_def time_now_def auto_stmt_def ret_def throw_def Let_def
      split: prod.splits sum.splits fault.splits list.splits if_splits option.splits)

text \<open>What looking a job up by its name tells.\<close>

definition found :: "int \<Rightarrow> string \<Rightarrow> store_error + job \<Rightarrow> db \<Rightarrow> bool" where
  "found orgID name x d \<longleftrightarrow>
     (case x of
        Inr e \<Rightarrow> j_org e = orgID \<and> j_name e = name \<and> (\<exists>r \<in> set (t_jobs d). names_row orgID e r)
      | Inl (ErrUnreadable i) \<Rightarrow> (\<exists>r \<in> set (t_jobs d). j_id (jr_job r) = i \<and> j_org (jr_job r) = orgID \<and> j_name (jr_job r) = name)
      | Inl _ \<Rightarrow> True)"

lemma find_by_name: "triple P (attempt (GetJobByName orgID name)) (\<lambda>x d. P d \<and> found orgID name x d)"
proof (rule tripleI)
  fix d w x d' w'
  assume "P d" and g: "attempt (GetJobByName orgID name) d w = (Inr x, d', w')"
  let ?row = "List.find (\<lambda>r. j_org (jr_job r) = orgID \<and> j_name (jr_job r) = name) (t_jobs d)"
  have d': "d' = d" and "x = Inl DbError \<or> x = Inl ErrNotFound \<or> (\<exists>r. ?row = Some r \<and> x = scanJob r)"
    using g by (auto simp: attempt_def GetJobByName_def bnd_def query_def stmt_def ret_def throw_def
        split: prod.splits fault.splits option.splits sum.splits)
  moreover have "found orgID name (scanJob r) d" if "?row = Some r" for r
    using that by (auto simp: found_def names_row_def scanJob_def Let_def find_Some_iff split: if_splits)
  ultimately show "P d' \<and> found orgID name x d'" using \<open>P d\<close> by (auto simp: found_def)
qed

lemma stored_update:
  "j_name (jr_job r) = j_name j' \<Longrightarrow> j_org (jr_job r) = orgID \<Longrightarrow>
   j' = j\<lparr>j_id := j_id j', j_org := j_org j', j_next_run := j_next_run j', j_created := j_created j'\<rparr> \<Longrightarrow>
   stored_as orgID j (update_job_row j' now r)"
  by (cases j, cases j') (simp add: stored_as_def update_job_row_def storedCommand_def)

lemma sync_update:
  assumes "j_org j' = orgID" "j' = j\<lparr>j_id := j_id j', j_org := j_org j', j_next_run := j_next_run j', j_created := j_created j'\<rparr>"
    and "j_name j \<notin> j_name ` set K" "j_name j \<in> set names"
  shows "triple (\<lambda>d. progress orgID names K ejs d \<and> (\<exists>r \<in> set (t_jobs d). names_row orgID j' r))
    (UpdateJob j') (\<lambda>_. progress orgID names (j # K) ejs)"
proof (rule UpdateJob_triple, elim conjE bexE)
  fix d now r
  assume p: "progress orgID names K ejs d" "r \<in> set (t_jobs d)" "names_row orgID j' r"
  have n: "j_name j' = j_name j" using arg_cong [OF assms(2), of j_name] by simp
  have "stored_as orgID j (update_job_row j' now r)"
    using p(3) assms(2) by (intro stored_update) (auto simp: names_row_def)
  with progress_update [OF p, of now] assms n
  show "progress orgID names (j # K) ejs (set_job_rows (j_org j') (j_id j') (update_job_row j' now) d)"
    by (auto simp: progress_def applied_def list_ex_iff)
qed

lemma sync_create:
  assumes "j_name j \<in> set names"
  shows "triple (progress orgID names K ejs) (CreateJob (j\<lparr>j_org := orgID, j_next_run := t\<rparr>)) (\<lambda>_. progress orgID names (j # K) ejs)"
  by (rule CreateJob_triple)
    (use assms in \<open>fastforce simp: progress_def jobs_wf_def applied_def stored_as_def new_job_row_def storedCommand_def\<close>)

lemma sync_job_progress:
  assumes "j_name j \<notin> j_name ` set K" "j_name j \<in> set names"
  shows "triple (progress orgID names K ejs) (sync_job parse orgID now j res) (\<lambda>_. progress orgID names (j # K) ejs)"
  unfolding sync_job_def Let_def
proof (rule triple_bnd [where R = "\<lambda>x d. progress orgID names K ejs d \<and> found orgID (j_name j) x d"])
  show "triple (progress orgID names K ejs) (attempt (GetJobByName orgID (j_name (j\<lparr>j_org := orgID\<rparr>))))
    (\<lambda>x d. progress orgID names K ejs d \<and> found orgID (j_name j) x d)"
    using find_by_name by simp
  have upd: "triple P (bnd (UpdateJob j') (\<lambda>_. ret y)) (\<lambda>_. progress orgID names (j # K) ejs)"
    if "j_org j' = orgID" "j' = j\<lparr>j_id := j_id j', j_org := j_org j', j_next_run := j_next_run j', j_created := j_created j'\<rparr>"
      "\<And>d. P d \<Longrightarrow> progress orgID names K ejs d \<and> (\<exists>r \<in> set (t_jobs d). names_row orgID j' r)" for P j' y
    by (rule triple_bnd [OF _ triple_ret], rule triple_conseq [OF sync_update [OF that(1,2) assms] that(3)]) simp_all
  have new: "triple P (bnd (CreateJob (j\<lparr>j_org := orgID, j_next_run := t\<rparr>)) (\<lambda>_. ret y)) (\<lambda>_. progress orgID names (j # K) ejs)"
    if "\<And>d. P d \<Longrightarrow> progress orgID names K ejs d" for P t y
    by (rule triple_bnd [OF _ triple_ret], rule triple_conseq [OF sync_create [OF assms(2)] that]) simp_all
  fix x
  show "triple (\<lambda>d. progress orgID names K ejs d \<and> found orgID (j_name j) x d)
     (case x of
        Inl e \<Rightarrow>
          (case e of
             ErrUnreadable i \<Rightarrow>
               bnd (UpdateJob (j\<lparr>j_org := orgID, j_id := i, j_next_run := mustNextRun parse (j\<lparr>j_org := orgID, j_id := i\<rparr>) now\<rparr>))
                 (\<lambda>_. ret (updated res))
           | ErrNotFound \<Rightarrow>
               bnd (CreateJob (j\<lparr>j_org := orgID, j_next_run := mustNextRun parse (j\<lparr>j_org := orgID\<rparr>) now\<rparr>)) (\<lambda>_.
               ret (res\<lparr>rc_created := rc_created res + 1\<rparr>))
           | _ \<Rightarrow> throw e)
      | Inr existing \<Rightarrow> bnd (UpdateJob (sync_found parse now existing (j\<lparr>j_org := orgID\<rparr>))) (\<lambda>_. ret (updated res)))
     (\<lambda>_. progress orgID names (j # K) ejs)"
  proof (cases x)
    case (Inl e)
    then show ?thesis
      by (cases e) (auto intro!: upd new triple_throw simp: found_def names_row_def)
  next
    case (Inr existing)
    show ?thesis
    proof (cases "j_org existing = orgID \<and> j_name existing = j_name j")
      case True
      then show ?thesis unfolding Inr sum.case
        by (intro upd) (auto simp: found_def names_row_def sync_found_def Let_def)
    qed (use Inr in \<open>auto simp: found_def triple_def\<close>)
  qed
qed

lemma sync_jobs_progress:
  assumes "distinct (map j_name (rev K @ js))" "j_name ` set js \<subseteq> set names"
  shows "triple (progress orgID names K ejs) (sync_jobs parse orgID now js res) (\<lambda>_. progress orgID names (rev js @ K) ejs)"
  using assms
proof (induction js arbitrary: K res)
  case (Cons j js)
  have "triple (progress orgID names K ejs) (sync_job parse orgID now j res) (\<lambda>_. progress orgID names (j # K) ejs)"
    using Cons.prems by (intro sync_job_progress) auto
  from triple_bnd [OF this Cons.IH] Cons.prems show ?case by simp
qed (auto intro: triple_ret)

lemma disable_progress:
  assumes "j_name ` set K \<subseteq> set names"
  shows "triple (progress orgID names K ejs) (disable_jobs names ejs res) (\<lambda>_. progress orgID names K [])"
proof (induction ejs arbitrary: res)
  case Nil
  show ?case by (simp add: triple_ret)
next
  case (Cons e ejs)
  have skip: "progress orgID names K ejs d"
    if s: "progress orgID names K (e # ejs) d" "j_name e \<in> set names \<or> \<not> j_enabled e" for d
  proof -
    obtain r where r: "r \<in> set (t_jobs d)" "names_row orgID e r" using s(1) by (auto simp: progress_def)
    have "j_id e \<noteq> j_id (jr_job x)" if "x \<in> set (t_jobs d)" "j_name (jr_job x) \<noteq> j_name e" for x
      using same_id [of d x r] that r \<open>progress orgID names K (e # ejs) d\<close> by (auto simp: progress_def names_row_def)
    with s show ?thesis unfolding progress_def by (metis list.set_intros(2) set_ConsD)
  qed
  show ?case
  proof (cases "j_name e \<in> set names \<or> \<not> j_enabled e")
    case True
    with triple_conseq [OF Cons.IH skip] show ?thesis by simp
  next
    case False
    let ?e = "e\<lparr>j_enabled := False\<rparr>"
    have "triple (progress orgID names K (e # ejs)) (UpdateJob ?e) (\<lambda>_. progress orgID names K ejs)"
    proof (rule UpdateJob_triple)
      fix d now
      assume p: "progress orgID names K (e # ejs) d"
      then obtain r where r: "r \<in> set (t_jobs d)" "names_row orgID ?e r" and o: "j_org e = orgID"
        by (auto simp: progress_def names_row_def)
      let ?d = "set_job_rows orgID (j_id ?e) (update_job_row ?e now) d"
      have "progress orgID names K (e # ejs) ?d" "update_job_row ?e now r \<in> set (t_jobs ?d)"
        by (rule progress_update [OF p r]; use False assms in auto)+
      moreover have "j_id (jr_job (update_job_row ?e now r)) = j_id e" "\<not> j_enabled (jr_job (update_job_row ?e now r))"
        using r(2) by (simp_all add: update_job_row_def names_row_def)
      ultimately have "progress orgID names K ejs ?d"
        using same_id [of ?d _ "update_job_row ?e now r"] unfolding progress_def by (metis list.set_intros(2) set_ConsD)
      with o show "progress orgID names K ejs (set_job_rows (j_org ?e) (j_id ?e) (update_job_row ?e now) d)" by simp
    qed
    from triple_bnd [OF this Cons.IH] False show ?thesis by simp
  qed
qed

lemma listed_progress: "triple jobs_wf (ListJobs orgID) (\<lambda>x. progress orgID names [] (fst x))"
  unfolding ListJobs_def
proof (rule triple_query)
  fix d
  assume wf: "jobs_wf d"
  let ?rows = "sort_key (\<lambda>r. j_id (jr_job r)) (filter (\<lambda>r. j_org (jr_job r) = orgID) (t_jobs d))"
  have own: "j_org e = orgID \<and> (\<exists>r \<in> set (t_jobs d). names_row orgID e r)" if "e \<in> set (fst (scanJobs ?rows))" for e
    using that by (auto simp: scanJobs_def List.map_filter_def names_row_def split: sum.splits dest!: scanJob_org) metis
  have all: "\<exists>e \<in> set (fst (scanJobs ?rows)). j_id e = j_id (jr_job r) \<and> j_enabled e"
    if "r \<in> set (t_jobs d)" "j_org (jr_job r) = orgID" "\<not> jr_unreadable r" "j_enabled (jr_job r)" for r
    using that by (auto simp: scanJobs_def List.map_filter_def scanJob_def Let_def intro!: bexI [of _ r])
  show "progress orgID names [] (fst (scanJobs ?rows)) d"
    unfolding progress_def
    by (intro conjI ballI impI wf; (elim conjE)?) (erule own [THEN conjunct1] own [THEN conjunct2] all; assumption | simp)+
qed

lemma progress_done: "progress orgID names K [] d \<Longrightarrow> (\<forall>j \<in> set K. applied orgID j d) \<and> pruned orgID names d"
  by (auto simp: progress_def pruned_def list_all_iff)

lemma reconcileJobs_applies:
  assumes "distinct (map j_name js)"
  shows "triple jobs_wf (reconcileJobs parse orgID js prune res)
    (\<lambda>_ d. (\<forall>j \<in> set js. applied orgID j d) \<and> (prune \<longrightarrow> pruned orgID (map j_name js) d))"
proof -
  let ?names = "map j_name js"
  have sync: "triple (progress orgID ?names [] ejs) (sync_jobs parse orgID now js res) (\<lambda>_. progress orgID ?names (rev js) ejs)"
    for now ejs res
    using sync_jobs_progress [of "[]" js ?names] assms by simp
  have disable: "triple (progress orgID ?names (rev js) ejs) (disable_jobs ?names ejs res)
      (\<lambda>_ d. (\<forall>j \<in> set js. applied orgID j d) \<and> (prune \<longrightarrow> pruned orgID ?names d))" for ejs res
    by (rule triple_conseq [OF disable_progress]) (auto dest: progress_done)
  have no_prune: "triple (progress orgID ?names (rev js) ejs) (ret res)
      (\<lambda>_ d. (\<forall>j \<in> set js. applied orgID j d) \<and> (prune \<longrightarrow> pruned orgID ?names d))" if "\<not> prune" for ejs res
    by (rule triple_ret) (use that in \<open>auto simp: progress_def\<close>)
  show ?thesis
    unfolding reconcileJobs_def
    by (rule triple_bnd [OF triple_time_now [where P = jobs_wf and Q = "\<lambda>_. jobs_wf"]], assumption,
        rule triple_bnd [OF listed_progress [where names = ?names]])
      (unfold case_prod_beta', intro triple_bnd [OF sync] triple_if disable no_prune)
qed

text \<open>The other parts of the file leave the jobs alone.\<close>

lemma keeps_jobs_stmt: "(\<And>d. t_jobs (snd (f d)) = t_jobs d) \<Longrightarrow> keeps (\<lambda>d. I (t_jobs d)) (auto_stmt f)"
  by (rule keeps_auto_stmt) simp

lemma keeps_job_rows:
  "keeps (\<lambda>d. I (t_jobs d)) (CreateChannel ch blob)" "keeps (\<lambda>d. I (t_jobs d)) (CreateRule r rep)"
  "keeps (\<lambda>d. I (t_jobs d)) (CreateHeartbeat h)"
  unfolding CreateChannel_def CreateRule_def CreateHeartbeat_def
  by (intro tx_rules keeps_jobs_stmt; simp add: set_hb_rows_def add_hb_def split: option.split)+

lemma keeps_jobs_sync:
  "keeps (\<lambda>d. I (t_jobs d)) (sync_channels marshal box orgID cs res)"
  "keeps (\<lambda>d. I (t_jobs d)) (sync_rules orgID byName rs n)"
  "keeps (\<lambda>d. I (t_jobs d)) (sync_heartbeats orgID tokens hs res)"
proof -
  show "keeps (\<lambda>d. I (t_jobs d)) (sync_channels marshal box orgID cs res)"
    by (induction cs arbitrary: res)
      (auto intro!: tx_rules keeps_resolve_config keeps_job_rows simp: reconcileChannel_def notify_CreateChannel_def)
  show "keeps (\<lambda>d. I (t_jobs d)) (sync_rules orgID byName rs n)"
    by (induction rs arbitrary: n)
      (auto intro!: tx_rules keeps_sync_reads keeps_job_rows simp: rule_job_def sync_rule_def split: option.split)
  show "keeps (\<lambda>d. I (t_jobs d)) (sync_heartbeats orgID tokens hs res)"
    by (induction hs arbitrary: tokens res) (auto intro!: tx_rules keeps_job_rows split: list.split option.split)
qed


text \<open>A file with one new job, applied with \<^verbatim>\<open>prune\<close> to a store that has another.\<close>

definition plain_job :: "string \<Rightarrow> job" where
  "plain_job name = \<lparr>j_id = 0, j_org = 0, j_name = name, j_type = Shell, j_command = ''true'', j_http_url = [], j_http_method = [],
     j_http_body = [], j_cron = [], j_interval = 60, j_run_at = 0, j_timeout = 0, j_max_retries = 0, j_enabled = True, j_env = [],
     j_spec = None, j_next_run = 0, j_created = 0, j_updated = 0\<rparr>"

definition one_job_db :: db where
  "one_job_db = empty_db\<lparr>t_jobs := [new_job_row (plain_job ''old'' \<lparr>j_org := 1\<rparr>) 1 0], n_jobs := 2\<rparr>"

definition one_job_file :: "unit config_file" where
  "one_job_file = \<lparr>cfg_jobs = [plain_job ''backup''], cfg_channels = [], cfg_rules = [], cfg_heartbeats = []\<rparr>"


end
