(* ===== verification/Retention.thy ===== *)
theory Retention
  imports Config_Env Runner_Client
begin

text \<open>
  The retention sweep of \<^verbatim>\<open>tend serve\<close> (\<^verbatim>\<open>sweeper.run\<close> in \<^verbatim>\<open>internal/cli/cli.go\<close>) over the store's
  prunes, with the windows \<^verbatim>\<open>LoadRetention\<close> read. Giving freed space back to the file system
  is an argument: it is database administration (\<^verbatim>\<open>ReclaimSpace\<close>), and \<open>too_large\<close> recognises
  its refusal to compact a large database.
\<close>

section \<open>The sweep\<close>

definition retentionSweepInterval :: duration where "retentionSweepInterval = 24 * hour"

datatype sweep_line =
    PruneFailed string store_error
  | Pruned string nat
  | NotReclaimed store_error
  | ReclaimFailed store_error
  | Reclaimed int

record sweeper =
  sw_ret :: retention
  sw_lines :: "sweep_line list"
  sw_warned :: bool

type_synonym 'a sweep = "(sweeper \<times> db \<times> world, 'a) state"

definition get_sweeper :: "sweeper sweep" where
  "get_sweeper = State (\<lambda>(r, s). (r, r, s))"

definition upd_sweeper :: "(sweeper \<Rightarrow> sweeper) \<Rightarrow> unit sweep" where
  "upd_sweeper f = State (\<lambda>(r, s). ((), f r, s))"

definition sweep_log :: "sweep_line \<Rightarrow> unit sweep" where
  "sweep_log l = upd_sweeper (\<lambda>r. r\<lparr>sw_lines := sw_lines r @ [l]\<rparr>)"

definition prune :: "string \<Rightarrow> (gotime \<Rightarrow> nat tx) \<Rightarrow> gotime \<Rightarrow> duration \<Rightarrow> nat sweep" where
  "prune what fn now win =
     (if win \<le> 0 then State_Monad.return 0
      else do {
        x \<leftarrow> call (fn (now + wrap64 (- win)));
        stopped \<leftarrow> (case x of Inl _ \<Rightarrow> ctx_done | Inr _ \<Rightarrow> State_Monad.return False);
        case x of
          Inl e \<Rightarrow> do { _ \<leftarrow> (if stopped then State_Monad.return () else sweep_log (PruneFailed what e)); State_Monad.return 0 }
        | Inr n \<Rightarrow>
            if n > 0 then do { _ \<leftarrow> sweep_log (Pruned what n); State_Monad.return n } else State_Monad.return 0 })"

definition reclaim_space :: "int tx \<Rightarrow> (store_error \<Rightarrow> bool) \<Rightarrow> unit sweep" where
  "reclaim_space ReclaimSpace too_large = do {
     x \<leftarrow> call ReclaimSpace;
     case x of
       Inl e \<Rightarrow>
         if too_large e then do {
           sw \<leftarrow> get_sweeper;
           if sw_warned sw then State_Monad.return ()
           else do { _ \<leftarrow> upd_sweeper (\<lambda>r. r\<lparr>sw_warned := True\<rparr>); sweep_log (NotReclaimed e) } }
         else do {
           stopped \<leftarrow> ctx_done;
           if stopped then State_Monad.return () else sweep_log (ReclaimFailed e) }
     | Inr n \<Rightarrow> if n > 0 then sweep_log (Reclaimed n) else State_Monad.return () }"

definition sweep_run :: "int tx \<Rightarrow> (store_error \<Rightarrow> bool) \<Rightarrow> gotime \<Rightarrow> unit sweep" where
  "sweep_run ReclaimSpace too_large now = do {
     sw \<leftarrow> get_sweeper;
     a \<leftarrow> prune ''events'' PruneEvents now (rt_events (sw_ret sw));
     b \<leftarrow> prune ''job runs'' PruneJobRuns now (rt_job_runs (sw_ret sw));
     c \<leftarrow> prune ''deliveries'' PruneDeliveries now (rt_deliveries (sw_ret sw));
     p \<leftarrow> prune ''heartbeat pings'' pruneHeartbeatPings now (rt_pings (sw_ret sw));
     stopped \<leftarrow> (if a + b + c + p = 0 then State_Monad.return True else ctx_done);
     if stopped then State_Monad.return () else reclaim_space ReclaimSpace too_large }"

section \<open>What a sweep may remove\<close>

text \<open>A row is past its window: the window is on, and the row is older than it.\<close>

definition past :: "gotime \<Rightarrow> duration \<Rightarrow> gotime \<Rightarrow> bool" where
  "past now win created \<longleftrightarrow> 0 < win \<and> created < now - win"

text \<open>An event is needed by a pending delivery or a held alert.\<close>

definition needed :: "db \<Rightarrow> event \<Rightarrow> bool" where
  "needed d e \<longleftrightarrow> ev_id e \<in> set (map dl_event (filter (\<lambda>x. dl_state x = DeliveryPending) (t_deliveries d)))
     \<or> ev_id e \<in> set (List.map_filter al_held (t_alerts d))"

text \<open>Only rows past their window are gone, and neither needed events, active runs nor pending deliveries.\<close>

definition swept :: "retention \<Rightarrow> gotime \<Rightarrow> db \<Rightarrow> db \<Rightarrow> bool" where
  "swept r now d d' \<longleftrightarrow>
     (\<exists>E R D P. d' = d\<lparr>t_events := filter E (t_events d), t_runs := filter R (t_runs d),
                        t_deliveries := filter D (t_deliveries d), t_pings := filter P (t_pings d)\<rparr>
       \<and> (\<forall>e. E e \<or> past now (rt_events r) (ev_created e) \<and> \<not> needed d e)
       \<and> (\<forall>x. R x \<or> past now (rt_job_runs r) (rw_created x) \<and> \<not> active x)
       \<and> (\<forall>x. D x \<or> past now (rt_deliveries r) (dl_created x) \<and> dl_state x \<noteq> DeliveryPending)
       \<and> (\<forall>x. P x \<or> past now (rt_pings r) (pw_created x)))"

lemma swept_needed:
  assumes "\<forall>x. D x \<or> past now w (dl_created x) \<and> dl_state x \<noteq> DeliveryPending"
  shows "needed (d\<lparr>t_events := es, t_runs := rs, t_deliveries := filter D (t_deliveries d), t_pings := ps\<rparr>) e \<longleftrightarrow> needed d e"
proof -
  have "filter (\<lambda>x. dl_state x = DeliveryPending) (filter D (t_deliveries d)) = filter (\<lambda>x. dl_state x = DeliveryPending) (t_deliveries d)"
    unfolding filter_filter using assms by (intro filter_cong) auto
  then show ?thesis by (simp add: needed_def)
qed

lemma swept_trans: "swept r now d d' \<Longrightarrow> swept r now d' d'' \<Longrightarrow> swept r now d d''"
proof -
  assume "swept r now d d'" "swept r now d' d''"
  then obtain E R D P E' R' D' P' where
    1: "d' = d\<lparr>t_events := filter E (t_events d), t_runs := filter R (t_runs d),
         t_deliveries := filter D (t_deliveries d), t_pings := filter P (t_pings d)\<rparr>"
      "\<forall>e. E e \<or> past now (rt_events r) (ev_created e) \<and> \<not> needed d e"
      "\<forall>x. R x \<or> past now (rt_job_runs r) (rw_created x) \<and> \<not> active x"
      "\<forall>x. D x \<or> past now (rt_deliveries r) (dl_created x) \<and> dl_state x \<noteq> DeliveryPending"
      "\<forall>x. P x \<or> past now (rt_pings r) (pw_created x)" and
    2: "d'' = d'\<lparr>t_events := filter E' (t_events d'), t_runs := filter R' (t_runs d'),
         t_deliveries := filter D' (t_deliveries d'), t_pings := filter P' (t_pings d')\<rparr>"
      "\<forall>e. E' e \<or> past now (rt_events r) (ev_created e) \<and> \<not> needed d' e"
      "\<forall>x. R' x \<or> past now (rt_job_runs r) (rw_created x) \<and> \<not> active x"
      "\<forall>x. D' x \<or> past now (rt_deliveries r) (dl_created x) \<and> dl_state x \<noteq> DeliveryPending"
      "\<forall>x. P' x \<or> past now (rt_pings r) (pw_created x)"
    unfolding swept_def by (elim exE conjE) blast
  note n = swept_needed [OF 1(4)]
  show ?thesis
    unfolding swept_def
    by (intro exI [of _ "\<lambda>x. E x \<and> E' x"] exI [of _ "\<lambda>x. R x \<and> R' x"] exI [of _ "\<lambda>x. D x \<and> D' x"] exI [of _ "\<lambda>x. P x \<and> P' x"] conjI)
      (use 1(2-5) 2(2-5) n in \<open>auto simp: 1(1) 2(1) conj_commute\<close>)
qed

lemma swept_refl: "swept r now d d"
  unfolding swept_def by (intro exI [of _ "\<lambda>_. True"]) simp

interpretation sweep: step_order "swept r now" for r now
  by unfold_locales (rule swept_refl, rule swept_trans)

lemma moves_sweeper: "moves (swept r now) get_sweeper" "moves (swept r now) (upd_sweeper f)" "moves (swept r now) (sweep_log l)"
  by (auto intro!: state_io_relI simp: get_sweeper_def upd_sweeper_def sweep_log_def swept_refl)

lemmas sweep_rules = sweep.moves_return sweep.moves_bind sweep.moves_clock sweep.moves_if sweep.moves_sum sweep.moves_option moves_sweeper

text \<open>A statement is run, fails, or fails after it was run.\<close>

lemma auto_stmt_db: "auto_stmt f d w = (x, d', w') \<Longrightarrow> d' = d \<or> d' = snd (f d)"
  by (auto simp: auto_stmt_def Let_def split: prod.splits fault.splits)

lemma swept_one:
  "(\<And>e. E e \<or> past now (rt_events r) (ev_created e) \<and> \<not> needed d e) \<Longrightarrow> swept r now d (d\<lparr>t_events := filter E (t_events d)\<rparr>)"
  "(\<And>x. R x \<or> past now (rt_job_runs r) (rw_created x) \<and> \<not> active x) \<Longrightarrow> swept r now d (d\<lparr>t_runs := filter R (t_runs d)\<rparr>)"
  "(\<And>x. D x \<or> past now (rt_deliveries r) (dl_created x) \<and> dl_state x \<noteq> DeliveryPending)
     \<Longrightarrow> swept r now d (d\<lparr>t_deliveries := filter D (t_deliveries d)\<rparr>)"
  "(\<And>x. P x \<or> past now (rt_pings r) (pw_created x)) \<Longrightarrow> swept r now d (d\<lparr>t_pings := filter P (t_pings d)\<rparr>)"
  unfolding swept_def
     apply (intro exI [of _ E] exI [of _ "\<lambda>_. True"] conjI; simp)
    apply (rule exI [of _ "\<lambda>_. True"], rule exI [of _ R], intro exI [of _ "\<lambda>_. True"] conjI; simp)
   apply (rule exI [of _ "\<lambda>_. True"], rule exI [of _ "\<lambda>_. True"], rule exI [of _ D], intro exI [of _ "\<lambda>_. True"] conjI; simp)
  apply (rule exI [of _ "\<lambda>_. True"], rule exI [of _ "\<lambda>_. True"], rule exI [of _ "\<lambda>_. True"], intro exI [of _ P] conjI; simp)
  done

text \<open>What each prune leaves when its statement runs, by the windows of the sweep.\<close>

definition sweep_of :: "retention \<Rightarrow> gotime \<Rightarrow> db \<Rightarrow> db" where
  "sweep_of r now d =
     d\<lparr>t_events := filter (\<lambda>e. \<not> (past now (rt_events r) (ev_created e) \<and> \<not> needed d e)) (t_events d),
       t_runs := filter (\<lambda>x. \<not> (past now (rt_job_runs r) (rw_created x) \<and> \<not> active x)) (t_runs d),
       t_deliveries := filter (\<lambda>x. \<not> (past now (rt_deliveries r) (dl_created x) \<and> dl_state x \<noteq> DeliveryPending)) (t_deliveries d),
       t_pings := filter (\<lambda>x. \<not> past now (rt_pings r) (pw_created x)) (t_pings d)\<rparr>"

lemma prunes_by_window:
  "0 < rt_events r \<Longrightarrow> PruneEvents (now - rt_events r)
     = auto_stmt (\<lambda>d. (length (filter (\<lambda>e. past now (rt_events r) (ev_created e) \<and> \<not> needed d e) (t_events d)),
                       d\<lparr>t_events := filter (\<lambda>e. \<not> (past now (rt_events r) (ev_created e) \<and> \<not> needed d e)) (t_events d)\<rparr>))"
  "0 < rt_job_runs r \<Longrightarrow> PruneJobRuns (now - rt_job_runs r)
     = auto_stmt (\<lambda>d. (length (filter (\<lambda>x. past now (rt_job_runs r) (rw_created x) \<and> \<not> active x) (t_runs d)),
                       d\<lparr>t_runs := filter (\<lambda>x. \<not> (past now (rt_job_runs r) (rw_created x) \<and> \<not> active x)) (t_runs d)\<rparr>))"
  "0 < rt_deliveries r \<Longrightarrow> PruneDeliveries (now - rt_deliveries r)
     = auto_stmt (\<lambda>d. (length (filter (\<lambda>x. past now (rt_deliveries r) (dl_created x) \<and> dl_state x \<noteq> DeliveryPending) (t_deliveries d)),
                       d\<lparr>t_deliveries := filter (\<lambda>x. \<not> (past now (rt_deliveries r) (dl_created x) \<and> dl_state x \<noteq> DeliveryPending)) (t_deliveries d)\<rparr>))"
  "0 < rt_pings r \<Longrightarrow> pruneHeartbeatPings (now - rt_pings r)
     = auto_stmt (\<lambda>d. (length (filter (\<lambda>x. past now (rt_pings r) (pw_created x)) (t_pings d)),
                       d\<lparr>t_pings := filter (\<lambda>x. \<not> past now (rt_pings r) (pw_created x)) (t_pings d)\<rparr>))"
proof -
  have p: "prunable_event (now - rt_events r) = (\<lambda>d e. past now (rt_events r) (ev_created e) \<and> \<not> needed d e)" if "0 < rt_events r"
    using that by (intro ext) (simp add: prunable_event_def past_def needed_def conj_assoc)
  show "0 < rt_events r \<Longrightarrow> PruneEvents (now - rt_events r)
     = auto_stmt (\<lambda>d. (length (filter (\<lambda>e. past now (rt_events r) (ev_created e) \<and> \<not> needed d e) (t_events d)),
                       d\<lparr>t_events := filter (\<lambda>e. \<not> (past now (rt_events r) (ev_created e) \<and> \<not> needed d e)) (t_events d)\<rparr>))"
    by (simp add: PruneEvents_def p)
qed (simp_all add: PruneJobRuns_def PruneDeliveries_def pruneHeartbeatPings_def past_def Let_def)

lemma swept_auto_stmt: "(\<And>d. swept r now d (snd (f d))) \<Longrightarrow> moves (swept r now) (call (auto_stmt f))"
  by (rule sweep.moves_call) (metis auto_stmt_db swept_refl)

lemma moves_prune:
  assumes "0 < win \<Longrightarrow> in64 win" "0 < win \<Longrightarrow> fn (now - win) = auto_stmt f" "\<And>d. 0 < win \<Longrightarrow> swept r now d (snd (f d))"
  shows "moves (swept r now) (prune what fn now win)"
proof (cases "0 < win")
  case True
  then have "wrap64 (- win) = - win" using assms(1) by (intro wrap64_id) (auto simp: in64_def min_int64_def max_int64_def)
  with True assms(2) show ?thesis
    unfolding prune_def by (auto intro!: sweep_rules swept_auto_stmt assms(3))
qed (simp add: prune_def sweep.moves_return)

lemma retention_in64:
  assumes "LoadRetention getenv = Inr r"
  shows "in64 (rt_events r)" "in64 (rt_job_runs r)" "in64 (rt_deliveries r)" "in64 (rt_pings r)"
proof -
  have w: "in64 d" if "retention_window getenv name n = Inr d" for name n d
    using that by (auto simp: retention_window_def split: sum.splits)
  show "in64 (rt_events r)" "in64 (rt_job_runs r)" "in64 (rt_deliveries r)" "in64 (rt_pings r)"
    using assms by (auto simp: LoadRetention_def split: sum.splits dest!: w)
qed

definition keeps_data :: "'a tx \<Rightarrow> bool" where
  "keeps_data m \<longleftrightarrow> (\<forall>d w x d' w'. m d w = (x, d', w') \<longrightarrow> d' = d)"

lemma moves_reclaim: "keeps_data ReclaimSpace \<Longrightarrow> moves (swept r now) (reclaim_space ReclaimSpace too_large)"
  unfolding reclaim_space_def
  by (intro sweep_rules sweep.moves_call) (metis keeps_data_def swept_refl)

lemma moves_prunes:
  assumes "LoadRetention getenv = Inr r"
  shows "moves (swept r now) (prune what PruneEvents now (rt_events r))"
    "moves (swept r now) (prune what PruneJobRuns now (rt_job_runs r))"
    "moves (swept r now) (prune what PruneDeliveries now (rt_deliveries r))"
    "moves (swept r now) (prune what pruneHeartbeatPings now (rt_pings r))"
  using retention_in64 [OF assms]
  by (auto intro!: moves_prune prunes_by_window swept_one)

lemma sweep_run_swept:
  assumes "LoadRetention getenv = Inr (sw_ret sw)" "keeps_data ReclaimSpace"
    and "run_state (sweep_run ReclaimSpace too_large now) (sw, d, w) = ((), sw', d', w')"
  shows "swept (sw_ret sw) now d d'"
proof -
  let ?r = "sw_ret sw"
  let ?rest = "\<lambda>sw. do {
     a \<leftarrow> prune ''events'' PruneEvents now (rt_events (sw_ret sw));
     b \<leftarrow> prune ''job runs'' PruneJobRuns now (rt_job_runs (sw_ret sw));
     c \<leftarrow> prune ''deliveries'' PruneDeliveries now (rt_deliveries (sw_ret sw));
     p \<leftarrow> prune ''heartbeat pings'' pruneHeartbeatPings now (rt_pings (sw_ret sw));
     stopped \<leftarrow> (if a + b + c + p = 0 then State_Monad.return True else ctx_done);
     if stopped then State_Monad.return () else reclaim_space ReclaimSpace too_large }"
  have "moves (swept ?r now) (?rest sw)"
    by (intro sweep_rules moves_prunes [OF assms(1)] moves_reclaim [OF assms(2)])
  moreover have "run_state (?rest sw) (sw, d, w) = ((), sw', d', w')"
    using assms(3) by (simp add: sweep_run_def get_sweeper_def)
  ultimately show ?thesis by (auto dest: state_io_relD)
qed

text \<open>Without faults every statement runs, and the sweep leaves exactly what is to be kept.\<close>

lemma clean_auto_stmt: "clean w \<Longrightarrow> auto_stmt f d w = (Inr (fst (f d)), snd (f d), w)"
  by (cases "f d") (simp add: auto_stmt_def clean_def next_fault_def)

lemma clean_prune:
  assumes "clean w" "in64 win" "0 < win \<Longrightarrow> fn (now - win) = auto_stmt f" "d' = (if 0 < win then snd (f d) else d)"
  shows "\<exists>n sw'. run_state (prune what fn now win) (sw, d, w) = (n, sw', d', w)"
proof (cases "0 < win")
  case True
  then have "now + wrap64 (- win) = now - win" using assms(2) by (simp add: in64_def min_int64_def max_int64_def)
  with True assms(3,4) clean_auto_stmt [OF assms(1), of f d] show ?thesis
    by (auto simp: prune_def sweep_log_def upd_sweeper_def)
qed (simp add: prune_def assms(4))

lemma clean_prunes:
  assumes "LoadRetention getenv = Inr r" "clean w"
  shows "\<exists>n sw'. run_state (prune what PruneEvents now (rt_events r)) (sw, d, w)
      = (n, sw', d\<lparr>t_events := filter (\<lambda>e. \<not> (past now (rt_events r) (ev_created e) \<and> \<not> needed d e)) (t_events d)\<rparr>, w)"
    "\<exists>n sw'. run_state (prune what PruneJobRuns now (rt_job_runs r)) (sw, d, w)
      = (n, sw', d\<lparr>t_runs := filter (\<lambda>x. \<not> (past now (rt_job_runs r) (rw_created x) \<and> \<not> active x)) (t_runs d)\<rparr>, w)"
    "\<exists>n sw'. run_state (prune what PruneDeliveries now (rt_deliveries r)) (sw, d, w)
      = (n, sw', d\<lparr>t_deliveries := filter (\<lambda>x. \<not> (past now (rt_deliveries r) (dl_created x) \<and> dl_state x \<noteq> DeliveryPending)) (t_deliveries d)\<rparr>, w)"
    "\<exists>n sw'. run_state (prune what pruneHeartbeatPings now (rt_pings r)) (sw, d, w)
      = (n, sw', d\<lparr>t_pings := filter (\<lambda>x. \<not> past now (rt_pings r) (pw_created x)) (t_pings d)\<rparr>, w)"
     apply (rule clean_prune [OF assms(2) retention_in64(1) [OF assms(1)]], erule prunes_by_window(1), simp add: past_def)
    apply (rule clean_prune [OF assms(2) retention_in64(2) [OF assms(1)]], erule prunes_by_window(2), simp add: past_def)
   apply (rule clean_prune [OF assms(2) retention_in64(3) [OF assms(1)]], erule prunes_by_window(3), simp add: past_def)
  apply (rule clean_prune [OF assms(2) retention_in64(4) [OF assms(1)]], erule prunes_by_window(4), simp add: past_def)
  done

interpretation still: step_order "(=)"
  by unfold_locales simp_all

lemma still_reclaim: "keeps_data ReclaimSpace \<Longrightarrow> moves (=) (reclaim_space ReclaimSpace too_large)"
proof -
  have s: "moves (=) get_sweeper" "moves (=) (upd_sweeper f)" "moves (=) (sweep_log l)" for f l
    by (auto intro!: state_io_relI simp: get_sweeper_def upd_sweeper_def sweep_log_def)
  assume "keeps_data ReclaimSpace"
  then show ?thesis
    unfolding reclaim_space_def
    by (intro still.moves_return still.moves_bind still.moves_clock still.moves_if still.moves_sum still.moves_call s)
      (metis keeps_data_def)
qed

lemma sweep_run_clean:
  assumes "LoadRetention getenv = Inr (sw_ret sw)" "keeps_data ReclaimSpace" "clean w"
    and "run_state (sweep_run ReclaimSpace too_large now) (sw, d, w) = ((), sw', d', w')"
  shows "d' = sweep_of (sw_ret sw) now d"
proof -
  let ?r = "sw_ret sw"
  note p = clean_prunes [OF assms(1,3), of _ now]
  define d1 where "d1 = d\<lparr>t_events := filter (\<lambda>e. \<not> (past now (rt_events ?r) (ev_created e) \<and> \<not> needed d e)) (t_events d)\<rparr>"
  define d2 where "d2 = d1\<lparr>t_runs := filter (\<lambda>x. \<not> (past now (rt_job_runs ?r) (rw_created x) \<and> \<not> active x)) (t_runs d1)\<rparr>"
  define d3 where "d3 = d2\<lparr>t_deliveries := filter (\<lambda>x. \<not> (past now (rt_deliveries ?r) (dl_created x) \<and> dl_state x \<noteq> DeliveryPending)) (t_deliveries d2)\<rparr>"
  define d4 where "d4 = d3\<lparr>t_pings := filter (\<lambda>x. \<not> past now (rt_pings ?r) (pw_created x)) (t_pings d3)\<rparr>"
  obtain a s1 where 1: "run_state (prune ''events'' PruneEvents now (rt_events ?r)) (sw, d, w) = (a, s1, d1, w)"
    using p(1) unfolding d1_def by blast
  obtain b s2 where 2: "run_state (prune ''job runs'' PruneJobRuns now (rt_job_runs ?r)) (s1, d1, w) = (b, s2, d2, w)"
    using p(2) unfolding d2_def by blast
  obtain c s3 where 3: "run_state (prune ''deliveries'' PruneDeliveries now (rt_deliveries ?r)) (s2, d2, w) = (c, s3, d3, w)"
    using p(3) unfolding d3_def by blast
  obtain e s4 where 4: "run_state (prune ''heartbeat pings'' pruneHeartbeatPings now (rt_pings ?r)) (s3, d3, w) = (e, s4, d4, w)"
    using p(4) unfolding d4_def by blast
  let ?tail = "do { stopped \<leftarrow> (if a + b + c + e = 0 then State_Monad.return True else ctx_done);
     if stopped then State_Monad.return () else reclaim_space ReclaimSpace too_large }"
  have "run_state ?tail (s4, d4, w) = ((), sw', d', w')"
    using assms(4) 1 2 3 4 by (simp add: sweep_run_def get_sweeper_def)
  moreover have "moves (=) ?tail"
    by (intro still.moves_return still.moves_bind still.moves_clock still.moves_if still_reclaim [OF assms(2)])
  ultimately have "d' = d4" by (auto dest: state_io_relD)
  then show ?thesis by (simp add: d4_def d3_def d2_def d1_def sweep_of_def)
qed

section \<open>The sweep keeps what its windows promise\<close>

text \<open>
  C31: a retention sweep with the windows read from the environment removes only rows past the
  window of their kind, never an event a pending delivery or a held alert still needs, an active
  run or a pending delivery, and no row of another table, whatever statements fail or the server
  stops in between; with no window (0 days) nothing of that kind is removed. When no statement
  fails, every row past its window that is not so needed is removed.
\<close>

theorem sweep_removes_only_the_past:
  assumes "LoadRetention getenv = Inr (sw_ret sw)" "keeps_data ReclaimSpace"
    and "run_state (sweep_run ReclaimSpace too_large now) (sw, d, w) = ((), sw', d', w')"
  shows "swept (sw_ret sw) now d d' \<and> (clean w \<longrightarrow> d' = sweep_of (sw_ret sw) now d)"
  using sweep_run_swept [OF assms] sweep_run_clean [OF assms(1,2) _ assms(3)] by blast

text \<open>A sweep forty days on, with the default windows, of a database whose only event nothing needs.\<close>

definition default_sweeper :: sweeper where
  "default_sweeper =
     \<lparr>sw_ret = (case LoadRetention (\<lambda>_. []) of
                  Inr r \<Rightarrow> r
                | Inl _ \<Rightarrow> \<lparr>rt_events = 0, rt_job_runs = 0, rt_deliveries = 0, rt_pings = 0, rt_runs_by_default = True\<rparr>),
      sw_lines = [], sw_warned = False\<rparr>"

lemma default_windows: "LoadRetention (\<lambda>_. []) = Inr (sw_ret default_sweeper)"
proof -
  have n: "env_number (\<lambda>_. []) name mx = Inr None" for name mx by (simp add: env_number_def)
  show ?thesis by (simp add: default_sweeper_def LoadRetention_def retention_window_def n del: wrap64_id)
qed

theorem sweep_removes_only_the_past_witness:
  "\<exists>sw' d' w'. run_state (sweep_run (ret 4096) (\<lambda>_. False) (40 * 24 * hour))
       (default_sweeper, empty_db\<lparr>t_events := [sample_run_event]\<rparr>, quiet 5) = ((), sw', d', w')
     \<and> t_events d' = []"
proof -
  let ?d = "empty_db\<lparr>t_events := [sample_run_event]\<rparr>"
  obtain u sw' d' w' where m: "run_state (sweep_run (ret 4096) (\<lambda>_. False) (40 * 24 * hour)) (default_sweeper, ?d, quiet 5) = (u, sw', d', w')"
    by (metis surj_pair)
  have k: "keeps_data (ret 4096 :: int tx)" by (simp add: keeps_data_def ret_def)
  have "d' = sweep_of (sw_ret default_sweeper) (40 * 24 * hour) ?d"
    using sweep_removes_only_the_past [OF default_windows k, of "\<lambda>_. False" "40 * 24 * hour" ?d "quiet 5" sw' d' w'] m by (simp add: clean_def)
  moreover have "rt_events (sw_ret default_sweeper) = 30 * (24 * hour)"
    using retention_window_exact [of "\<lambda>_. []" EnvEventRetentionDays DefaultEventRetentionDays] default_windows
    by (auto simp: LoadRetention_def DefaultEventRetentionDays_def maxRetentionDays_def split: sum.splits dest: sym)
  ultimately have "t_events d' = []"
    by (simp add: sweep_of_def past_def needed_def empty_db_def sample_run_event_def map_filter_def)
  with m show ?thesis by auto
qed

end
