(* ===== verification/Http_Auth.thy ===== *)
theory Http_Auth
  imports Ping_Model Store_Reads
begin

text \<open>
  Who a request comes from (\<^verbatim>\<open>internal/httpserver/auth.go\<close>): the session cookie, the bearer token,
  the check against cross-site requests, and login and logout. The session codec, the hash of
  tokens and passwords come from another repository and are arguments. Log lines are left out.
\<close>

section \<open>Requests and answers\<close>

record session =
  ss_user :: int
  ss_org :: int
  ss_expiry :: gotime

record principal =
  pc_org :: int
  pc_user :: int
  pc_role :: string

record auth_result =
  ar_principal :: principal
  ar_session :: "session option"
  ar_by_cookie :: bool
  ar_csrf :: string

record kit =
  kt_decode :: "string \<Rightarrow> session option"
  kt_encode :: "session \<Rightarrow> string option"
  kt_issue_csrf :: "session \<Rightarrow> string"
  kt_check_csrf :: "session \<Rightarrow> string \<Rightarrow> bool"
  kt_hash_token :: "string \<Rightarrow> string"
  kt_verify_password :: "string \<Rightarrow> string \<Rightarrow> bool"
  kt_dummy_hash :: string
  kt_session_ttl :: duration

text \<open>
  A request as the server reads it: the session cookie, two headers, the fields of its form
  and the path value \<^verbatim>\<open>{id}\<close> of the route it matched.
\<close>

record web_request = http_request +
  wq_cookie :: "string option"
  wq_authorization :: string
  wq_csrf_header :: string
  wq_form :: "string \<Rightarrow> string"
  wq_form_error :: bool
  wq_id :: string

record cookie =
  ck_name :: string
  ck_value :: string
  ck_path :: string
  ck_http_only :: bool
  ck_secure :: bool
  ck_same_site :: string
  ck_max_age :: int

datatype 'b page = PlainText string | LoginPage string | ErrorJSON string | JSON 'b | Blank

record 'b response =
  rp_status :: int
  rp_page :: "'b page"
  rp_cookie :: "cookie option"
  rp_location :: "string option"
  rp_allow :: "string option"

definition respond :: "int \<Rightarrow> 'b page \<Rightarrow> 'b response" where
  "respond code pg = \<lparr>rp_status = code, rp_page = pg, rp_cookie = None, rp_location = None, rp_allow = None\<rparr>"

definition http_redirect :: "string \<Rightarrow> 'b response" where
  "http_redirect location = (respond 302 Blank)\<lparr>rp_location := Some location\<rparr>"

text \<open>What the context of a request carries, and what handlers read from it.\<close>

type_synonym request_context = "auth_result option"

type_synonym 'b web_handler = "request_context \<Rightarrow> web_request \<Rightarrow> 'b response tx"

definition PrincipalFrom :: "request_context \<Rightarrow> principal option" where
  "PrincipalFrom ctx = map_option ar_principal ctx"

definition CSRFTokenFrom :: "request_context \<Rightarrow> string" where
  "CSRFTokenFrom ctx = (case ctx of None \<Rightarrow> [] | Some ar \<Rightarrow> ar_csrf ar)"

section \<open>Who is asking\<close>

definition sessionCookieName :: string where "sessionCookieName = ''tend_session''"

text \<open>
  \<^verbatim>\<open>strings.EqualFold\<close> against this prefix: none of its letters has a fold outside ASCII.
\<close>

definition bearerToken :: "string \<Rightarrow> string option" where
  "bearerToken h =
     (if length h \<le> length ''Bearer '' \<or> \<not> asciiEqualFold (take 7 h) ''Bearer '' then None
      else let tok = trim_space (drop 7 h) in if tok = [] then None else Some tok)"

definition isUnsafeMethod :: "string \<Rightarrow> bool" where
  "isUnsafeMethod m \<longleftrightarrow> m \<in> {''POST'', ''PUT'', ''PATCH'', ''DELETE''}"

definition resolveCookie :: "kit \<Rightarrow> web_request \<Rightarrow> auth_result option tx" where
  "resolveCookie K r =
     (case wq_cookie r of
        None \<Rightarrow> ret None
      | Some val \<Rightarrow>
          if val = [] then ret None
          else case kt_decode K val of
            None \<Rightarrow> ret None
          | Some sess \<Rightarrow>
              bnd (attempt (GetUserByID (ss_org sess) (ss_user sess))) (\<lambda>u.
              case u of
                Inl _ \<Rightarrow> ret None
              | Inr _ \<Rightarrow>
                  bnd (attempt (GetMembership (ss_org sess) (ss_user sess))) (\<lambda>m.
                  case m of
                    Inl _ \<Rightarrow> ret None
                  | Inr m \<Rightarrow>
                      ret (Some \<lparr>ar_principal = \<lparr>pc_org = ss_org sess, pc_user = ss_user sess, pc_role = me_role m\<rparr>,
                                 ar_session = Some sess, ar_by_cookie = True, ar_csrf = kt_issue_csrf K sess\<rparr>))))"

definition resolveBearer :: "kit \<Rightarrow> web_request \<Rightarrow> auth_result option tx" where
  "resolveBearer K r =
     (case bearerToken (wq_authorization r) of
        None \<Rightarrow> ret None
      | Some tok \<Rightarrow>
          bnd (attempt (AuthenticateToken (kt_hash_token K tok))) (\<lambda>t.
          case t of
            Inl _ \<Rightarrow> ret None
          | Inr (orgID, _) \<Rightarrow>
              ret (Some \<lparr>ar_principal = \<lparr>pc_org = orgID, pc_user = 0, pc_role = ''token''\<rparr>,
                         ar_session = None, ar_by_cookie = False, ar_csrf = []\<rparr>)))"

definition resolve :: "kit \<Rightarrow> web_request \<Rightarrow> auth_result option tx" where
  "resolve K r =
     bnd (resolveCookie K r) (\<lambda>ar.
     case ar of Some a \<Rightarrow> ret (Some a) | None \<Rightarrow> resolveBearer K r)"

text \<open>The header first, then the form.\<close>

definition validCSRF :: "kit \<Rightarrow> web_request \<Rightarrow> session \<Rightarrow> bool" where
  "validCSRF K r sess =
     (let tok = (if wq_csrf_header r = [] then wq_form r ''csrf_token'' else wq_csrf_header r)
      in tok \<noteq> [] \<and> kt_check_csrf K sess tok)"

definition rejectUnauthenticated :: "web_request \<Rightarrow> 'b response" where
  "rejectUnauthenticated r =
     (if has_prefix (rq_path r) ''/api/'' then respond 401 (ErrorJSON ''unauthorized'')
      else http_redirect ''/login'')"

definition csrf_refused :: "kit \<Rightarrow> web_request \<Rightarrow> auth_result \<Rightarrow> bool" where
  "csrf_refused K r ar \<longleftrightarrow>
     ar_by_cookie ar \<and> isUnsafeMethod (rq_method r)
     \<and> \<not> (case ar_session ar of None \<Rightarrow> False | Some sess \<Rightarrow> validCSRF K r sess)"

definition requireAuth :: "kit \<Rightarrow> 'b web_handler \<Rightarrow> web_request \<Rightarrow> 'b response tx" where
  "requireAuth K h r =
     bnd (resolve K r) (\<lambda>ar.
     case ar of
       None \<Rightarrow> ret (rejectUnauthenticated r)
     | Some a \<Rightarrow>
         if csrf_refused K r a then ret (respond 403 (PlainText ''forbidden: invalid CSRF token''))
         else h (Some a) r)"

section \<open>Login and logout\<close>

definition genericLoginError :: string where "genericLoginError = ''Invalid email or password.''"

definition renderLogin :: "string \<Rightarrow> int \<Rightarrow> 'b response" where
  "renderLogin msg status = respond status (LoginPage msg)"

definition handleLoginForm :: "'b response" where
  "handleLoginForm = renderLogin [] 200"

definition sessionCookie :: "bool \<Rightarrow> string \<Rightarrow> int \<Rightarrow> cookie" where
  "sessionCookie secure val maxAge =
     \<lparr>ck_name = sessionCookieName, ck_value = val, ck_path = ''/'', ck_http_only = True, ck_secure = secure,
      ck_same_site = ''Lax'', ck_max_age = maxAge\<rparr>"

definition defaultOrgID :: "int tx" where
  "defaultOrgID = bnd BootstrapDefaultOrg (\<lambda>(i, _, _). ret i)"

definition stored_hash :: "user_row \<Rightarrow> string" where
  "stored_hash u = (case us_hash u of None \<Rightarrow> [] | Some h \<Rightarrow> h)"

definition new_session :: "kit \<Rightarrow> user_row \<Rightarrow> gotime \<Rightarrow> session" where
  "new_session K u now = \<lparr>ss_user = us_id u, ss_org = us_org u, ss_expiry = now + kt_session_ttl K\<rparr>"

text \<open>
  The answer, and the hashes a password was checked against on the way: checking one is what
  makes the time of an answer.
\<close>

definition handleLoginSubmit :: "kit \<Rightarrow> bool \<Rightarrow> web_request \<Rightarrow> ('b response \<times> string list) tx" where
  "handleLoginSubmit K secure r =
     (if wq_form_error r then ret (renderLogin genericLoginError 400, [])
      else
        let email = trim_space (wq_form r ''email''); pw = wq_form r ''password'';
            fault = respond 500 (PlainText ''internal error'')
        in bnd (attempt defaultOrgID) (\<lambda>o1.
           case o1 of
             Inl _ \<Rightarrow> ret (fault, [])
           | Inr orgID \<Rightarrow>
               bnd (attempt (GetUserByEmail orgID email)) (\<lambda>u.
               case u of
                 Inl _ \<Rightarrow> ret (renderLogin genericLoginError 401, [kt_dummy_hash K])
               | Inr user \<Rightarrow>
                   if \<not> kt_verify_password K (stored_hash user) pw
                   then ret (renderLogin genericLoginError 401, [stored_hash user])
                   else bnd time_now (\<lambda>now.
                     case kt_encode K (new_session K user now) of
                       None \<Rightarrow> ret (fault, [stored_hash user])
                     | Some val \<Rightarrow>
                         ret ((http_redirect ''/'')\<lparr>rp_cookie :=
                                 Some (sessionCookie secure val (quot (kt_session_ttl K) second))\<rparr>,
                              [stored_hash user])))))"

definition handleLogout :: "bool \<Rightarrow> 'b web_handler" where
  "handleLogout secure ctx r =
     ret ((http_redirect ''/login'')\<lparr>rp_cookie := Some (sessionCookie secure [] (-1))\<rparr>)"

end
