(* ===== verification/Http_API.thy ===== *)
theory Http_API
  imports Http_Auth Jobs_Spec Store_Emit
begin

text \<open>
  The REST API (\<^verbatim>\<open>internal/httpserver/api.go\<close>): what it shows of the store's rows, its handlers and
  its routes. A job's settings are decoded and a text is checked for being JSON by arguments.
\<close>

section \<open>Answers and parameters\<close>

definition defaultAPILimit :: int where "defaultAPILimit = 50"
definition maxAPILimit :: int where "maxAPILimit = 200"

definition apiError :: "int \<Rightarrow> string \<Rightarrow> 'b response" where
  "apiError code msg = respond code (ErrorJSON msg)"

definition writeJSON :: "int \<Rightarrow> 'b \<Rightarrow> 'b response" where
  "writeJSON code v = respond code (JSON v)"

definition query_get :: "url_query \<Rightarrow> string \<Rightarrow> string" where
  "query_get qs k = (case qs k of Some (v # _) \<Rightarrow> v | _ \<Rightarrow> [])"

definition parseLimit :: "web_request \<Rightarrow> int" where
  "parseLimit r =
     (let raw = query_get (rq_query r) ''limit''
      in if raw = [] then defaultAPILimit
         else case atoi raw of
           None \<Rightarrow> defaultAPILimit
         | Some n \<Rightarrow> if n \<le> 0 then defaultAPILimit else if n > maxAPILimit then maxAPILimit else n)"

definition pathID :: "web_request \<Rightarrow> int option" where
  "pathID r = (case atoi (wq_id r) of None \<Rightarrow> None | Some i \<Rightarrow> if i \<le> 0 then None else Some i)"

section \<open>What is shown\<close>

record specDTO =
  sd_warn_days :: "int option"
  sd_host :: string
  sd_port :: int
  sd_server_name :: string
  sd_starttls :: string
  sd_insecure :: bool
  sd_ca_file :: string
  sd_renew_after :: "rat option"
  sd_domain :: string
  sd_rdap_url :: string
  sd_expires_at :: gotime
  sd_expiry_command :: string
  sd_restore :: string
  sd_checks :: "string list"
  sd_cleanup :: string
  sd_scratch_dir :: string
  sd_max_duration :: int

definition empty_specDTO :: specDTO where
  "empty_specDTO = \<lparr>sd_warn_days = None, sd_host = [], sd_port = 0, sd_server_name = [], sd_starttls = [], sd_insecure = False,
     sd_ca_file = [], sd_renew_after = None, sd_domain = [], sd_rdap_url = [], sd_expires_at = 0, sd_expiry_command = [],
     sd_restore = [], sd_checks = [], sd_cleanup = [], sd_scratch_dir = [], sd_max_duration = 0\<rparr>"

definition fromSpec :: "(string \<Rightarrow> spec) \<Rightarrow> job \<Rightarrow> specDTO option" where
  "fromSpec decode j =
     (case j_spec j of
        None \<Rightarrow> None
      | Some text \<Rightarrow>
          if \<not> HasSpec (j_type j) then None
          else
            let s = decode text;
                d = empty_specDTO\<lparr>sd_warn_days := (if j_type j \<noteq> Drill then Some (sp_warn_days s) else None)\<rparr>
            in Some (case j_type j of
                 TLS \<Rightarrow> d\<lparr>sd_host := sp_host s, sd_port := sp_port s, sd_server_name := sp_server_name s,
                          sd_starttls := sp_starttls s, sd_insecure := sp_insecure s, sd_ca_file := sp_ca_file s,
                          sd_renew_after := Some (sp_renew_after s)\<rparr>
               | Domain \<Rightarrow> d\<lparr>sd_domain := sp_domain s, sd_rdap_url := sp_rdap_url s\<rparr>
               | Expiry \<Rightarrow> d\<lparr>sd_expires_at := sp_expires_at s, sd_expiry_command := sp_expiry_command s\<rparr>
               | Drill \<Rightarrow> d\<lparr>sd_restore := sp_restore s, sd_checks := sp_checks s, sd_cleanup := sp_cleanup s,
                            sd_scratch_dir := sp_scratch_dir s, sd_max_duration := sp_max_duration s\<rparr>
               | _ \<Rightarrow> d))"

record jobDTO =
  jd_id :: int
  jd_name :: string
  jd_type :: job_type
  jd_command :: string
  jd_http_url :: string
  jd_http_method :: string
  jd_cron :: string
  jd_interval :: int
  jd_timeout :: int
  jd_max_retries :: int
  jd_enabled :: bool
  jd_next_run :: gotime
  jd_created :: gotime
  jd_updated :: gotime
  jd_spec :: "specDTO option"

definition fromJob :: "(string \<Rightarrow> spec) \<Rightarrow> job \<Rightarrow> jobDTO" where
  "fromJob decode j =
     \<lparr>jd_id = j_id j, jd_name = j_name j, jd_type = j_type j, jd_command = j_command j, jd_http_url = j_http_url j,
      jd_http_method = j_http_method j, jd_cron = j_cron j, jd_interval = j_interval j, jd_timeout = j_timeout j,
      jd_max_retries = j_max_retries j, jd_enabled = j_enabled j, jd_next_run = j_next_run j, jd_created = j_created j,
      jd_updated = j_updated j, jd_spec = fromSpec decode j\<rparr>"

record runSummaryDTO =
  rd_id :: int
  rd_job :: int
  rd_status :: run_status
  rd_attempt :: int
  rd_exit :: int
  rd_started :: gotime
  rd_ended :: gotime
  rd_created :: gotime

definition fromRunSummary :: "run \<Rightarrow> runSummaryDTO" where
  "fromRunSummary r =
     \<lparr>rd_id = r_id r, rd_job = r_job r, rd_status = r_status r, rd_attempt = r_attempt r, rd_exit = r_exit r,
      rd_started = r_started r, rd_ended = r_ended r, rd_created = r_created r\<rparr>"

record runDetailDTO = runSummaryDTO +
  rd_output :: string

definition fromRunDetail :: "run \<Rightarrow> runDetailDTO" where
  "fromRunDetail r = runSummaryDTO.extend (fromRunSummary r) (runDetailDTO.fields (r_output r))"

record channelDTO =
  cd_id :: int
  cd_name :: string
  cd_kind :: channel_kind
  cd_created :: gotime

definition fromChannel :: "channel \<Rightarrow> channelDTO" where
  "fromChannel c = \<lparr>cd_id = ch_id c, cd_name = ch_name c, cd_kind = ch_kind c, cd_created = ch_created c\<rparr>"

record ruleDTO =
  ud_id :: int
  ud_channel :: int
  ud_event :: event_type
  ud_enabled :: bool
  ud_job :: int
  ud_created :: gotime
  ud_repeat :: "(int \<times> bool) option"   \<comment> \<open>seconds, and whether that is the default\<close>

definition fromRule :: "rule \<Rightarrow> channel_kind \<Rightarrow> ruleDTO" where
  "fromRule r kind =
     \<lparr>ud_id = ru_id r, ud_channel = ru_channel r, ud_event = ru_event r, ud_enabled = ru_enabled r, ud_job = ru_job r,
      ud_created = ru_created r,
      ud_repeat = (if ru_event r = RunFailed
                   then Some (quot (EffectiveRepeat kind (repeatOf (ru_repeat r))) second, ru_repeat r = None) else None)\<rparr>"

record heartbeatDTO =
  hd_id :: int
  hd_name :: string
  hd_status :: hb_status
  hd_last_seen :: gotime
  hd_period :: int
  hd_grace :: int
  hd_created :: gotime
  hd_started :: gotime
  hd_rid :: string

definition fromHeartbeat :: "heartbeat \<Rightarrow> heartbeatDTO" where
  "fromHeartbeat h =
     \<lparr>hd_id = hb_id h, hd_name = hb_name h, hd_status = hb_status h, hd_last_seen = hb_last_seen h, hd_period = hb_period h,
      hd_grace = hb_grace h, hd_created = hb_created h, hd_started = hb_started h, hd_rid = hb_rid h\<rparr>"

record pingDTO =
  pd_id :: int
  pd_kind :: ping_kind
  pd_exit :: "int option"
  pd_rid :: string
  pd_duration :: "int option"
  pd_body :: string
  pd_created :: gotime

definition fromPing :: "ping \<Rightarrow> pingDTO" where
  "fromPing p =
     \<lparr>pd_id = pg_id p, pd_kind = pg_kind p, pd_exit = pg_exit p, pd_rid = pg_rid p, pd_duration = pg_duration p,
      pd_body = pg_body p, pd_created = pg_created p\<rparr>"

text \<open>A payload as embedded JSON: left out, as it is, or as a JSON string.\<close>

datatype 'p raw_message = Omitted | Verbatim 'p | Quoted string

definition jsonPayload :: "(string \<Rightarrow> bool) \<Rightarrow> payload \<Rightarrow> payload raw_message" where
  "jsonPayload json_valid p =
     (case p of
        PText s \<Rightarrow> if s = [] then Omitted else if json_valid s then Verbatim p else Quoted s
      | _ \<Rightarrow> Verbatim p)"

definition jsonDetail :: "detail \<Rightarrow> detail raw_message" where
  "jsonDetail d = (if d = DNone then Omitted else Verbatim d)"

record eventDTO =
  ed_id :: int
  ed_type :: event_type
  ed_source :: string
  ed_payload :: "payload raw_message"
  ed_created :: gotime
  ed_detail :: "detail raw_message"

definition fromEvent :: "(string \<Rightarrow> bool) \<Rightarrow> event \<Rightarrow> eventDTO" where
  "fromEvent json_valid e =
     \<lparr>ed_id = ev_id e, ed_type = ev_type e, ed_source = ev_source e, ed_payload = jsonPayload json_valid (ev_payload e),
      ed_created = ev_created e, ed_detail = jsonDetail (ev_detail e)\<rparr>"

record secretDTO =
  xd_name :: string
  xd_created :: gotime

definition fromSecret :: "string \<times> gotime \<Rightarrow> secretDTO" where
  "fromSecret m = \<lparr>xd_name = fst m, xd_created = snd m\<rparr>"

datatype dto =
    JobList "jobDTO list" | JobDetail jobDTO
  | RunList "runSummaryDTO list" | RunDetail runDetailDTO
  | ChannelList "channelDTO list" | RuleList "ruleDTO list"
  | HeartbeatList "heartbeatDTO list" | HeartbeatDetail heartbeatDTO
  | EventList "eventDTO list" | PingList "pingDTO list"
  | SecretList "secretDTO list" | RunEnqueued int

section \<open>Handlers\<close>

definition with_principal :: "request_context \<Rightarrow> (int \<Rightarrow> 'b response tx) \<Rightarrow> 'b response tx" where
  "with_principal ctx f =
     (case PrincipalFrom ctx of None \<Rightarrow> ret (apiError 401 ''unauthorized'') | Some p \<Rightarrow> f (pc_org p))"

definition with_id :: "web_request \<Rightarrow> (int \<Rightarrow> 'b response tx) \<Rightarrow> 'b response tx" where
  "with_id r f = (case pathID r of None \<Rightarrow> ret (apiError 400 ''invalid id'') | Some i \<Rightarrow> f i)"

text \<open>A failed store call is a 500; where one row is asked for, one that is missing is a 404.\<close>

definition or_500 :: "'a tx \<Rightarrow> ('a \<Rightarrow> 'b response tx) \<Rightarrow> 'b response tx" where
  "or_500 m f =
     bnd (attempt m) (\<lambda>x. case x of Inl _ \<Rightarrow> ret (apiError 500 ''internal error'') | Inr a \<Rightarrow> f a)"

definition or_404 :: "'a tx \<Rightarrow> ('a \<Rightarrow> 'b response tx) \<Rightarrow> 'b response tx" where
  "or_404 m f =
     bnd (attempt m) (\<lambda>x. case x of
       Inl e \<Rightarrow> ret (if e = ErrNotFound then apiError 404 ''not found'' else apiError 500 ''internal error'')
     | Inr a \<Rightarrow> f a)"

text \<open>\<^verbatim>\<open>ListJobs\<close> returns an error beside the readable jobs when a row cannot be read.\<close>

definition handleListJobs :: "(string \<Rightarrow> spec) \<Rightarrow> dto web_handler" where
  "handleListJobs decode ctx r =
     with_principal ctx (\<lambda>org.
     or_500 (ListJobs org) (\<lambda>(js, unreadable).
     if unreadable \<noteq> [] then ret (apiError 500 ''internal error'')
     else ret (writeJSON 200 (JobList (map (fromJob decode) js)))))"

definition handleGetJob :: "(string \<Rightarrow> spec) \<Rightarrow> dto web_handler" where
  "handleGetJob decode ctx r =
     with_principal ctx (\<lambda>org. with_id r (\<lambda>i.
     or_404 (GetJob org i) (\<lambda>j. ret (writeJSON 200 (JobDetail (fromJob decode j))))))"

definition handleListJobRuns :: "dto web_handler" where
  "handleListJobRuns ctx r =
     with_principal ctx (\<lambda>org. with_id r (\<lambda>i.
     or_500 (ListRuns org i (parseLimit r)) (\<lambda>runs. ret (writeJSON 200 (RunList (map fromRunSummary runs))))))"

definition handleGetRun :: "dto web_handler" where
  "handleGetRun ctx r =
     with_principal ctx (\<lambda>org. with_id r (\<lambda>i.
     or_404 (GetRun org i) (\<lambda>run. ret (writeJSON 200 (RunDetail (fromRunDetail run))))))"

definition handleListChannels :: "dto web_handler" where
  "handleListChannels ctx r =
     with_principal ctx (\<lambda>org.
     or_500 (ListChannels org) (\<lambda>chs. ret (writeJSON 200 (ChannelList (map fromChannel chs)))))"

text \<open>The kind of a rule's channel; a channel that is not there has the empty kind.\<close>

definition kind_of :: "channel list \<Rightarrow> int \<Rightarrow> channel_kind" where
  "kind_of chs i = (case map_of (rev (map (\<lambda>c. (ch_id c, ch_kind c)) chs)) i of None \<Rightarrow> OtherKind [] | Some k \<Rightarrow> k)"

definition handleListRules :: "dto web_handler" where
  "handleListRules ctx r =
     with_principal ctx (\<lambda>org.
     or_500 (ListRules org) (\<lambda>rules.
     or_500 (ListChannels org) (\<lambda>chs.
     ret (writeJSON 200 (RuleList (map (\<lambda>rule. fromRule rule (kind_of chs (ru_channel rule))) rules))))))"

definition handleListHeartbeats :: "dto web_handler" where
  "handleListHeartbeats ctx r =
     with_principal ctx (\<lambda>org.
     or_500 (ListHeartbeats org) (\<lambda>hbs. ret (writeJSON 200 (HeartbeatList (map fromHeartbeat hbs)))))"

definition handleGetHeartbeat :: "dto web_handler" where
  "handleGetHeartbeat ctx r =
     with_principal ctx (\<lambda>org. with_id r (\<lambda>i.
     or_404 (GetHeartbeat org i) (\<lambda>hb. ret (writeJSON 200 (HeartbeatDetail (fromHeartbeat hb))))))"

definition handleHeartbeatHistory :: "(string \<Rightarrow> bool) \<Rightarrow> dto web_handler" where
  "handleHeartbeatHistory json_valid ctx r =
     with_principal ctx (\<lambda>org. with_id r (\<lambda>i.
     or_404 (GetHeartbeat org i) (\<lambda>hb.
     or_500 (ListHeartbeatEvents org (hb_name hb) (parseLimit r)) (\<lambda>evs.
     ret (writeJSON 200 (EventList (map (fromEvent json_valid) evs)))))))"

definition handleHeartbeatPings :: "dto web_handler" where
  "handleHeartbeatPings ctx r =
     with_principal ctx (\<lambda>org. with_id r (\<lambda>i.
     or_404 (GetHeartbeat org i) (\<lambda>_.
     or_500 (listHeartbeatPings org i (parseLimit r)) (\<lambda>pings. ret (writeJSON 200 (PingList (map fromPing pings)))))))"

definition handleHeartbeatsNotCreatable :: "dto web_handler" where
  "handleHeartbeatsNotCreatable ctx r =
     ret ((apiError 405 ''heartbeats are managed via the CLI or YAML sync (tend heartbeat add / tend sync); the API is read-only'')
            \<lparr>rp_allow := Some ''GET''\<rparr>)"

definition handleListEvents :: "(string \<Rightarrow> bool) \<Rightarrow> dto web_handler" where
  "handleListEvents json_valid ctx r =
     with_principal ctx (\<lambda>org.
     or_500 (ListEvents org (parseLimit r)) (\<lambda>evs. ret (writeJSON 200 (EventList (map (fromEvent json_valid) evs)))))"

definition handleListSecrets :: "dto web_handler" where
  "handleListSecrets ctx r =
     with_principal ctx (\<lambda>org.
     or_500 (ListSecrets org) (\<lambda>metas. ret (writeJSON 200 (SecretList (map fromSecret metas)))))"

section \<open>Actions\<close>

definition enqueueJobRun :: "int \<Rightarrow> int \<Rightarrow> int tx" where
  "enqueueJobRun orgID i = bnd (GetJob orgID i) (\<lambda>_. EnqueueRun orgID i)"

definition setJobEnabledCore :: "int \<Rightarrow> int \<Rightarrow> bool \<Rightarrow> job tx" where
  "setJobEnabledCore orgID i enabled =
     bnd (GetJob orgID i) (\<lambda>j.
     let j' = j\<lparr>j_enabled := enabled\<rparr> in bnd (UpdateJob j') (\<lambda>_. ret j'))"

definition handleRunJobNow :: "dto web_handler" where
  "handleRunJobNow ctx r =
     with_principal ctx (\<lambda>org. with_id r (\<lambda>i.
     or_404 (enqueueJobRun org i) (\<lambda>runID. ret (writeJSON 202 (RunEnqueued runID)))))"

definition apiSetJobEnabled :: "(string \<Rightarrow> spec) \<Rightarrow> bool \<Rightarrow> dto web_handler" where
  "apiSetJobEnabled decode enabled ctx r =
     with_principal ctx (\<lambda>org. with_id r (\<lambda>i.
     or_404 (setJobEnabledCore org i enabled) (\<lambda>j. ret (writeJSON 200 (JobDetail (fromJob decode j))))))"

definition handleEnableJob :: "(string \<Rightarrow> spec) \<Rightarrow> dto web_handler" where
  "handleEnableJob decode = apiSetJobEnabled decode True"

definition handleDisableJob :: "(string \<Rightarrow> spec) \<Rightarrow> dto web_handler" where
  "handleDisableJob decode = apiSetJobEnabled decode False"

section \<open>Routes\<close>

text \<open>
  A pattern of \<^verbatim>\<open>http.ServeMux\<close> without wildcards but \<^verbatim>\<open>{id}\<close>: its segments, where \<open>None\<close> is the wildcard,
  which matches one segment that is not empty.
\<close>

type_synonym pattern = "string option list"

fun path_value :: "pattern \<Rightarrow> string list \<Rightarrow> string option" where
  "path_value [] [] = Some []"
| "path_value (None # ps) (s # ss) = (if s = [] then None else map_option (\<lambda>_. s) (path_value ps ss))"
| "path_value (Some p # ps) (s # ss) = (if s = p then path_value ps ss else None)"
| "path_value _ _ = None"

definition allows :: "string \<Rightarrow> string \<Rightarrow> bool" where
  "allows m m' \<longleftrightarrow> m' = m \<or> m = ''GET'' \<and> m' = ''HEAD''"

definition registerAPIRoutes :: "(string \<Rightarrow> spec) \<Rightarrow> (string \<Rightarrow> bool) \<Rightarrow> (string \<times> pattern \<times> dto web_handler) list" where
  "registerAPIRoutes decode json_valid =
     [(''GET'', [Some ''api'', Some ''jobs''], handleListJobs decode),
      (''GET'', [Some ''api'', Some ''jobs'', None], handleGetJob decode),
      (''GET'', [Some ''api'', Some ''jobs'', None, Some ''runs''], handleListJobRuns),
      (''GET'', [Some ''api'', Some ''runs'', None], handleGetRun),
      (''GET'', [Some ''api'', Some ''channels''], handleListChannels),
      (''GET'', [Some ''api'', Some ''rules''], handleListRules),
      (''GET'', [Some ''api'', Some ''heartbeats''], handleListHeartbeats),
      (''GET'', [Some ''api'', Some ''heartbeats'', None], handleGetHeartbeat),
      (''GET'', [Some ''api'', Some ''heartbeats'', None, Some ''history''], handleHeartbeatHistory json_valid),
      (''GET'', [Some ''api'', Some ''heartbeats'', None, Some ''pings''], handleHeartbeatPings),
      (''POST'', [Some ''api'', Some ''heartbeats''], handleHeartbeatsNotCreatable),
      (''GET'', [Some ''api'', Some ''events''], handleListEvents json_valid),
      (''GET'', [Some ''api'', Some ''secrets''], handleListSecrets),
      (''POST'', [Some ''api'', Some ''jobs'', None, Some ''run''], handleRunJobNow),
      (''POST'', [Some ''api'', Some ''jobs'', None, Some ''enable''], handleEnableJob decode),
      (''POST'', [Some ''api'', Some ''jobs'', None, Some ''disable''], handleDisableJob decode)]"

text \<open>
  The gated mux over a table of routes: the route that matches, 405 when only the method does
  not, and 404. No two of these routes match the same request.
\<close>

fun serve_mux :: "(string \<times> pattern \<times> 'b web_handler) list \<Rightarrow> bool \<Rightarrow> 'b web_handler" where
  "serve_mux [] seen ctx r = ret (respond (if seen then 405 else 404) (PlainText (if seen then ''Method Not Allowed'' else ''404 page not found'')))"
| "serve_mux ((m, p, h) # routes) seen ctx r =
     (case path_value p (split_on (CHR ''/'') (drop 1 (rq_path r))) of
        None \<Rightarrow> serve_mux routes seen ctx r
      | Some v \<Rightarrow> if allows m (rq_method r) then h ctx (r\<lparr>wq_id := v\<rparr>) else serve_mux routes True ctx r)"

definition authed :: "bool \<Rightarrow> (string \<Rightarrow> spec) \<Rightarrow> (string \<Rightarrow> bool) \<Rightarrow> dto web_handler" where
  "authed secure decode json_valid =
     serve_mux ((''POST'', [Some ''logout''], handleLogout secure) # registerAPIRoutes decode json_valid) False"

definition serve_api :: "kit \<Rightarrow> bool \<Rightarrow> (string \<Rightarrow> spec) \<Rightarrow> (string \<Rightarrow> bool) \<Rightarrow> web_request \<Rightarrow> dto response tx" where
  "serve_api K secure decode json_valid = requireAuth K (authed secure decode json_valid)"

end
