(* ===== verification/Http_View.thy ===== *)
theory Http_View
  imports Http_API Watcher Store_Steps
begin

text \<open>
  What a caller of the API can learn: the answers, and what the caller's actions leave, are a
  function of the rows of the caller's own organisation without their secrets. The proof
  relates two executions from stores that show the caller the same.
\<close>

section \<open>The view\<close>

record org_view =
  vw_jobs :: "job_row list"
  vw_runs :: "run_row list"
  vw_events :: "event list"
  vw_channels :: "channel list"
  vw_rules :: "rule list"
  vw_hbs :: "hb_row list"
  vw_pings :: "ping_row list"
  vw_secrets :: "secret_row list"
  vw_next_run :: int

definition hide_job :: "job_row \<Rightarrow> job_row" where
  "hide_job r = r\<lparr>jr_job := (jr_job r)\<lparr>j_env := [], j_http_body := []\<rparr>\<rparr>"

definition hide_channel :: "channel \<Rightarrow> channel" where
  "hide_channel c = c\<lparr>ch_config := None\<rparr>"

definition hide_hb :: "hb_row \<Rightarrow> hb_row" where
  "hide_hb r = r\<lparr>hr_token := []\<rparr>"

definition hide_secret :: "secret_row \<Rightarrow> secret_row" where
  "hide_secret s = s\<lparr>se_ciphertext := []\<rparr>"

definition view :: "int \<Rightarrow> db \<Rightarrow> org_view" where
  "view orgID d =
     \<lparr>vw_jobs = map hide_job (filter (\<lambda>r. j_org (jr_job r) = orgID) (t_jobs d)),
      vw_runs = filter (\<lambda>r. rw_org r = orgID) (t_runs d),
      vw_events = filter (\<lambda>e. ev_org e = orgID) (t_events d),
      vw_channels = map hide_channel (filter (\<lambda>c. ch_org c = orgID) (t_channels d)),
      vw_rules = filter (\<lambda>r. ru_org r = orgID) (t_rules d),
      vw_hbs = map hide_hb (filter (\<lambda>r. hr_org r = orgID) (t_hbs d)),
      vw_pings = filter (\<lambda>p. pw_org p = orgID) (t_pings d),
      vw_secrets = map hide_secret (filter (\<lambda>s. se_org s = orgID) (t_secrets (t_accounts d))),
      vw_next_run = n_runs d\<rparr>"

definition same_view :: "int \<Rightarrow> db \<Rightarrow> db \<Rightarrow> bool" where
  "same_view orgID d d' \<longleftrightarrow> view orgID d = view orgID d'"

section \<open>Two executions\<close>

text \<open>
  From stores related by \<open>V\<close> and in the same world the two operations give results related by
  \<open>R\<close>, or the same error, and leave stores related by \<open>V\<close> and the same world.
\<close>

definition related :: "(db \<Rightarrow> db \<Rightarrow> bool) \<Rightarrow> ('a \<Rightarrow> 'b \<Rightarrow> bool) \<Rightarrow> 'a tx \<Rightarrow> 'b tx \<Rightarrow> bool" where
  "related V R m m' \<longleftrightarrow>
     (\<forall>d d' w. V d d' \<longrightarrow>
        rel_sum (=) R (fst (m d w)) (fst (m' d' w))
        \<and> V (fst (snd (m d w))) (fst (snd (m' d' w))) \<and> snd (snd (m d w)) = snd (snd (m' d' w)))"

named_theorems two_runs \<open>rules for \<open>related\<close>\<close>

lemma relatedI:
  assumes "\<And>d d' w x d1 w1 x' d1' w1'. V d d' \<Longrightarrow> m d w = (x, d1, w1) \<Longrightarrow> m' d' w = (x', d1', w1') \<Longrightarrow>
     rel_sum (=) R x x' \<and> V d1 d1' \<and> w1 = w1'"
  shows "related V R m m'"
  unfolding related_def
proof (intro allI impI)
  fix d d' w assume V: "V d d'"
  obtain x d1 w1 x' d1' w1' where "m d w = (x, d1, w1)" "m' d' w = (x', d1', w1')" by (metis prod_cases3)
  with assms [OF V this] show "rel_sum (=) R (fst (m d w)) (fst (m' d' w))
      \<and> V (fst (snd (m d w))) (fst (snd (m' d' w))) \<and> snd (snd (m d w)) = snd (snd (m' d' w))" by simp
qed

lemma relatedD:
  "related V R m m' \<Longrightarrow> V d d' \<Longrightarrow> m d w = (x, d1, w1) \<Longrightarrow> m' d' w = (x', d1', w1') \<Longrightarrow>
   rel_sum (=) R x x' \<and> V d1 d1' \<and> w1 = w1'"
  unfolding related_def by (metis fst_conv snd_conv)

lemma related_ret [two_runs]: "R a b \<Longrightarrow> related V R (ret a) (ret b)"
  by (simp add: related_def ret_def)

lemma related_throw [two_runs]: "related V R (throw e) (throw e)"
  by (simp add: related_def throw_def)

lemma related_query: "(\<And>d d'. V d d' \<Longrightarrow> R (f d) (f' d')) \<Longrightarrow> related V R (query f) (query f')"
  by (simp add: related_def query_def stmt_def split: prod.splits fault.splits)

lemma related_auto_stmt:
  "(\<And>d d'. V d d' \<Longrightarrow> R (fst (f d)) (fst (f' d')) \<and> V (snd (f d)) (snd (f' d'))) \<Longrightarrow>
   related V R (auto_stmt f) (auto_stmt f')"
  by (simp add: related_def auto_stmt_def Let_def case_prod_beta split: fault.split)

lemma related_time_now [two_runs]: "related V (=) time_now time_now"
  by (simp add: related_def time_now_def split: list.splits)

lemma related_bnd:
  assumes "related V R m m'" "\<And>a b. R a b \<Longrightarrow> related V S (f a) (f' b)"
  shows "related V S (bnd m f) (bnd m' f')"
proof (rule relatedI)
  fix d d' w y d2 w2 y' d2' w2'
  assume V: "V d d'" and b: "bnd m f d w = (y, d2, w2)" "bnd m' f' d' w = (y', d2', w2')"
  obtain x d1 w1 x' d1' w1' where e: "m d w = (x, d1, w1)" "m' d' w = (x', d1', w1')" by (metis prod_cases3)
  note r = relatedD [OF assms(1) V e]
  show "rel_sum (=) S y y' \<and> V d2 d2' \<and> w2 = w2'"
  proof (cases x)
    case (Inl err)
    with r e b show ?thesis by (cases x') (auto simp: bnd_def)
  next
    case (Inr a)
    then obtain a' where x': "x' = Inr a'" and R: "R a a'" using r by (cases x') auto
    have "f a d1 w1 = (y, d2, w2)" "f' a' d1' w1 = (y', d2', w2')" using b e Inr x' r by (auto simp: bnd_def)
    with relatedD [OF assms(2) [OF R]] r show ?thesis by blast
  qed
qed

lemma related_attempt: "related V R m m' \<Longrightarrow> related V (rel_sum (=) R) (attempt m) (attempt m')"
  by (simp add: related_def attempt_def case_prod_beta)

section \<open>Reading tables through a view\<close>

lemma hidden_sort:
  "map h xs = map h ys \<Longrightarrow> (\<And>x. k (h x) = k x) \<Longrightarrow> map h (sort_key k xs) = map h (sort_key k ys)"
  using sort_key_map_key [of k h xs] sort_key_map_key [of k h ys] by simp

lemma hidden_filter:
  "map h (filter P xs) = map h (filter P ys) \<Longrightarrow> (\<And>x. Q (h x) = Q x) \<Longrightarrow>
   map h (filter (\<lambda>x. P x \<and> Q x) xs) = map h (filter (\<lambda>x. P x \<and> Q x) ys)"
proof -
  assume e: "map h (filter P xs) = map h (filter P ys)" and q: "\<And>x. Q (h x) = Q x"
  have "map h (filter (\<lambda>x. P x \<and> Q x) zs) = filter Q (map h (filter P zs))" for zs
    by (simp add: filter_map comp_def q conj_commute)
  with e show ?thesis by simp
qed

lemma find_filter: "List.find P xs = (case filter P xs of [] \<Rightarrow> None | x # _ \<Rightarrow> Some x)"
  by (induction xs) auto

lemma hidden_find:
  assumes "map h (filter P xs) = map h (filter P ys)" "\<And>x. Q (h x) = Q x"
  shows "map_option h (List.find (\<lambda>x. P x \<and> Q x) xs) = map_option h (List.find (\<lambda>x. P x \<and> Q x) ys)"
  using hidden_filter [where h = h and P = P and Q = Q, OF assms] unfolding find_filter by (auto split: list.splits)

lemma hidden_map: "map h xs = map h ys \<Longrightarrow> (\<And>x. g (h x) = g x) \<Longrightarrow> map g xs = map g ys"
proof -
  assume e: "map h xs = map h ys" and g: "\<And>x. g (h x) = g x"
  have "map g zs = map g (map h zs)" for zs by (simp add: g)
  with e show ?thesis by metis
qed

lemma hidden_map2: "map h xs = map h ys \<Longrightarrow> (\<And>x y. h x = h y \<Longrightarrow> f x = g y) \<Longrightarrow> map f xs = map g ys"
proof (induction xs arbitrary: ys)
  case (Cons x xs)
  then obtain y ys' where "ys = y # ys'" "h x = h y" "map h xs = map h ys'" by (cases ys) auto
  moreover from this have "f x = g y" by (intro Cons.prems(2))
  moreover have "map f xs = map g ys'" by (rule Cons.IH) (fact calculation(3), erule Cons.prems(2))
  ultimately show ?case by simp
qed simp

section \<open>The store's reads\<close>

lemma hide_simps [simp]:
  "j_org (jr_job (hide_job r1)) = j_org (jr_job r1)" "j_id (jr_job (hide_job r1)) = j_id (jr_job r1)"
  "j_name (jr_job (hide_job r1)) = j_name (jr_job r1)" "jr_unreadable (hide_job r1) = jr_unreadable r1"
  "ch_org (hide_channel c) = ch_org c" "ch_id (hide_channel c) = ch_id c" "ch_kind (hide_channel c) = ch_kind c"
  "fst (scanChannel (hide_channel c)) = fst (scanChannel c)"
  "hr_org (hide_hb r2) = hr_org r2" "hr_id (hide_hb r2) = hr_id r2" "hr_name (hide_hb r2) = hr_name r2"
  "fromHeartbeat (scanHeartbeat (hide_hb r2)) = fromHeartbeat (scanHeartbeat r2)"
  "se_org (hide_secret s) = se_org s" "se_name (hide_secret s) = se_name s" "scanSecretMeta (hide_secret s) = scanSecretMeta s"
  by (simp_all add: hide_job_def hide_channel_def hide_hb_def hide_secret_def scanChannel_def scanHeartbeat_def fromHeartbeat_def
      scanSecretMeta_def)

lemma same_viewD:
  assumes "same_view orgID d d'"
  shows "map hide_job (filter (\<lambda>r. j_org (jr_job r) = orgID) (t_jobs d)) = map hide_job (filter (\<lambda>r. j_org (jr_job r) = orgID) (t_jobs d'))"
    and "filter (\<lambda>r. rw_org r = orgID) (t_runs d) = filter (\<lambda>r. rw_org r = orgID) (t_runs d')"
    and "filter (\<lambda>e. ev_org e = orgID) (t_events d) = filter (\<lambda>e. ev_org e = orgID) (t_events d')"
    and "map hide_channel (filter (\<lambda>c. ch_org c = orgID) (t_channels d)) = map hide_channel (filter (\<lambda>c. ch_org c = orgID) (t_channels d'))"
    and "filter (\<lambda>r. ru_org r = orgID) (t_rules d) = filter (\<lambda>r. ru_org r = orgID) (t_rules d')"
    and "map hide_hb (filter (\<lambda>r. hr_org r = orgID) (t_hbs d)) = map hide_hb (filter (\<lambda>r. hr_org r = orgID) (t_hbs d'))"
    and "filter (\<lambda>p. pw_org p = orgID) (t_pings d) = filter (\<lambda>p. pw_org p = orgID) (t_pings d')"
    and "map hide_secret (filter (\<lambda>s. se_org s = orgID) (t_secrets (t_accounts d)))
      = map hide_secret (filter (\<lambda>s. se_org s = orgID) (t_secrets (t_accounts d')))"
    and "n_runs d = n_runs d'"
  using assms by (auto simp: same_view_def view_def)

lemma plain_filter: "filter P xs = filter P ys \<Longrightarrow> filter (\<lambda>x. P x \<and> Q x) xs = filter (\<lambda>x. P x \<and> Q x) ys"
  using hidden_filter [of id P xs ys Q] by simp

lemma plain_find: "filter P xs = filter P ys \<Longrightarrow> List.find (\<lambda>x. P x \<and> Q x) xs = List.find (\<lambda>x. P x \<and> Q x) ys"
  unfolding find_filter using plain_filter [of P xs ys Q] by simp

lemma hidden_list:
  assumes "map h (filter P xs) = map h (filter P ys)" "\<And>x. k (h x) = k x" "\<And>x. g (h x) = g x"
  shows "map g (sort_key k (filter P xs)) = map g (sort_key k (filter P ys))"
  by (rule hidden_map [of h], rule hidden_sort) (rule assms)+

lemma reads_related [two_runs]:
  "related (same_view orgID) (=) (ListRuns orgID i n) (ListRuns orgID i n)"
  "related (same_view orgID) (=) (ListChannels orgID) (ListChannels orgID)"
  "related (same_view orgID) (=) (ListRules orgID) (ListRules orgID)"
  "related (same_view orgID) (=) (ListEvents orgID n) (ListEvents orgID n)"
  "related (same_view orgID) (=) (ListSecrets orgID) (ListSecrets orgID)"
  "related (same_view orgID) (=) (ListHeartbeatEvents orgID name n) (ListHeartbeatEvents orgID name n)"
  "related (same_view orgID) (=) (listHeartbeatPings orgID i n) (listHeartbeatPings orgID i n)"
proof -
  note q = related_query [where R = "(=)" and V = "same_view orgID"]
  show "related (same_view orgID) (=) (ListRuns orgID i n) (ListRuns orgID i n)"
    unfolding ListRuns_def by (rule q) (simp only: plain_filter [OF same_viewD(2)])
  show "related (same_view orgID) (=) (ListChannels orgID) (ListChannels orgID)"
    unfolding ListChannels_def by (rule q) (rule hidden_list [OF same_viewD(4)]; simp)
  show "related (same_view orgID) (=) (ListRules orgID) (ListRules orgID)"
    unfolding ListRules_def by (rule q) (simp only: same_viewD(5))
  show "related (same_view orgID) (=) (ListEvents orgID n) (ListEvents orgID n)"
    unfolding ListEvents_def by (rule q) (simp only: same_viewD(3))
  show "related (same_view orgID) (=) (ListSecrets orgID) (ListSecrets orgID)"
    unfolding ListSecrets_def get_accounts_def by (rule q) (rule hidden_list [OF same_viewD(8)]; simp)
  show "related (same_view orgID) (=) (ListHeartbeatEvents orgID name n) (ListHeartbeatEvents orgID name n)"
    unfolding ListHeartbeatEvents_def by (rule q) (simp only: plain_filter [OF same_viewD(3)])
  have "filter (\<lambda>p. pw_org p = orgID) (hb_log i d) = filter (\<lambda>p. pw_org p = orgID) (hb_log i d')" if "same_view orgID d d'" for d d'
    using plain_filter [OF same_viewD(7) [OF that], of "\<lambda>p. pw_hb p = i"]
    by (simp add: hb_log_def filter_sort rev_filter [symmetric] conj_commute)
  then show "related (same_view orgID) (=) (listHeartbeatPings orgID i n) (listHeartbeatPings orgID i n)"
    unfolding listHeartbeatPings_def by (intro q) simp
qed

lemma rel_hidden: "map_option h a = map_option h b \<Longrightarrow> rel_option (\<lambda>x y. h x = h y) a b"
  by (cases a; cases b) simp_all

lemma or_none_related: "rel_option R a b \<Longrightarrow> (\<And>x y. R x y \<Longrightarrow> S (f x) (g y)) \<Longrightarrow> related V S (or_none a f) (or_none b g)"
  by (cases a; cases b) (auto simp: or_none_def intro: two_runs)

lemma GetRun_related [two_runs]: "related (same_view orgID) (=) (GetRun orgID i) (GetRun orgID i)"
  unfolding GetRun_def
  by (rule related_bnd [OF related_query [where R = "(=)"]]) (auto simp: plain_find [OF same_viewD(2)] intro!: or_none_related [where R = "(=)"] option.rel_refl)

lemma ListHeartbeats_related [two_runs]:
  "related (same_view orgID) (\<lambda>a b. map fromHeartbeat a = map fromHeartbeat b) (ListHeartbeats orgID) (ListHeartbeats orgID)"
  unfolding ListHeartbeats_def map_map
  by (rule related_query) (use hidden_list [OF same_viewD(6), where k = hr_id and g = "fromHeartbeat \<circ> scanHeartbeat"] in simp)

lemma GetHeartbeat_related [two_runs]:
  "related (same_view orgID) (\<lambda>a b. fromHeartbeat a = fromHeartbeat b \<and> hb_name a = hb_name b) (GetHeartbeat orgID i) (GetHeartbeat orgID i)"
  unfolding GetHeartbeat_def
proof (rule related_bnd [OF related_query])
  fix d d'
  assume "same_view orgID d d'"
  from hidden_find [OF same_viewD(6) [OF this], of "\<lambda>r. hr_id r = i"]
  show "rel_option (\<lambda>a b. hide_hb a = hide_hb b) (List.find (\<lambda>r. hr_org r = orgID \<and> hr_id r = i) (t_hbs d))
      (List.find (\<lambda>r. hr_org r = orgID \<and> hr_id r = i) (t_hbs d'))"
    by (simp add: rel_hidden)
next
  fix a b :: "hb_row option"
  assume "rel_option (\<lambda>a b. hide_hb a = hide_hb b) a b"
  then show "related (same_view orgID) (\<lambda>a b. fromHeartbeat a = fromHeartbeat b \<and> hb_name a = hb_name b) (or_none a scanHeartbeat) (or_none b scanHeartbeat)"
  proof (rule or_none_related)
    fix x y assume e: "hide_hb x = hide_hb y"
    then have "hr_name x = hr_name y" by (metis hide_simps(11))
    moreover have "fromHeartbeat (scanHeartbeat x) = fromHeartbeat (scanHeartbeat y)" using e by (metis hide_simps(12))
    ultimately show "fromHeartbeat (scanHeartbeat x) = fromHeartbeat (scanHeartbeat y) \<and> hb_name (scanHeartbeat x) = hb_name (scanHeartbeat y)"
      by (simp add: scanHeartbeat_def)
  qed
qed

section \<open>Jobs\<close>

definition shown :: "job \<Rightarrow> job" where
  "shown j = j\<lparr>j_env := [], j_http_body := []\<rparr>"

abbreviation same_job :: "job \<Rightarrow> job \<Rightarrow> bool" where
  "same_job j j' \<equiv> shown j = shown j'"

lemma shown_sel: "j_type (shown j) = j_type j" "j_spec (shown j) = j_spec j"
  by (simp_all add: shown_def)

lemma fromJob_shown: "fromJob decode (shown j) = fromJob decode j"
proof -
  have "fromSpec decode (shown j) = fromSpec decode j" by (simp only: fromSpec_def shown_sel)
  then show ?thesis by (simp add: fromJob_def) (simp add: shown_def)
qed

lemma same_job_dto: "same_job j j' \<Longrightarrow> fromJob decode j = fromJob decode j'"
  by (metis fromJob_shown)

lemma hide_job_shown: "hide_job r = hide_job r' \<longleftrightarrow> same_job (jr_job r) (jr_job r') \<and> r\<lparr>jr_job := undefined\<rparr> = r'\<lparr>jr_job := undefined\<rparr>"
  by (cases r, cases r') (auto simp: hide_job_def shown_def)

lemma scanJob_related:
  assumes "hide_job r = hide_job r'"
  shows "rel_sum (=) same_job (scanJob r) (scanJob r')"
proof -
  have "same_job (jr_job r) (jr_job r')" "jr_unreadable r = jr_unreadable r'" "j_id (jr_job r) = j_id (jr_job r')"
    "j_type (jr_job r) = j_type (jr_job r')"
    using assms by (cases "jr_job r", cases "jr_job r'", cases r, cases r', auto simp: hide_job_def shown_def)+
  then show ?thesis by (cases "jr_job r", cases "jr_job r'") (auto simp: scanJob_def Let_def shown_def)
qed

lemma row_or_error: "rel_sum (=) R x y \<Longrightarrow>
   related V R (case x of Inl e \<Rightarrow> throw e | Inr j \<Rightarrow> ret j) (case y of Inl e \<Rightarrow> throw e | Inr j \<Rightarrow> ret j)"
  by (cases x; cases y) (auto intro: two_runs)

lemma find_job_hidden:
  assumes "same_view orgID d d'"
  shows "rel_option (\<lambda>x y. hide_job x = hide_job y) (find_job orgID i d) (find_job orgID i d')"
  using hidden_find [OF same_viewD(1) [OF assms], of "\<lambda>r. j_id (jr_job r) = i"] by (simp add: find_job_def rel_hidden)

lemma GetJob_related [two_runs]: "related (same_view orgID) same_job (GetJob orgID i) (GetJob orgID i)"
  unfolding GetJob_def
proof (rule related_bnd [where R = "rel_option (\<lambda>x y. hide_job x = hide_job y)"])
  show "related (same_view orgID) (rel_option (\<lambda>x y. hide_job x = hide_job y)) (query (find_job orgID i)) (query (find_job orgID i))"
    by (rule related_query) (rule find_job_hidden)
  fix a b :: "job_row option"
  assume "rel_option (\<lambda>x y. hide_job x = hide_job y) a b"
  then show "related (same_view orgID) same_job
      (case a of None \<Rightarrow> throw ErrNotFound | Some r \<Rightarrow> (case scanJob r of Inl e \<Rightarrow> throw e | Inr j \<Rightarrow> ret j))
      (case b of None \<Rightarrow> throw ErrNotFound | Some r \<Rightarrow> (case scanJob r of Inl e \<Rightarrow> throw e | Inr j \<Rightarrow> ret j))"
    by (cases a; cases b) (auto intro: two_runs row_or_error scanJob_related)
qed

lemma scanJobs_hidden:
  "map hide_job xs = map hide_job ys \<Longrightarrow>
   map shown (fst (scanJobs xs)) = map shown (fst (scanJobs ys)) \<and> (snd (scanJobs xs) = [] \<longleftrightarrow> snd (scanJobs ys) = [])"
proof (induction xs arbitrary: ys)
  case (Cons x xs)
  then obtain y ys' where ys: "ys = y # ys'" and h: "hide_job x = hide_job y" and t: "map hide_job xs = map hide_job ys'" by auto
  from scanJob_related [OF h] Cons.IH [OF t] show ?case
    unfolding ys by (cases "scanJob x"; cases "scanJob y") (auto simp: scanJobs_def List.map_filter_simps)
qed (simp add: scanJobs_def List.map_filter_simps)

lemma ListJobs_related [two_runs]:
  "related (same_view orgID) (\<lambda>a b. map shown (fst a) = map shown (fst b) \<and> (snd a = [] \<longleftrightarrow> snd b = [])) (ListJobs orgID) (ListJobs orgID)"
  unfolding ListJobs_def
  by (rule related_query) (rule scanJobs_hidden, rule hidden_sort [OF same_viewD(1)]; simp)

lemma EnqueueRun_related [two_runs]: "related (same_view orgID) (=) (EnqueueRun orgID i) (EnqueueRun orgID i)"
  unfolding EnqueueRun_def
  by (rule related_bnd [OF related_time_now], rule related_auto_stmt)
    (auto simp: add_run_def pending_run_def same_view_def view_def)

lemma name_taken_hidden:
  assumes "same_view orgID d d'"
  shows "name_taken orgID name i d = name_taken orgID name i d'"
proof -
  have "name_taken orgID name i d \<longleftrightarrow>
      (\<exists>r \<in> set (map hide_job (filter (\<lambda>r. j_org (jr_job r) = orgID) (t_jobs d))). j_name (jr_job r) = name \<and> j_id (jr_job r) \<noteq> i)" for d
    by (auto simp: name_taken_def)
  with same_viewD(1) [OF assms] show ?thesis by metis
qed

lemma update_hidden:
  "same_job j j' \<Longrightarrow> hide_job r = hide_job r' \<Longrightarrow> hide_job (update_job_row j now r) = hide_job (update_job_row j' now r')"
  by (cases j, cases j', cases r, cases r', cases "jr_job r", cases "jr_job r'")
    (auto simp: hide_job_def shown_def update_job_row_def storedCommand_def)

lemma same_view_update:
  assumes "same_view orgID d d'" "same_job j j'"
  shows "same_view orgID (set_job_rows orgID i (update_job_row j now) d) (set_job_rows orgID i (update_job_row j' now) d')"
proof -
  have o: "j_org (jr_job (update_job_row k now r)) = j_org (jr_job r)" for k r by (simp add: update_job_row_def)
  have "map hide_job (filter (\<lambda>r. j_org (jr_job r) = orgID)
      (map (\<lambda>r. if j_org (jr_job r) = orgID \<and> j_id (jr_job r) = i then update_job_row k now r else r) xs))
    = map (\<lambda>r. hide_job (if j_id (jr_job r) = i then update_job_row k now r else r)) (filter (\<lambda>r. j_org (jr_job r) = orgID) xs)" for k xs
    by (induction xs) (auto simp: o)
  then have f: "map hide_job (filter (\<lambda>r. j_org (jr_job r) = orgID) (t_jobs (set_job_rows orgID i (update_job_row k now) e)))
    = map (\<lambda>r. hide_job (if j_id (jr_job r) = i then update_job_row k now r else r)) (filter (\<lambda>r. j_org (jr_job r) = orgID) (t_jobs e))" for k e
    by (simp add: set_job_rows_def)
  have "hide_job (if j_id (jr_job r) = i then update_job_row j now r else r)
      = hide_job (if j_id (jr_job r') = i then update_job_row j' now r' else r')" if "hide_job r = hide_job r'" for r r'
  proof -
    have "j_id (jr_job r) = j_id (jr_job r')" using that by (metis hide_simps(2))
    then show ?thesis using that update_hidden [OF assms(2) that] by simp
  qed
  from hidden_map2 [OF same_viewD(1) [OF assms(1)] this] show ?thesis
    using assms(1) unfolding same_view_def view_def f by (simp add: set_job_rows_def)
qed

lemma UpdateJob_related [two_runs]:
  assumes "j_org j = orgID" "j_org j' = orgID" "same_job j j'"
  shows "related (same_view orgID) (=) (UpdateJob j) (UpdateJob j')"
proof -
  have e: "j_name j = j_name j'" "j_id j = j_id j'" using assms(3) by (cases j, cases j', auto simp: shown_def)+
  have f: "find_job orgID i d = None \<longleftrightarrow> find_job orgID i d' = None" if "same_view orgID d d'" for d d' i
    using find_job_hidden [OF that, of i] by (auto simp: option.rel_sel)
  show ?thesis unfolding UpdateJob_def
  proof (rule related_bnd [OF related_time_now], hypsubst, rule related_bnd [OF related_auto_stmt [where R = "(=)"]])
    fix now d d'
    assume v: "same_view orgID d d'"
    show "fst (if find_job (j_org j) (j_id j) d = None then (Inl ErrNotFound, d)
        else if name_taken (j_org j) (j_name j) (j_id j) d then (Inl DbError, d)
        else (Inr (), set_job_rows (j_org j) (j_id j) (update_job_row j now) d))
      = fst (if find_job (j_org j') (j_id j') d' = None then (Inl ErrNotFound, d')
        else if name_taken (j_org j') (j_name j') (j_id j') d' then (Inl DbError, d')
        else (Inr (), set_job_rows (j_org j') (j_id j') (update_job_row j' now) d'))
      \<and> same_view orgID (snd (if find_job (j_org j) (j_id j) d = None then (Inl ErrNotFound, d)
        else if name_taken (j_org j) (j_name j) (j_id j) d then (Inl DbError, d)
        else (Inr (), set_job_rows (j_org j) (j_id j) (update_job_row j now) d)))
       (snd (if find_job (j_org j') (j_id j') d' = None then (Inl ErrNotFound, d')
        else if name_taken (j_org j') (j_name j') (j_id j') d' then (Inl DbError, d')
        else (Inr (), set_job_rows (j_org j') (j_id j') (update_job_row j' now) d')))"
      using v f [OF v] name_taken_hidden [OF v] same_view_update [OF v assms(3)] by (simp add: assms e)
  qed (auto intro: two_runs split: sum.split)
qed

section \<open>The API\<close>

lemma or_500_related:
  "related V R m m' \<Longrightarrow> (\<And>a b. R a b \<Longrightarrow> related V (=) (f a) (f' b)) \<Longrightarrow> related V (=) (or_500 m f) (or_500 m' f')"
  unfolding or_500_def by (rule related_bnd [OF related_attempt]) (auto intro: two_runs split: sum.splits)

lemma or_404_related:
  "related V R m m' \<Longrightarrow> (\<And>a b. R a b \<Longrightarrow> related V (=) (f a) (f' b)) \<Longrightarrow> related V (=) (or_404 m f) (or_404 m' f')"
  unfolding or_404_def by (rule related_bnd [OF related_attempt]) (auto intro: two_runs split: sum.splits)

lemma job_answer_related:
  assumes "related V same_job m m'"
  shows "related V (=) (or_404 m (\<lambda>j. ret (writeJSON code (JobDetail (fromJob decode j)))))
    (or_404 m' (\<lambda>j. ret (writeJSON code (JobDetail (fromJob decode j)))))"
  by (rule or_404_related [OF assms], rule related_ret, rule arg_cong [of _ _ "\<lambda>x. writeJSON code (JobDetail x)"], rule same_job_dto)

lemma with_id_related: "(\<And>i. related V (=) (f i) (f i)) \<Longrightarrow> related V (=) (with_id r f) (with_id r f)"
  by (auto simp: with_id_def intro: two_runs split: option.split)

definition discreet :: "int \<Rightarrow> 'b web_handler \<Rightarrow> bool" where
  "discreet orgID h \<longleftrightarrow> (\<forall>ctx r. map_option pc_org (PrincipalFrom ctx) = Some orgID \<longrightarrow> related (same_view orgID) (=) (h ctx r) (h ctx r))"

lemma discreetI:
  assumes "\<And>ctx r. h ctx r = with_principal ctx (g r)" "\<And>r. related (same_view orgID) (=) (g r orgID) (g r orgID)"
  shows "discreet orgID h"
  unfolding discreet_def
proof (intro allI impI)
  fix ctx r assume "map_option pc_org (PrincipalFrom ctx) = Some orgID"
  then obtain p where "PrincipalFrom ctx = Some p" "pc_org p = orgID" by auto
  with assms(2) [of r] show "related (same_view orgID) (=) (h ctx r) (h ctx r)" by (simp add: assms(1) with_principal_def)
qed

lemma discreet_lists:
  "discreet orgID (handleListJobs decode)" "discreet orgID handleListJobRuns" "discreet orgID handleListChannels"
  "discreet orgID handleListRules" "discreet orgID handleListHeartbeats" "discreet orgID (handleListEvents json_valid)"
  "discreet orgID handleListSecrets"
proof -
  have j: "map (fromJob decode) xs = map (fromJob decode) ys" if "map shown xs = map shown ys" for xs ys
    using that by (rule hidden_map) (rule fromJob_shown)
  show "discreet orgID (handleListJobs decode)"
    by (rule discreetI, rule handleListJobs_def) (rule or_500_related [OF ListJobs_related]; auto intro!: two_runs dest: j split: prod.splits)
  show "discreet orgID handleListJobRuns"
    by (rule discreetI, rule handleListJobRuns_def) (rule with_id_related, rule or_500_related [OF reads_related(1)]; auto intro!: two_runs)
  show "discreet orgID handleListChannels"
    by (rule discreetI, rule handleListChannels_def) (rule or_500_related [OF reads_related(2)]; auto intro!: two_runs)
  show "discreet orgID handleListRules"
    by (rule discreetI, rule handleListRules_def)
      (rule or_500_related [OF reads_related(3)], rule or_500_related [OF reads_related(2)]; auto intro!: two_runs)
  show "discreet orgID handleListHeartbeats"
    by (rule discreetI, rule handleListHeartbeats_def) (rule or_500_related [OF ListHeartbeats_related]; auto intro!: two_runs)
  show "discreet orgID (handleListEvents json_valid)"
    by (rule discreetI, rule handleListEvents_def) (rule or_500_related [OF reads_related(4)]; auto intro!: two_runs)
  show "discreet orgID handleListSecrets"
    by (rule discreetI, rule handleListSecrets_def) (rule or_500_related [OF reads_related(5)]; auto intro!: two_runs)
qed

lemma discreet_rows:
  "discreet orgID (handleGetJob decode)" "discreet orgID handleGetRun" "discreet orgID handleGetHeartbeat"
  "discreet orgID (handleHeartbeatHistory json_valid)" "discreet orgID handleHeartbeatPings"
proof -
  show "discreet orgID (handleGetJob decode)"
    by (rule discreetI, rule handleGetJob_def) (rule with_id_related, rule job_answer_related [OF GetJob_related])
  show "discreet orgID handleGetRun"
    by (rule discreetI, rule handleGetRun_def) (rule with_id_related, rule or_404_related [OF GetRun_related]; auto intro!: two_runs)
  show "discreet orgID handleGetHeartbeat"
    by (rule discreetI, rule handleGetHeartbeat_def) (rule with_id_related, rule or_404_related [OF GetHeartbeat_related]; auto intro!: two_runs)
  show "discreet orgID (handleHeartbeatHistory json_valid)"
    by (rule discreetI, rule handleHeartbeatHistory_def)
      (rule with_id_related, rule or_404_related [OF GetHeartbeat_related], elim conjE, simp only:,
       rule or_500_related [OF reads_related(6)]; auto intro!: two_runs)
  show "discreet orgID handleHeartbeatPings"
    by (rule discreetI, rule handleHeartbeatPings_def)
      (rule with_id_related, rule or_404_related [OF GetHeartbeat_related], rule or_500_related [OF reads_related(7)]; auto intro!: two_runs)
qed

lemma enqueueJobRun_related: "related (same_view orgID) (=) (enqueueJobRun orgID i) (enqueueJobRun orgID i)"
  unfolding enqueueJobRun_def by (rule related_bnd [OF GetJob_related]) (rule EnqueueRun_related)

lemma GetJob_org: "triple P (GetJob orgID i) (\<lambda>j _. j_org j = orgID)"
  unfolding GetJob_def
  by (rule tripleI)
    (auto simp: bnd_def query_def stmt_def ret_def throw_def find_job_def scanJob_def Let_def dest!: find_Some_iff_set
      split: prod.splits sum.splits fault.splits option.splits if_splits)

lemma related_strengthen:
  assumes "related V R m m'" "triple (\<lambda>_. True) m (\<lambda>a _. Q a)" "triple (\<lambda>_. True) m' (\<lambda>a _. Q' a)"
  shows "related V (\<lambda>a b. R a b \<and> Q a \<and> Q' b) m m'"
proof (rule relatedI)
  fix d d' w x d1 w1 x' d1' w1'
  assume "V d d'" and e: "m d w = (x, d1, w1)" "m' d' w = (x', d1', w1')"
  from relatedD [OF assms(1) this] show "rel_sum (=) (\<lambda>a b. R a b \<and> Q a \<and> Q' b) x x' \<and> V d1 d1' \<and> w1 = w1'"
    using tripleD [OF assms(2) TrueI] tripleD [OF assms(3) TrueI] e by (cases x; cases x') auto
qed

lemma setJobEnabledCore_related:
  "related (same_view orgID) same_job (setJobEnabledCore orgID i enabled) (setJobEnabledCore orgID i enabled)"
  unfolding setJobEnabledCore_def Let_def
proof (rule related_bnd [OF related_strengthen [OF GetJob_related GetJob_org GetJob_org]], elim conjE)
  fix a b
  assume "same_job a b" and o: "j_org a = orgID" "j_org b = orgID"
  then have s: "same_job (a\<lparr>j_enabled := enabled\<rparr>) (b\<lparr>j_enabled := enabled\<rparr>)"
    by (cases a, cases b) (simp add: shown_def)
  show "related (same_view orgID) same_job (bnd (UpdateJob (a\<lparr>j_enabled := enabled\<rparr>)) (\<lambda>_. ret (a\<lparr>j_enabled := enabled\<rparr>)))
      (bnd (UpdateJob (b\<lparr>j_enabled := enabled\<rparr>)) (\<lambda>_. ret (b\<lparr>j_enabled := enabled\<rparr>)))"
    by (rule related_bnd [OF UpdateJob_related]) (use o s in \<open>auto intro: two_runs\<close>)
qed

lemma discreet_actions:
  "discreet orgID handleRunJobNow" "discreet orgID (apiSetJobEnabled decode enabled)"
  "discreet orgID handleHeartbeatsNotCreatable" "discreet orgID (handleLogout secure)"
proof -
  show "discreet orgID handleRunJobNow"
    by (rule discreetI, rule handleRunJobNow_def) (rule with_id_related, rule or_404_related [OF enqueueJobRun_related]; simp add: two_runs)
  show "discreet orgID (apiSetJobEnabled decode enabled)"
    by (rule discreetI, rule apiSetJobEnabled_def)
      (rule with_id_related, rule job_answer_related [OF setJobEnabledCore_related])
qed (simp_all add: discreet_def handleHeartbeatsNotCreatable_def handleLogout_def two_runs)

lemma serve_mux_discreet:
  assumes "\<forall>(m, p, h) \<in> set routes. discreet orgID h"
  shows "discreet orgID (serve_mux routes seen)"
  unfolding discreet_def
proof (intro allI impI)
  fix ctx r
  assume p: "map_option pc_org (PrincipalFrom ctx) = Some orgID"
  show "related (same_view orgID) (=) (serve_mux routes seen ctx r) (serve_mux routes seen ctx r)"
    using assms
  proof (induction routes arbitrary: seen)
    case (Cons x routes)
    obtain m pt h where x: "x = (m, pt, h)" by (cases x) auto
    with Cons p show ?case by (auto simp: discreet_def split: option.split)
  qed (simp add: two_runs)
qed

lemma api_discreet: "discreet orgID (authed secure decode json_valid)"
  unfolding authed_def
  by (rule serve_mux_discreet)
    (simp add: registerAPIRoutes_def discreet_lists discreet_rows discreet_actions handleEnableJob_def handleDisableJob_def)

text \<open>
  C16: What a caller learns from the API is a function of the rows of the caller's organisation
  with their secrets hidden (job environments and request bodies, channel settings, heartbeat
  tokens, secret ciphertexts): from two stores that agree on those, every request gets the same
  answer in the same world, whatever faults there are, and leaves two stores that again agree.
  Passwords, API tokens and rows of other organisations play no part at all.
\<close>

theorem api_shows_own_view:
  assumes "PrincipalFrom ctx = Some p" "view (pc_org p) d = view (pc_org p) d'"
  shows "fst (authed secure decode json_valid ctx r d w) = fst (authed secure decode json_valid ctx r d' w)
    \<and> view (pc_org p) (fst (snd (authed secure decode json_valid ctx r d w)))
      = view (pc_org p) (fst (snd (authed secure decode json_valid ctx r d' w)))"
proof -
  have "related (same_view (pc_org p)) (=) (authed secure decode json_valid ctx r) (authed secure decode json_valid ctx r)"
    using api_discreet [of "pc_org p" secure decode json_valid] assms(1) by (simp add: discreet_def)
  from this [unfolded related_def same_view_def sum.rel_eq, rule_format, OF assms(2), of w] show ?thesis by (elim conjE) (intro conjI)
qed

text \<open>Two stores that differ in a heartbeat's token, and a request for the heartbeats.\<close>

definition token_db :: "string \<Rightarrow> db" where
  "token_db token = empty_db\<lparr>t_hbs := [\<lparr>hr_id = 1, hr_org = 1, hr_name = ''cron'', hr_token = token, hr_last_seen = None,
     hr_period = 60, hr_grace = 30, hr_status = HbNew, hr_created = 0, hr_started = None, hr_rid = []\<rparr>], n_hbs := 2\<rparr>"

definition token_context :: request_context where
  "token_context = Some \<lparr>ar_principal = \<lparr>pc_org = 1, pc_user = 0, pc_role = ''token''\<rparr>, ar_session = None, ar_by_cookie = False, ar_csrf = []\<rparr>"

definition get_request :: "string \<Rightarrow> web_request" where
  "get_request path = \<lparr>rq_method = ''GET'', rq_path = path, rq_query = (\<lambda>_. None), rq_body = NoBody, rq_client = [],
     wq_cookie = None, wq_authorization = [], wq_csrf_header = [], wq_form = (\<lambda>_. []), wq_form_error = False, wq_id = []\<rparr>"

theorem api_shows_own_view_witness:
  "fst (authed True (\<lambda>_. zero_spec) (\<lambda>_. False) token_context (get_request ''/api/heartbeats'') (token_db ''one'') (quiet 0))
     = fst (authed True (\<lambda>_. zero_spec) (\<lambda>_. False) token_context (get_request ''/api/heartbeats'') (token_db ''two'') (quiet 0))
   \<and> token_db ''one'' \<noteq> token_db ''two''"
proof -
  have v: "view 1 (token_db ''one'') = view 1 (token_db ''two'')" by (simp add: view_def token_db_def hide_hb_def)
  have p: "PrincipalFrom token_context = Some \<lparr>pc_org = 1, pc_user = 0, pc_role = ''token''\<rparr>"
    by (simp add: PrincipalFrom_def token_context_def)
  have "hr_token (hd (t_hbs (token_db t))) = t" for t by (simp add: token_db_def)
  from this [of "''one''"] this [of "''two''"] have "token_db ''one'' \<noteq> token_db ''two''" by auto
  with api_shows_own_view [OF p, of "token_db ''one''" "token_db ''two''"] v show ?thesis by simp
qed

end
