(* ===== verification/Http_Laws.thy ===== *)
theory Http_Laws
  imports Http_View Store_Total
begin

text \<open>
  Who may act through the API and on what: every change of the store comes from a POST with a
  bearer token, or with a session and its token against cross-site requests, and stays inside
  the organisation of that credential. Login hands out a session only for the right password.
\<close>

section \<open>Actions stay in the caller's organisation\<close>

text \<open>What the caller of an organisation may do: enqueue a run of a job or switch a job on or off.\<close>

definition acted :: "int \<Rightarrow> db \<Rightarrow> db \<Rightarrow> bool" where
  "acted orgID d d' \<longleftrightarrow>
     (\<exists>i row. find_job orgID i d = Some row
        \<and> ((\<exists>now. d' = snd (add_run (pending_run orgID i now) d))
           \<or> (\<exists>j b now. scanJob row = Inr j \<and> d' = set_job_rows orgID i (update_job_row (j\<lparr>j_enabled := b\<rparr>) now) d)))"

lemma unchanged: "keeps (\<lambda>e. e = d) m \<Longrightarrow> fst (snd (m d w)) = d"
  by (simp add: keeps_def)

lemma GetJob_result:
  assumes "GetJob orgID i d w = (x, d', w')"
  shows "d' = d" "x = Inr j \<Longrightarrow> \<exists>row. find_job orgID i d = Some row \<and> scanJob row = Inr j"
  using assms
  by (auto simp: GetJob_def bnd_def query_def stmt_def ret_def throw_def split: prod.splits sum.splits fault.splits option.splits)

lemma auto_stmt_result: "auto_stmt f d w = (x, d', w') \<Longrightarrow> d' = d \<or> d' = snd (f d)"
  by (auto simp: auto_stmt_def Let_def split: prod.splits fault.splits)

lemma enqueue_acts: "fst (snd (enqueueJobRun orgID i d w)) = d \<or> acted orgID d (fst (snd (enqueueJobRun orgID i d w)))"
proof -
  obtain x d1 w1 where g: "GetJob orgID i d w = (x, d1, w1)" using prod_cases3 by blast
  show ?thesis
  proof (cases x)
    case (Inr j)
    obtain y d2 w2 where e: "EnqueueRun orgID i d w1 = (y, d2, w2)" using prod_cases3 by blast
    have "d2 = d \<or> (\<exists>now. d2 = snd (add_run (pending_run orgID i now) d))"
      using e by (auto simp: EnqueueRun_def bnd_def time_now_def split: list.splits dest!: auto_stmt_result)
    with g e Inr GetJob_result [OF g] show ?thesis by (fastforce simp: enqueueJobRun_def bnd_def acted_def)
  qed (use g GetJob_result [OF g] in \<open>simp add: enqueueJobRun_def bnd_def\<close>)
qed

lemma UpdateJob_result:
  "UpdateJob j d w = (x, d', w') \<Longrightarrow> d' = d \<or> (\<exists>now. d' = set_job_rows (j_org j) (j_id j) (update_job_row j now) d)"
  unfolding UpdateJob_def
  by (auto simp: bnd_def time_now_def auto_stmt_def ret_def throw_def Let_def split: prod.splits sum.splits fault.splits list.splits if_splits)

lemma set_enabled_acts:
  "fst (snd (setJobEnabledCore orgID i b d w)) = d \<or> acted orgID d (fst (snd (setJobEnabledCore orgID i b d w)))"
proof -
  obtain x d1 w1 where g: "GetJob orgID i d w = (x, d1, w1)" using prod_cases3 by blast
  show ?thesis
  proof (cases x)
    case (Inr j)
    then obtain row where row: "find_job orgID i d = Some row" "scanJob row = Inr j" using GetJob_result [OF g] by auto
    then have o: "j_org j = orgID" "j_id j = i"
      by (auto simp: find_job_def scanJob_def Let_def dest!: find_Some_iff_set split: if_splits)
    obtain y d2 w2 where u: "UpdateJob (j\<lparr>j_enabled := b\<rparr>) d w1 = (y, d2, w2)" using prod_cases3 by blast
    have "d2 = d \<or> (\<exists>now. d2 = set_job_rows orgID i (update_job_row (j\<lparr>j_enabled := b\<rparr>) now) d)"
      using UpdateJob_result [OF u] o by simp
    then have "d2 = d \<or> acted orgID d d2" using row unfolding acted_def by blast
    moreover have "fst (snd (setJobEnabledCore orgID i b d w)) = d2"
      using g u Inr GetJob_result(1) [OF g] by (cases y) (auto simp: setJobEnabledCore_def bnd_def Let_def ret_def)
    ultimately show ?thesis by simp
  qed (use g GetJob_result [OF g] in \<open>simp add: setJobEnabledCore_def bnd_def\<close>)
qed

text \<open>A handler that acts for its caller only, and only when its route is a POST.\<close>

definition acts_for_caller :: "string \<Rightarrow> 'b web_handler \<Rightarrow> bool" where
  "acts_for_caller m h \<longleftrightarrow>
     (\<forall>ctx r d w. fst (snd (h ctx r d w)) = d
        \<or> m = ''POST'' \<and> (\<exists>p. PrincipalFrom ctx = Some p \<and> acted (pc_org p) d (fst (snd (h ctx r d w)))))"

lemma reads_only_acts: "(\<And>ctx r d. keeps (\<lambda>e. e = d) (h ctx r)) \<Longrightarrow> acts_for_caller m h"
  unfolding acts_for_caller_def using unchanged by blast

lemma keeps_answers [tx_rules]:
  "keeps I m \<Longrightarrow> (\<And>a. keeps I (f a)) \<Longrightarrow> keeps I (or_500 m f)"
  "keeps I m \<Longrightarrow> (\<And>a. keeps I (f a)) \<Longrightarrow> keeps I (or_404 m f)"
  "(\<And>i. keeps I (g i)) \<Longrightarrow> keeps I (with_principal ctx g)"
  "(\<And>i. keeps I (g i)) \<Longrightarrow> keeps I (with_id r g)"
  by (auto simp: or_500_def or_404_def with_principal_def with_id_def intro!: tx_rules split: option.split)

lemma keeps_api_reads [tx_rules]:
  "keeps I (GetJob orgID i)" "keeps I (ListJobs orgID)" "keeps I (ListRuns orgID i n)" "keeps I (GetRun orgID i)"
  "keeps I (ListChannels orgID)" "keeps I (ListRules orgID)" "keeps I (ListHeartbeats orgID)" "keeps I (GetHeartbeat orgID i)"
  "keeps I (ListHeartbeatEvents orgID name n)" "keeps I (listHeartbeatPings orgID i n)" "keeps I (ListEvents orgID n)"
  "keeps I (ListSecrets orgID)"
  unfolding GetJob_def ListJobs_def ListRuns_def GetRun_def ListChannels_def ListRules_def ListHeartbeats_def GetHeartbeat_def
    ListHeartbeatEvents_def listHeartbeatPings_def ListEvents_def ListSecrets_def get_accounts_def or_none_def
  by (intro tx_rules)+

lemma reads_act:
  "acts_for_caller m (handleListJobs decode)" "acts_for_caller m (handleGetJob decode)" "acts_for_caller m handleListJobRuns"
  "acts_for_caller m handleGetRun" "acts_for_caller m handleListChannels" "acts_for_caller m handleListRules"
  "acts_for_caller m handleListHeartbeats" "acts_for_caller m handleGetHeartbeat" "acts_for_caller m (handleHeartbeatHistory json_valid)"
  "acts_for_caller m handleHeartbeatPings" "acts_for_caller m handleHeartbeatsNotCreatable" "acts_for_caller m (handleListEvents json_valid)"
  "acts_for_caller m handleListSecrets" "acts_for_caller m (handleLogout secure)"
  by (rule reads_only_acts,
      simp add: handleListJobs_def handleGetJob_def handleListJobRuns_def handleGetRun_def handleListChannels_def handleListRules_def
        handleListHeartbeats_def handleGetHeartbeat_def handleHeartbeatHistory_def handleHeartbeatPings_def
        handleHeartbeatsNotCreatable_def handleListEvents_def handleListSecrets_def handleLogout_def, intro tx_rules)+

lemma or_404_effect: "fst (snd (or_404 m (\<lambda>a. ret (f a)) d w)) = fst (snd (m d w))"
  by (simp add: or_404_def bnd_def attempt_def ret_def split: prod.split sum.split)

lemma acting_handler:
  assumes "\<And>ctx r. h ctx r = with_principal ctx (\<lambda>org. with_id r (\<lambda>i. or_404 (act org i) (\<lambda>a. ret (f a))))"
    and "\<And>org i d w. fst (snd (act org i d w)) = d \<or> acted org d (fst (snd (act org i d w)))"
  shows "acts_for_caller ''POST'' h"
  unfolding acts_for_caller_def
proof (intro allI)
  fix ctx r d w
  show "fst (snd (h ctx r d w)) = d \<or> ''POST'' = ''POST'' \<and> (\<exists>p. PrincipalFrom ctx = Some p \<and> acted (pc_org p) d (fst (snd (h ctx r d w))))"
    using assms(2) [of _ _ d w]
    by (auto simp: assms(1) with_principal_def with_id_def or_404_effect ret_def split: option.splits)
qed

lemma actions_act:
  "acts_for_caller ''POST'' handleRunJobNow" "acts_for_caller ''POST'' (handleEnableJob decode)" "acts_for_caller ''POST'' (handleDisableJob decode)"
  by (rule acting_handler [OF handleRunJobNow_def], rule enqueue_acts)
    (unfold handleEnableJob_def handleDisableJob_def, (rule acting_handler [OF apiSetJobEnabled_def], rule set_enabled_acts)+)

lemma serve_mux_acts:
  assumes "\<forall>(m, p, h) \<in> set routes. acts_for_caller m h"
  shows "fst (snd (serve_mux routes seen ctx r d w)) = d
    \<or> rq_method r = ''POST'' \<and> (\<exists>p. PrincipalFrom ctx = Some p \<and> acted (pc_org p) d (fst (snd (serve_mux routes seen ctx r d w))))"
  using assms
proof (induction routes arbitrary: seen)
  case (Cons x routes)
  obtain m pt h where x: "x = (m, pt, h)" by (cases x) auto
  have h: "fst (snd (h ctx r' d w)) = d \<or> m = ''POST'' \<and> (\<exists>p. PrincipalFrom ctx = Some p \<and> acted (pc_org p) d (fst (snd (h ctx r' d w))))" for r'
    using Cons.prems x by (auto simp: acts_for_caller_def)
  have "allows m (rq_method r) \<Longrightarrow> m = ''POST'' \<Longrightarrow> rq_method r = ''POST''" by (auto simp: allows_def)
  with Cons h show ?case unfolding x by (auto split: option.split)
qed (simp add: ret_def)

section \<open>Credentials\<close>

definition authenticated :: "kit \<Rightarrow> web_request \<Rightarrow> db \<Rightarrow> principal \<Rightarrow> bool" where
  "authenticated K r d p \<longleftrightarrow>
     (\<exists>val sess. wq_cookie r = Some val \<and> kt_decode K val = Some sess
        \<and> list_ex (\<lambda>u. us_org u = ss_org sess \<and> us_id u = ss_user sess) (t_users (t_accounts d))
        \<and> list_ex (\<lambda>m. me_org m = ss_org sess \<and> me_user m = ss_user sess
             \<and> p = \<lparr>pc_org = ss_org sess, pc_user = ss_user sess, pc_role = me_role m\<rparr>) (t_members (t_accounts d))
        \<and> (isUnsafeMethod (rq_method r) \<longrightarrow> validCSRF K r sess))
     \<or> (\<exists>tok. bearerToken (wq_authorization r) = Some tok
        \<and> list_ex (\<lambda>t. at_hash t = kt_hash_token K tok \<and> p = \<lparr>pc_org = at_org t, pc_user = 0, pc_role = ''token''\<rparr>) (t_tokens (t_accounts d)))"

text \<open>A lookup that is asked for its error as a val only reads, and answers with a row or an error.\<close>

definition looks_up :: "(accounts \<Rightarrow> 'a option) \<Rightarrow> (store_error + 'a) tx \<Rightarrow> bool" where
  "looks_up f m \<longleftrightarrow>
     (\<forall>d w. \<exists>y w'. m d w = (Inr y, d, w') \<and> (\<forall>a. y = Inr a \<longrightarrow> f (t_accounts d) = Some a))"

lemma lookups:
  "looks_up (\<lambda>x. List.find (\<lambda>u. us_org u = o1 \<and> us_id u = i) (t_users x)) (attempt (GetUserByID o1 i))"
  "looks_up (\<lambda>x. List.find (\<lambda>m. me_org m = o1 \<and> me_user m = i) (t_members x)) (attempt (GetMembership o1 i))"
  "looks_up (\<lambda>x. map_option (\<lambda>t. (at_org t, at_name t)) (List.find (\<lambda>t. at_hash t = h) (t_tokens x))) (attempt (AuthenticateToken h))"
  "looks_up (\<lambda>x. List.find (\<lambda>u. us_org u = o1 \<and> us_email u = email) (t_users x)) (attempt (GetUserByEmail o1 email))"
  unfolding looks_up_def
  by (auto simp: attempt_def bnd_def get_accounts_def query_def stmt_def or_not_found_def ret_def throw_def
      GetUserByID_def GetMembership_def AuthenticateToken_def GetUserByEmail_def
      split: prod.split fault.split option.split)

lemma looks_upE:
  assumes "looks_up f m"
  obtains y w' where "m d w = (Inr y, d, w')" "\<And>a. y = Inr a \<Longrightarrow> f (t_accounts d) = Some a"
  using assms unfolding looks_up_def by blast

text \<open>A part of authentication: it only reads, and who it lets through has a credential.\<close>

definition admits :: "kit \<Rightarrow> web_request \<Rightarrow> auth_result option tx \<Rightarrow> bool" where
  "admits K r m \<longleftrightarrow>
     (\<forall>d w. \<exists>y w'. m d w = (Inr y, d, w')
        \<and> (\<forall>ar. y = Some ar \<and> \<not> csrf_refused K r ar \<longrightarrow> authenticated K r d (ar_principal ar)))"

lemma resolveCookie_admits: "admits K r (resolveCookie K r)"
  unfolding admits_def
proof (intro allI)
  fix d w
  show "\<exists>y w'. resolveCookie K r d w = (Inr y, d, w')
      \<and> (\<forall>ar. y = Some ar \<and> \<not> csrf_refused K r ar \<longrightarrow> authenticated K r d (ar_principal ar))"
  proof (cases "\<exists>val sess. wq_cookie r = Some val \<and> val \<noteq> [] \<and> kt_decode K val = Some sess")
    case True
    then obtain val sess where c: "wq_cookie r = Some val" "val \<noteq> []" "kt_decode K val = Some sess" by blast
    obtain u w1 where u: "attempt (GetUserByID (ss_org sess) (ss_user sess)) d w = (Inr u, d, w1)"
      "\<And>a. u = Inr a \<Longrightarrow> List.find (\<lambda>u. us_org u = ss_org sess \<and> us_id u = ss_user sess) (t_users (t_accounts d)) = Some a"
      by (rule looks_upE [OF lookups(1) [of "ss_org sess" "ss_user sess"]]) (rule that)
    obtain m w2 where m: "attempt (GetMembership (ss_org sess) (ss_user sess)) d w1 = (Inr m, d, w2)"
      "\<And>a. m = Inr a \<Longrightarrow> List.find (\<lambda>m. me_org m = ss_org sess \<and> me_user m = ss_user sess) (t_members (t_accounts d)) = Some a"
      by (rule looks_upE [OF lookups(2) [of "ss_org sess" "ss_user sess"]]) (rule that)
    show ?thesis
      using c u m
      by (cases u; cases m)
        (auto simp: resolveCookie_def bnd_def ret_def authenticated_def csrf_refused_def list_ex_iff dest!: find_Some_iff_set)
  qed (auto simp: resolveCookie_def ret_def split: option.split)
qed

lemma resolveBearer_admits: "admits K r (resolveBearer K r)"
  unfolding admits_def
proof (intro allI)
  fix d w
  show "\<exists>y w'. resolveBearer K r d w = (Inr y, d, w')
      \<and> (\<forall>ar. y = Some ar \<and> \<not> csrf_refused K r ar \<longrightarrow> authenticated K r d (ar_principal ar))"
  proof (cases "bearerToken (wq_authorization r)")
    case (Some tok)
    obtain t w1 where t: "attempt (AuthenticateToken (kt_hash_token K tok)) d w = (Inr t, d, w1)"
      "\<And>a. t = Inr a \<Longrightarrow> map_option (\<lambda>t. (at_org t, at_name t)) (List.find (\<lambda>t. at_hash t = kt_hash_token K tok) (t_tokens (t_accounts d))) = Some a"
      by (rule looks_upE [OF lookups(3) [of "kt_hash_token K tok"]]) (rule that)
    with Some show ?thesis
      by (cases t) (auto simp: resolveBearer_def bnd_def ret_def authenticated_def list_ex_iff dest!: find_Some_iff_set)
  qed (simp add: resolveBearer_def ret_def)
qed

lemma resolve_admits: "admits K r (resolve K r)"
  unfolding admits_def resolve_def
proof (intro allI)
  fix d w
  obtain y w1 where c: "resolveCookie K r d w = (Inr y, d, w1)"
    "\<And>ar. y = Some ar \<Longrightarrow> \<not> csrf_refused K r ar \<Longrightarrow> authenticated K r d (ar_principal ar)"
    using resolveCookie_admits unfolding admits_def by blast
  show "\<exists>y w'. bnd (resolveCookie K r) (\<lambda>ar. case ar of Some a \<Rightarrow> ret (Some a) | None \<Rightarrow> resolveBearer K r) d w = (Inr y, d, w')
      \<and> (\<forall>ar. y = Some ar \<and> \<not> csrf_refused K r ar \<longrightarrow> authenticated K r d (ar_principal ar))"
    using c resolveBearer_admits [unfolded admits_def] by (cases y) (auto simp: bnd_def ret_def)
qed

lemma authed_acts:
  "fst (snd (authed secure decode json_valid ctx r d w)) = d
   \<or> rq_method r = ''POST'' \<and> (\<exists>p. PrincipalFrom ctx = Some p \<and> acted (pc_org p) d (fst (snd (authed secure decode json_valid ctx r d w))))"
  unfolding authed_def by (rule serve_mux_acts) (simp add: registerAPIRoutes_def reads_act actions_act)

text \<open>
  C15: A request to the API either is refused, with a 401, a redirect to the login or a 403, and
  changes nothing; or it carries a credential in force: a bearer token whose hash is stored, or
  a session cookie of a user who is still a member, with the session's CSRF token when the
  method is unsafe. Then all it can change, by a POST, is to add a pending run of a job of the
  credential's organisation or to switch such a job on or off.
\<close>

theorem api_acts_for_caller:
  "case serve_api K secure decode json_valid r d w of (x, d', w') \<Rightarrow>
     d' = d \<and> (x = Inr (rejectUnauthenticated r) \<or> x = Inr (respond 403 (PlainText ''forbidden: invalid CSRF token'')))
     \<or> (\<exists>p. authenticated K r d p \<and> (d' = d \<or> rq_method r = ''POST'' \<and> acted (pc_org p) d d'))"
proof -
  obtain y w1 where c: "resolve K r d w = (Inr y, d, w1)"
    "\<And>ar. y = Some ar \<Longrightarrow> \<not> csrf_refused K r ar \<Longrightarrow> authenticated K r d (ar_principal ar)"
    using resolve_admits unfolding admits_def by blast
  show ?thesis
  proof (cases "\<exists>a. y = Some a \<and> \<not> csrf_refused K r a")
    case True
    then obtain a where a: "y = Some a" "\<not> csrf_refused K r a" by blast
    have p: "PrincipalFrom (Some a) = Some (ar_principal a)" by (simp add: PrincipalFrom_def)
    obtain x d' w' where h: "authed secure decode json_valid (Some a) r d w1 = (x, d', w')" using prod_cases3 by blast
    have "d' = d \<or> rq_method r = ''POST'' \<and> acted (pc_org (ar_principal a)) d d'"
      using authed_acts [of secure decode json_valid "Some a" r d w1] h p by auto
    moreover have "serve_api K secure decode json_valid r d w = (x, d', w')"
      using c(1) a h by (simp add: serve_api_def requireAuth_def bnd_def)
    ultimately show ?thesis using c(2) [OF a] by auto
  next
    case False
    with c(1) show ?thesis by (cases y) (auto simp: serve_api_def requireAuth_def bnd_def ret_def)
  qed
qed

section \<open>Login\<close>

text \<open>The default organisation, which login makes when it is missing.\<close>

lemma defaultOrg_result:
  assumes "attempt defaultOrgID d w = (x, d', w')"
  shows "\<exists>y. x = Inr y" "t_users (t_accounts d') = t_users (t_accounts d)"
  using assms
  by (auto simp: attempt_def defaultOrgID_def BootstrapDefaultOrg_def bnd_def time_now_def upd_accounts_def auto_stmt_def
      get_accounts_def query_def stmt_def or_db_error_def ret_def throw_def Let_def
      split: prod.splits sum.splits fault.splits list.splits option.splits if_splits)

lemma defaultOrg_row:
  assumes "attempt defaultOrgID d w = (Inr (Inr i), d', w')"
  shows "list_ex (\<lambda>o1. og_id o1 = i \<and> og_name o1 = ''default'') (t_orgs (t_accounts d'))"
  using assms
  by (auto simp: attempt_def defaultOrgID_def BootstrapDefaultOrg_def bnd_def time_now_def upd_accounts_def auto_stmt_def
      get_accounts_def query_def stmt_def or_db_error_def ret_def throw_def Let_def list_ex_iff
      split: prod.splits sum.splits fault.splits list.splits option.splits if_splits dest!: find_Some_iff_set)

text \<open>
  The ways a login ends: accepted, as the user of the default organisation with the email and
  the password sent; refused; or failed.
\<close>

definition accepted :: "kit \<Rightarrow> bool \<Rightarrow> web_request \<Rightarrow> db \<Rightarrow> user_row \<Rightarrow> gotime \<Rightarrow> 'b response \<Rightarrow> bool" where
  "accepted K secure r d u now resp \<longleftrightarrow>
     u \<in> set (t_users (t_accounts d)) \<and> us_email u = trim_space (wq_form r ''email'')
     \<and> list_ex (\<lambda>o1. og_id o1 = us_org u \<and> og_name o1 = ''default'') (t_orgs (t_accounts d))
     \<and> kt_verify_password K (stored_hash u) (wq_form r ''password'')
     \<and> (\<exists>val. kt_encode K (new_session K u now) = Some val
          \<and> resp = (http_redirect ''/'')\<lparr>rp_cookie := Some (sessionCookie secure val (quot (kt_session_ttl K) second))\<rparr>)"

definition login_outcome :: "kit \<Rightarrow> bool \<Rightarrow> web_request \<Rightarrow> db \<Rightarrow> store_error + 'b response \<times> string list \<Rightarrow> bool" where
  "login_outcome K secure r d' x \<longleftrightarrow>
     (\<exists>resp checked. x = Inr (resp, checked)
       \<and> ((\<exists>u now. accepted K secure r d' u now resp \<and> checked = [stored_hash u])
          \<or> resp = renderLogin genericLoginError 401 \<and> length checked = 1
          \<or> resp = renderLogin genericLoginError 400 \<and> checked = []
          \<or> resp = respond 500 (PlainText ''internal error'')))"

lemma login_ends:
  fixes x :: "store_error + 'b response \<times> string list"
  assumes e: "handleLoginSubmit K secure r d w = (x, d', w')"
  shows "login_outcome K secure r d' x"
proof -
  have "case handleLoginSubmit K secure r d w of (x :: store_error + 'b response \<times> string list, d', w') \<Rightarrow> login_outcome K secure r d' x"
  proof (cases "wq_form_error r")
    case False
    obtain o1 d1 w1 where o1: "attempt defaultOrgID d w = (Inr o1, d1, w1)"
      using defaultOrg_result(1) by (metis prod_cases3)
    show ?thesis
    proof (cases o1)
      case (Inl e)
      with o1 False show ?thesis by (auto simp: handleLoginSubmit_def login_outcome_def Let_def bnd_def ret_def)
    next
      case (Inr i)
      obtain u w2 where u: "attempt (GetUserByEmail i (trim_space (wq_form r ''email''))) d1 w1 = (Inr u, d1, w2)"
        "\<And>a. u = Inr a \<Longrightarrow> List.find (\<lambda>u. us_org u = i \<and> us_email u = trim_space (wq_form r ''email'')) (t_users (t_accounts d1)) = Some a"
        by (rule looks_upE [OF lookups(4)]) (rule that)
      show ?thesis
        using o1 Inr u False defaultOrg_row [OF o1 [unfolded Inr]]
        by (cases u)
          (auto simp: handleLoginSubmit_def login_outcome_def Let_def bnd_def ret_def time_now_def accepted_def
            dest!: find_Some_iff_set split: list.split option.split)
    qed
  qed (simp add: handleLoginSubmit_def login_outcome_def ret_def)
  with e show ?thesis by simp
qed


lemma clean_lookup:
  assumes "clean w"
  shows "\<exists>w'. clean w' \<and> attempt (bnd (get_accounts f) or_not_found) d w
    = (Inr (case f (t_accounts d) of None \<Rightarrow> Inl ErrNotFound | Some a \<Rightarrow> Inr a), d, w')"
  using assms
  by (auto simp: clean_def attempt_def bnd_def get_accounts_def query_def stmt_def next_fault_def or_not_found_def ret_def throw_def
      split: option.split)

lemma find_ex: "list_ex P xs \<Longrightarrow> \<exists>x. List.find P xs = Some x"
  by (induction xs) auto


text \<open>An administrator logs in.\<close>

definition admin_session :: session where
  "admin_session = \<lparr>ss_user = 1, ss_org = 1, ss_expiry = 3605\<rparr>"

definition admin_kit :: kit where
  "admin_kit = \<lparr>kt_decode = (\<lambda>v. if v = ''s'' then Some admin_session else None),
     kt_encode = (\<lambda>s. if s = admin_session then Some ''s'' else None), kt_issue_csrf = (\<lambda>_. ''t''), kt_check_csrf = (\<lambda>_ t. t = ''t''),
     kt_hash_token = rev, kt_verify_password = (\<lambda>h pw. h = rev pw), kt_dummy_hash = ''no'', kt_session_ttl = 3600\<rparr>"

definition admin_db :: db where
  "admin_db = empty_db\<lparr>t_accounts := empty_accounts\<lparr>
     t_orgs := [\<lparr>og_id = 1, og_name = ''default'', og_created = 0, og_ping_key = None\<rparr>],
     t_users := [\<lparr>us_id = 1, us_org = 1, us_email = ''a@b'', us_hash = Some ''wp'', us_created = 0\<rparr>],
     t_members := [\<lparr>me_id = 1, me_org = 1, me_user = 1, me_role = ''owner'', me_created = 0\<rparr>]\<rparr>\<rparr>"

definition login_request :: web_request where
  "login_request = (get_request ''/login'')\<lparr>rq_method := ''POST'',
     wq_form := (\<lambda>k. if k = ''email'' then ''a@b'' else if k = ''password'' then ''pw'' else [])\<rparr>"


section \<open>A row that cannot be read\<close>

text \<open>
  C39: When one row of an organisation's jobs cannot be read, the list of jobs is a 500 and shows
  none of the others, although the store returned them beside the error.
\<close>

theorem one_bad_row_hides_jobs:
  assumes "PrincipalFrom ctx = Some p" "list_ex (\<lambda>r. j_org (jr_job r) = pc_org p \<and> jr_unreadable r) (t_jobs d)"
  shows "fst (handleListJobs decode ctx r d w) = Inr (apiError 500 ''internal error'')"
proof -
  let ?rows = "sort_key (\<lambda>r. j_id (jr_job r)) (filter (\<lambda>r. j_org (jr_job r) = pc_org p) (t_jobs d))"
  have "snd (scanJobs ?rows) \<noteq> []"
    using assms(2) by (auto simp: scanJobs_def list_ex_iff filter_empty_conv scanJob_def Let_def split: sum.split)
  then show ?thesis
    by (auto simp: handleListJobs_def with_principal_def assms(1) or_500_def bnd_def attempt_def ListJobs_def query_def stmt_def ret_def
        split: prod.split fault.split)
qed

definition bad_row_db :: db where
  "bad_row_db = empty_db\<lparr>t_jobs := map (\<lambda>(i, name, bad).
     \<lparr>jr_job = \<lparr>j_id = i, j_org = 1, j_name = name, j_type = Shell, j_command = ''true'', j_http_url = [], j_http_method = [],
        j_http_body = [], j_cron = [], j_interval = 60, j_run_at = 0, j_timeout = 0, j_max_retries = 0, j_enabled = True, j_env = [],
        j_spec = None, j_next_run = 0, j_created = 0, j_updated = 0\<rparr>,
      jr_failed_runs = 0, jr_failing_since = None, jr_unreadable = bad\<rparr>) [(1, ''fine'', False), (2, ''bad'', True)], n_jobs := 3\<rparr>"

theorem one_bad_row_hides_jobs_witness:
  "fst (handleListJobs (\<lambda>_. zero_spec) token_context (get_request ''/api/jobs'') bad_row_db (quiet 0)) = Inr (apiError 500 ''internal error'')"
proof -
  have p: "PrincipalFrom token_context = Some \<lparr>pc_org = 1, pc_user = 0, pc_role = ''token''\<rparr>"
    by (simp add: PrincipalFrom_def token_context_def)
  have "list_ex (\<lambda>r. j_org (jr_job r) = 1 \<and> jr_unreadable r) (t_jobs bad_row_db)" by (simp add: bad_row_db_def)
  then show ?thesis using one_bad_row_hides_jobs [OF p] by simp
qed

end
