(* ===== verification/Notify_Chat.thy ===== *)
theory Notify_Chat
  imports Heartbeat_Model Go_Time
begin

text \<open>
  What an alert says (\<^verbatim>\<open>internal/notify/message.go\<close>, \<^verbatim>\<open>chat.go\<close>): the text a webhook posts, its envelope, the
  text a person reads, and how its output is fitted to a channel. What Go's JSON decoder reads
  from a payload that is plain text, how a structured payload is written, the check of an
  envelope and Discord's way to measure a message are arguments.
\<close>

section \<open>Reading an event\<close>

fun status_text :: "run_status \<Rightarrow> string" where
  "status_text StatusPending = ''pending''"
| "status_text StatusRunning = ''running''"
| "status_text StatusSucceeded = ''succeeded''"
| "status_text StatusFailed = ''failed''"
| "status_text StatusTimedOut = ''timed_out''"

record payload_json =
  pj_ids :: json_reader                          \<comment> \<open>run and job id\<close>
  pj_run :: "string \<Rightarrow> string \<times> string \<times> int"   \<comment> \<open>job name, status, exit code\<close>
  pj_object :: "string \<Rightarrow> bool"                  \<comment> \<open>whether it decodes\<close>
  pj_encode :: "payload \<Rightarrow> string"

definition payload_text :: "payload_json \<Rightarrow> event \<Rightarrow> string" where
  "payload_text J ev = (case ev_payload ev of PText s \<Rightarrow> s | p \<Rightarrow> pj_encode J p)"

definition run_fields :: "payload_json \<Rightarrow> event \<Rightarrow> string \<times> string \<times> int" where
  "run_fields J ev =
     (case ev_payload ev of
        PRun _ _ name status exit \<Rightarrow> (name, status_text status, exit)
      | PJob _ name \<Rightarrow> (name, [], 0)
      | PText s \<Rightarrow> pj_run J s)"

definition payload_ids :: "payload_json \<Rightarrow> event \<Rightarrow> (int \<times> int) option" where
  "payload_ids J ev =
     (case ev_payload ev of
        PRun runID jobID _ _ _ \<Rightarrow> Some (runID, jobID)
      | PJob jobID _ \<Rightarrow> Some (0, jobID)
      | PText s \<Rightarrow> if pj_object J s then Some (pj_ids J s) else None)"

text \<open>A detail read as that of a failure, and as a streak: what is not there is zero.\<close>

definition runFailure :: "detail \<Rightarrow> failure_detail" where
  "runFailure d =
     (case d of
        DFailure f \<Rightarrow> f
      | DStreak n t \<Rightarrow> no_failure\<lparr>fd_failed_runs := n, fd_since := t\<rparr>
      | DMiss m \<Rightarrow> no_failure\<lparr>fd_output := md_output m\<rparr>
      | _ \<Rightarrow> no_failure)"

definition runStreak :: "detail \<Rightarrow> int \<times> gotime" where
  "runStreak d = (fd_failed_runs (runFailure d), fd_since (runFailure d))"

section \<open>The text a webhook posts\<close>

definition rfc3339 :: "gotime \<Rightarrow> string" where "rfc3339 = dateText"

definition renderMissed :: "payload_json \<Rightarrow> event \<Rightarrow> string \<times> string" where
  "renderMissed J ev =
     (let name = payload_text J ev
      in case ParseMissDetail (ev_detail ev) of
           None \<Rightarrow> (''Heartbeat missed: '' @ name, name)
         | Some d \<Rightarrow>
             (case md_reason d of
                ReasonFailed \<Rightarrow>
                  let exit = (case md_exit d of None \<Rightarrow> [] | Some n \<Rightarrow> '' (exit '' @ dec n @ '')'');
                      status = (case md_exit d of None \<Rightarrow> [] | Some n \<Rightarrow> '' (exit status '' @ dec n @ '')'');
                      tail = OutputTail (md_output d)
                  in (''Heartbeat failed: '' @ name @ exit,
                      name @ '' reported a failure'' @ status
                        @ (if tail = [] then [] else [newline, newline] @ ''Last output:'' @ newline # tail))
              | ReasonOverran \<Rightarrow>
                  (''Heartbeat missed: '' @ name @ '' (run did not finish)'',
                   name @ '' started a run at '' @ rfc3339 (md_started d) @ '' that did not finish within ''
                     @ duration_string (dur_seconds (md_grace d)))
              | ReasonMissed \<Rightarrow> (''Heartbeat missed: '' @ name, name)))"

definition named :: "string \<Rightarrow> string \<Rightarrow> string" where
  "named what name = (if name = [] then what else what @ '': '' @ name)"

definition status_line :: "string \<Rightarrow> string \<Rightarrow> int \<Rightarrow> string" where
  "status_line status missing exit = ''status='' @ (if status = [] then missing else status) @ '' exit_code='' @ dec exit"

definition render :: "payload_json \<Rightarrow> event \<Rightarrow> string \<times> string" where
  "render J ev =
     (let (job, status, exit) = run_fields J ev; text = payload_text J ev
      in case ev_type ev of
           RunFailed \<Rightarrow> (named ''Job failed'' job, status_line status ''failed'' exit)
         | RunRecovered \<Rightarrow>
             (named ''Job recovered'' job, status_line status ''succeeded'' exit @ ''; the previous run had not succeeded'')
         | HeartbeatMissed \<Rightarrow> renderMissed J ev
         | HeartbeatRecovered \<Rightarrow> (''Heartbeat recovered: '' @ text, text)
         | JobRemoved \<Rightarrow> (named ''Job removed'' job, ''the job was deleted; it will not run or alert again'')
         | HeartbeatRemoved \<Rightarrow> (''Heartbeat removed: '' @ text, ''the heartbeat was deleted; it is no longer monitored'')
         | NotificationFailed \<Rightarrow>
             (named ''Alert delivery failed'' text,
              (if text = [] then ''a notification'' else ''a '' @ text @ '' notification'')
                @ '' could not be delivered and was given up after retrying; that alert was not received'')
         | t \<Rightarrow> (event_name t, text))"

section \<open>The envelope\<close>

datatype severity = SeverityCritical | SeverityWarning | SeverityInfo
datatype alert_status = StatusFiring | StatusResolved

datatype envelope_data = DataPayload string | DataHeartbeat string | DataUndelivered string

record subject =
  sb_type :: string
  sb_id :: string
  sb_name :: string

record v1 =
  v1_id :: string
  v1_instance :: string
  v1_kind :: string
  v1_subject :: subject
  v1_severity :: severity
  v1_status :: alert_status
  v1_dedup :: string
  v1_sequence :: int
  v1_occurred :: gotime
  v1_title :: string
  v1_body :: string
  v1_data :: envelope_data

fun envelopeKinds :: "event_type \<Rightarrow> (string \<times> severity \<times> alert_status) option" where
  "envelopeKinds RunFailed = Some (''job'', SeverityCritical, StatusFiring)"
| "envelopeKinds RunRecovered = Some (''job'', SeverityCritical, StatusResolved)"
| "envelopeKinds HeartbeatMissed = Some (''heartbeat'', SeverityCritical, StatusFiring)"
| "envelopeKinds HeartbeatRecovered = Some (''heartbeat'', SeverityCritical, StatusResolved)"
| "envelopeKinds JobRemoved = Some (''job'', SeverityInfo, StatusResolved)"
| "envelopeKinds HeartbeatRemoved = Some (''heartbeat'', SeverityInfo, StatusResolved)"
| "envelopeKinds NotificationFailed = Some (''notifier'', SeverityWarning, StatusFiring)"
| "envelopeKinds _ = None"

definition envelope_subject :: "payload_json \<Rightarrow> event \<Rightarrow> string \<Rightarrow> (subject \<times> envelope_data) option" where
  "envelope_subject J ev what =
     (let text = payload_text J ev
      in if what = ''job'' then
           (case payload_ids J ev of
              None \<Rightarrow> None
            | Some (_, jobID) \<Rightarrow>
                if jobID \<le> 0 then None
                else Some (\<lparr>sb_type = ''job'', sb_id = dec jobID, sb_name = fst (run_fields J ev)\<rparr>, DataPayload text))
         else if what = ''heartbeat'' then Some (\<lparr>sb_type = ''heartbeat'', sb_id = text, sb_name = text\<rparr>, DataHeartbeat text)
         else Some (\<lparr>sb_type = ''notifier'', sb_id = ''notify'', sb_name = ''notify''\<rparr>, DataUndelivered text))"

definition envelope ::
  "payload_json \<Rightarrow> (gotime \<Rightarrow> int) \<Rightarrow> (gotime \<Rightarrow> int) \<Rightarrow> (v1 \<Rightarrow> bool) \<Rightarrow> event \<Rightarrow> string \<Rightarrow> string \<Rightarrow> string \<Rightarrow> v1 option" where
  "envelope J unixNano sequenceAt validate ev title body instance_name =
     (case envelopeKinds (ev_type ev) of
        None \<Rightarrow> None
      | Some (what, severity, status) \<Rightarrow>
          (case envelope_subject J ev what of
             None \<Rightarrow> None
           | Some (subject, data) \<Rightarrow>
               let base = (if ev_dedup ev = [] then event_name (ev_type ev) @ '':'' @ payload_text J ev else ev_dedup ev);
                   env = \<lparr>v1_id = dec (ev_id ev), v1_instance = instance_name, v1_kind = event_name (ev_type ev), v1_subject = subject,
                          v1_severity = severity, v1_status = status,
                          v1_dedup = base @ ''@'' @ dec (unixNano (ev_created ev)),
                          v1_sequence = sequenceAt (ev_created ev), v1_occurred = ev_created ev, v1_title = title, v1_body = body,
                          v1_data = data\<rparr>
               in if validate env then Some env else None))"

section \<open>The text a person reads\<close>

definition chatTime :: "gotime \<Rightarrow> string" where
  "chatTime t =
     (let (y, m, d) = civil_of_day (day_of t); s = second_of_day t
      in pad_int 4 y @ ''-'' @ pad_int 2 m @ ''-'' @ pad_int 2 d @ '' ''
         @ pad_int 2 (s div 3600) @ '':'' @ pad_int 2 (s mod 3600 div 60) @ '' UTC'')"

fun span_of :: "(duration \<times> string) list \<Rightarrow> duration \<Rightarrow> string" where
  "span_of [] d = ''0s''"
| "span_of ((len, name) # units) d =
     (if d < len then span_of units d
      else dec (quot d len) @ name
        @ (case units of
             [] \<Rightarrow> []
           | (len', name') # _ \<Rightarrow>
               let n = quot (d mod len) len' in if n > 0 then '' '' @ dec n @ name' else []))"

definition span :: "duration \<Rightarrow> string" where
  "span d = span_of [(24 * hour, ''d''), (hour, ''h''), (minute, ''m''), (second, ''s'')] d"

record alertOutput =
  ao_verdict :: string
  ao_tail :: string
  ao_truncated :: bool

definition no_output :: alertOutput where
  "no_output = \<lparr>ao_verdict = [], ao_tail = [], ao_truncated = False\<rparr>"

definition blank_line :: string where "blank_line = [newline, newline]"

definition joinParts :: "string list \<Rightarrow> string" where
  "joinParts parts = joined blank_line (filter (\<lambda>p. p \<noteq> []) parts)"

definition link :: "string \<Rightarrow> string \<Rightarrow> string" where
  "link base path = (if base = [] \<or> path = [] then [] else base @ path)"

definition runPage :: "payload_json \<Rightarrow> event \<Rightarrow> string" where
  "runPage J ev =
     (case payload_ids J ev of
        None \<Rightarrow> []
      | Some (runID, _) \<Rightarrow> if runID \<le> 0 then [] else ''/runs/'' @ dec runID)"

definition streakSpan :: "gotime \<Rightarrow> gotime \<Rightarrow> string" where
  "streakSpan since t = (if since = 0 \<or> \<not> since < t then [] else '' ('' @ span (time_sub t since) @ '')'')"

definition chatRunFailed :: "payload_json \<Rightarrow> event \<Rightarrow> string \<times> string \<times> alertOutput" where
  "chatRunFailed J ev =
     (let (job, status, exit) = run_fields J ev; d = runFailure (ev_detail ev);
          reminder = fd_failed_runs d > 1; timed_out = (status = ''timed_out'');
          what = (if reminder then ''Job still failing'' else if timed_out then ''Job timed out'' else ''Job failed'');
          subject = named what job
            @ (if timed_out then (if reminder then '' (timed out)'' else [])
               else if fd_http d > 0 then '' (HTTP '' @ dec (fd_http d) @ '')''
               else if exit > 0 then '' (exit '' @ dec exit @ '')'' else []);
          streak = (if reminder
            then [dec (fd_failed_runs d) @ '' runs in a row have failed''
                    @ (if fd_since d = 0 then [] else '', since '' @ chatTime (fd_since d) @ streakSpan (fd_since d) (ev_created ev)) @ ''.'']
            else []);
          stopped = (if timed_out \<and> fd_timeout d > 0
            then [''It was stopped after its '' @ span (dur_seconds (fd_timeout d)) @ '' timeout.''] else [])
      in (subject, joined '' '' (streak @ stopped),
          \<lparr>ao_verdict = fd_verdict d, ao_tail = fd_output d, ao_truncated = fd_truncated d\<rparr>))"

definition chatRecovered :: "event \<Rightarrow> string" where
  "chatRecovered ev =
     (let (n, since) = runStreak (ev_detail ev)
      in if n \<le> 1 then ''Its previous run had not succeeded.''
         else ''It succeeded after '' @ dec n @ '' failed runs in a row''
           @ (if since = 0 then [] else '', since '' @ chatTime since @ streakSpan since (ev_created ev)) @ ''.'')"

definition expectation :: "miss_detail \<Rightarrow> string" where
  "expectation d =
     (if md_period d > 0
      then ''; one is expected every '' @ span (dur_seconds (md_period d)) @ '', with ''
        @ (if md_grace d > 0 then span (dur_seconds (md_grace d)) @ '' of grace'' else ''no grace'')
      else [])"

definition chatMissed :: "event \<Rightarrow> string \<times> alertOutput" where
  "chatMissed ev =
     (case ParseMissDetail (ev_detail ev) of
        None \<Rightarrow> ([], no_output)
      | Some d \<Rightarrow>
          (case md_reason d of
             ReasonFailed \<Rightarrow> ([], no_output\<lparr>ao_tail := md_output d\<rparr>)
           | ReasonOverran \<Rightarrow>
               (''A run started at '' @ chatTime (md_started d) @ '' and did not finish within '' @ span (dur_seconds (md_grace d)) @ ''.'',
                no_output)
           | ReasonMissed \<Rightarrow>
               ((if md_last_seen d = 0 then ''It has never pinged'' @ expectation d @ ''.''
                 else if md_last_seen d < ev_created ev
                 then ''No ping for '' @ span (time_sub (ev_created ev) (md_last_seen d)) @ '', since '' @ chatTime (md_last_seen d)
                        @ expectation d @ ''.''
                 else ''No ping since '' @ chatTime (md_last_seen d) @ expectation d @ ''.''), no_output)))"

record chatOptions =
  co_base_url :: string
  co_output_lines :: int

definition heartbeat_page :: "event \<Rightarrow> string" where
  "heartbeat_page ev = (let i = IDOf (ev_detail ev) in if i > 0 then ''/heartbeats/'' @ dec i else [])"

definition chatText :: "payload_json \<Rightarrow> event \<Rightarrow> chatOptions \<Rightarrow> string \<times> string \<times> alertOutput" where
  "chatText J ev chat =
     (let (subject, body) = render J ev;
          with_page = (\<lambda>lead page. joinParts [lead, link (co_base_url chat) page])
      in case ev_type ev of
           RunFailed \<Rightarrow> (let (subject, lead, out) = chatRunFailed J ev in (subject, with_page lead (runPage J ev), out))
         | RunRecovered \<Rightarrow> (subject, with_page (chatRecovered ev) (runPage J ev), no_output)
         | HeartbeatMissed \<Rightarrow> (let (lead, out) = chatMissed ev in (subject, with_page lead (heartbeat_page ev), out))
         | HeartbeatRecovered \<Rightarrow> (subject, with_page [] (heartbeat_page ev), no_output)
         | _ \<Rightarrow> (subject, body, no_output))"

section \<open>Fitting the output\<close>

text \<open>\<^verbatim>\<open>utf8.RuneCountInString\<close>: a byte that does not decode counts as one.\<close>

function rune_count :: "string \<Rightarrow> int" where
  "rune_count s = (if s = [] then 0 else 1 + rune_count (drop (max 1 (rune_size s)) s))"
  by pat_completeness auto
termination
  by (relation "measure length") (auto simp: max_def)

declare rune_count.simps [simp del]

definition replacement :: string where "replacement = [CHR 0xEF, CHR 0xBF, CHR 0xBD]"

text \<open>The character at the start of a text as \<^verbatim>\<open>string(r)\<close> writes it.\<close>

definition rune_text :: "string \<Rightarrow> string" where
  "rune_text s = (if rune_size s = 0 then replacement else take (rune_size s) s)"

text \<open>
  \<^verbatim>\<open>utf8.DecodeLastRuneInString\<close>: back from the end to the nearest byte that can start a character,
  at most four bytes, and what is decoded there if it reaches the end; otherwise the last byte
  alone, which does not decode.
\<close>

fun find_start :: "string \<Rightarrow> nat list \<Rightarrow> nat" where
  "find_start s [] = 5"
| "find_start s (k # ks) =
     (if k > length s then k else if rune_start (s ! (length s - k)) then k else find_start s ks)"

definition last_size :: "string \<Rightarrow> nat" where
  "last_size s =
     (if s = [] then 0 else if byte (last s) < 128 then 1
      else let k = min (length s) (find_start s [2, 3, 4])
           in if max 1 (rune_size (drop (length s - k) s)) = k then k else 1)"

definition last_rune :: "string \<Rightarrow> string" where
  "last_rune s = rune_text (drop (length s - last_size s) s)"

definition ellipsis :: string where "ellipsis = [CHR 0xE2, CHR 0x80, CHR 0xA6]"

lemma last_size_bounds: "s \<noteq> [] \<Longrightarrow> 0 < last_size s \<and> last_size s \<le> length s"
  by (cases s) (auto simp: last_size_def Let_def min_def max_def)

text \<open>The end of a text: the loop keeps the bytes before \<open>start\<close> and those it has taken.\<close>

function cut_start_from :: "(string \<Rightarrow> int) \<Rightarrow> int \<Rightarrow> int \<Rightarrow> string \<Rightarrow> string \<Rightarrow> string" where
  "cut_start_from measure_of room used before taken =
     (if before = [] then taken
      else let used' = used + measure_of (last_rune before); k = length before - last_size before
           in if used' > room then taken
              else cut_start_from measure_of room used' (take k before) (drop k before @ taken))"
  by pat_completeness auto
termination
  by (relation "measure (\<lambda>(_, _, _, before, _). length before)") (use last_size_bounds in \<open>auto simp: Let_def\<close>)

declare cut_start_from.simps [simp del]

definition cutStart :: "string \<Rightarrow> int \<Rightarrow> (string \<Rightarrow> int) \<Rightarrow> string" where
  "cutStart s room measure_of = cut_start_from measure_of room 0 s []"

text \<open>The start of a text: None when the loop reaches the end of it.\<close>

function cut_end_from :: "(string \<Rightarrow> int) \<Rightarrow> int \<Rightarrow> int \<Rightarrow> string \<Rightarrow> string \<Rightarrow> string option" where
  "cut_end_from measure_of room used taken rest =
     (if rest = [] then None
      else let used' = used + measure_of (rune_text rest); k = max 1 (rune_size rest)
           in if used' > room then Some taken
              else cut_end_from measure_of room used' (taken @ take k rest) (drop k rest))"
  by pat_completeness auto
termination
  by (relation "measure (\<lambda>(_, _, _, _, rest). length rest)") (auto simp: max_def)

declare cut_end_from.simps [simp del]

definition cutEnd :: "string \<Rightarrow> int \<Rightarrow> (string \<Rightarrow> int) \<Rightarrow> string" where
  "cutEnd s budget measure_of =
     (case cut_end_from measure_of (budget - measure_of ellipsis) 0 [] s of
        Some taken \<Rightarrow> taken @ ellipsis
      | None \<Rightarrow> s)"

definition output_label :: "alertOutput \<Rightarrow> string" where
  "output_label out = (if ao_truncated out then ''Last output before the 1 MiB cut:'' else ''Last output:'')"

definition lines_left :: "string \<Rightarrow> int \<Rightarrow> int" where
  "lines_left verdict lines =
     (if verdict = [] then lines else lines - (int (length (filter (\<lambda>c. c = newline) verdict)) + 1))"

definition output_text :: "alertOutput \<Rightarrow> int \<Rightarrow> string" where
  "output_text out lines =
     (let verdict = HeadLines (ao_verdict out) lines;
          tail = TailLines (ao_tail out) (lines_left verdict lines)
      in joined blank_line
           ((if verdict = [] then [] else [verdict])
            @ (if tail = [] then [] else [output_label out @ newline # tail])))"

definition fit :: "alertOutput \<Rightarrow> int \<Rightarrow> int \<Rightarrow> (string \<Rightarrow> int) \<Rightarrow> string" where
  "fit out lines budget measure_of =
     (let full = output_text out lines
      in if measure_of full \<le> budget then full
         else let verdict = HeadLines (ao_verdict out) lines
              in if verdict \<noteq> [] \<and> measure_of verdict \<ge> budget then cutEnd verdict budget measure_of
                 else let head = (if verdict = [] then [] else verdict @ blank_line) @ output_label out @ newline # ellipsis;
                          room = budget - measure_of head;
                          tail = TailLines (ao_tail out) (lines_left verdict lines)
                      in if room \<le> 0 \<or> tail = [] then verdict else head @ cutStart tail room measure_of)"

section \<open>The message of a channel\<close>

record tend_event =
  te_id :: int
  te_org :: int
  te_type :: string
  te_source :: string
  te_payload :: string
  te_dedup :: string
  te_created :: gotime

definition tendEvent :: "payload_json \<Rightarrow> event \<Rightarrow> tend_event" where
  "tendEvent J ev =
     \<lparr>te_id = ev_id ev, te_org = ev_org ev, te_type = event_name (ev_type ev), te_source = ev_source ev,
      te_payload = payload_text J ev, te_dedup = ev_dedup ev, te_created = ev_created ev\<rparr>"

record tend_webhook =
  tw_subject :: string
  tw_body :: string
  tw_event :: tend_event
  tw_marsad :: "v1 option"

record message =
  m_subject :: string
  m_body :: string
  m_event :: "v1 option"
  m_webhook :: tend_webhook
  m_output :: string

text \<open>What the messages need of the packages they use: the JSON texts, the clock of an envelope, its check, and Discord's room.\<close>

record chat_kit =
  ck_json :: payload_json
  ck_unix_nano :: "gotime \<Rightarrow> int"
  ck_sequence :: "gotime \<Rightarrow> int"
  ck_valid :: "v1 \<Rightarrow> bool"
  ck_discord_room :: "message \<Rightarrow> int"
  ck_discord_length :: "string \<Rightarrow> int"

definition compose :: "chat_kit \<Rightarrow> event \<Rightarrow> string \<Rightarrow> chatOptions \<Rightarrow> message \<times> alertOutput" where
  "compose K ev instance_name chat =
     (let (subject, body) = render (ck_json K) ev;
          env = envelope (ck_json K) (ck_unix_nano K) (ck_sequence K) (ck_valid K) ev subject body instance_name;
          (chatSubject, chatBody, out) = chatText (ck_json K) ev chat
      in (\<lparr>m_subject = chatSubject, m_body = chatBody, m_event = env,
           m_webhook = \<lparr>tw_subject = subject, tw_body = body, tw_event = tendEvent (ck_json K) ev, tw_marsad = env\<rparr>, m_output = []\<rparr>, out))"

definition messageFor :: "chat_kit \<Rightarrow> event \<Rightarrow> string \<Rightarrow> chatOptions \<Rightarrow> message" where
  "messageFor K ev instance_name chat =
     (let (m, out) = compose K ev instance_name chat in m\<lparr>m_output := output_text out (co_output_lines chat)\<rparr>)"

datatype chat_kind = KSlack | KWebhook | KDiscord | KPushover | KOther

definition pushoverMaxMessage :: int where "pushoverMaxMessage = 1024"

definition channelMessage :: "chat_kit \<Rightarrow> chat_kind \<Rightarrow> event \<Rightarrow> string \<Rightarrow> chatOptions \<Rightarrow> message" where
  "channelMessage K kind ev instance_name chat =
     (let (m, out) = compose K ev instance_name chat; lines = co_output_lines chat
      in if kind = KSlack \<or> kind = KWebhook then m\<lparr>m_output := output_text out lines\<rparr>
         else if kind = KDiscord then m\<lparr>m_output := fit out lines (ck_discord_room K m) (ck_discord_length K)\<rparr>
         else if kind = KPushover
         then let room = pushoverMaxMessage - rune_count (m_body m) - (if m_body m = [] then 0 else 2)
              in m\<lparr>m_body := joinParts [m_body m, fit out lines room rune_count]\<rparr>
         else m\<lparr>m_body := joinParts [m_body m, output_text out lines]\<rparr>)"

section \<open>Counting characters\<close>

lemma rune_size_append: "0 < rune_size a \<Longrightarrow> rune_size (a @ b) = rune_size a"
  by (cases a) (auto split: list.splits if_splits)

lemma rune_size_within:
  "rune_size (a @ b) \<le> length a \<Longrightarrow> 0 < rune_size (a @ b) \<Longrightarrow> rune_size a = rune_size (a @ b)"
  by (cases a) (auto split: list.splits if_splits simp: Cons_eq_append_conv)

lemma rune_size_zero: "\<not> rune_start c \<Longrightarrow> rune_size (c # s) = 0"
  using rune_size_start by blast

lemma accept_second_not_start: "accept_second c d \<Longrightarrow> \<not> rune_start d"
  by (auto simp: accept_second_def rune_start_def Let_def split: if_splits)

lemma rune_size_tail: "0 < i \<Longrightarrow> i < rune_size s \<Longrightarrow> \<not> rune_start (s ! i)"
  by (cases s)
     (auto simp: nth_Cons less_Suc_eq numeral_eq_Suc dest: accept_second_not_start continuation_not_start
           split: list.splits if_splits nat.splits)

lemma rune_count_Nil [simp]: "rune_count [] = 0"
  by (simp add: rune_count.simps)

lemma rune_count_step: "s \<noteq> [] \<Longrightarrow> rune_count s = 1 + rune_count (drop (max 1 (rune_size s)) s)"
  by (simp add: rune_count.simps [of s])

lemma rune_count_nonneg: "0 \<le> rune_count s"
proof (induction s rule: rune_count.induct)
  case (1 s)
  then show ?case by (cases "s = []") (simp_all add: rune_count_step)
qed

lemma rune_count_tails:
  "\<lbrakk>j \<le> length b; \<And>i. i < j \<Longrightarrow> \<not> rune_start (b ! i)\<rbrakk> \<Longrightarrow> rune_count b = int j + rune_count (drop j b)"
proof (induction j arbitrary: b)
  case (Suc j)
  then obtain c t where b: "b = c # t" by (cases b) auto
  have "\<not> rune_start c" using Suc.prems(2) [of 0] b by simp
  then have "rune_count b = 1 + rune_count t"
    using rune_count_step [of b] by (simp add: b rune_size_zero del: rune_size.simps)
  moreover have "rune_count t = int j + rune_count (drop j t)"
  proof (rule Suc.IH)
    show "\<not> rune_start (t ! i)" if "i < j" for i using Suc.prems(2) [of "Suc i"] that b by simp
  qed (use Suc.prems(1) b in simp)
  ultimately show ?case by (simp add: b)
qed simp

text \<open>Bytes on either side of a seam can make one character, never more than they were apart.\<close>

lemma rune_count_append: "rune_count (a @ b) \<le> rune_count a + rune_count b"
proof (induction a rule: rune_count.induct)
  case (1 a)
  show ?case
  proof (cases "a = []")
    case False
    let ?k = "rune_size (a @ b)"
    note IH = "1" [OF False]
    consider (same) "rune_size a = ?k" | (joins) "rune_size a = 0" "length a < ?k"
      using rune_size_append [of a b] rune_size_within [of a b] by fastforce
    then show ?thesis
    proof cases
      case same
      have "max 1 ?k \<le> length a"
        using same rune_size_le [of a] False by (cases a) (auto simp del: rune_size.simps)
      then have "rune_count (a @ b) = 1 + rune_count (drop (max 1 ?k) a @ b)"
        using False by (simp add: rune_count_step)
      then show ?thesis using IH same False by (simp add: rune_count_step [of a])
    next
      case joins
      let ?j = "?k - length a"
      have "rune_count b = int ?j + rune_count (drop ?j b)"
      proof (rule rune_count_tails)
        show "?j \<le> length b" using rune_size_le [of "a @ b"] by simp
        fix i assume "i < ?j"
        then show "\<not> rune_start (b ! i)"
          using rune_size_tail [of "length a + i" "a @ b"] False by simp
      qed
      then have "rune_count (a @ b) \<le> 1 + rune_count b"
        using joins False by (simp add: rune_count_step [of "a @ b"] max_def)
      moreover have "1 \<le> rune_count a"
        using False rune_count_nonneg by (simp add: rune_count_step)
      ultimately show ?thesis by simp
    qed
  qed simp
qed

lemma rune_count_byte: "rune_count [c] = 1"
  by (simp add: rune_count_step max_def rune_size_le)

section \<open>The output fits\<close>

lemma last_size_cases:
  assumes "s \<noteq> []"
  obtains (one) "last_size s = 1" | (rune) "max 1 (rune_size (drop (length s - last_size s) s)) = last_size s"
  using assms that unfolding last_size_def Let_def by (smt (verit, best))

lemma last_size_rune:
  assumes "s \<noteq> []"
  shows "last_size s = max 1 (rune_size (drop (length s - last_size s) s))"
  using assms
proof (cases rule: last_size_cases)
  case one
  then show ?thesis using rune_size_le [of "drop (length s - 1) s"] assms by simp
qed simp

locale text_measure =
  fixes measure_of :: "string \<Rightarrow> int"
  assumes measure_empty: "measure_of [] = 0"
    and measure_nonneg: "0 \<le> measure_of s"
    and measure_append: "measure_of (a @ b) \<le> measure_of a + measure_of b"
    and measure_byte: "measure_of [c] \<le> measure_of replacement"
begin

lemma measure_rune: "s \<noteq> [] \<Longrightarrow> measure_of (take (max 1 (rune_size s)) s) \<le> measure_of (rune_text s)"
  by (cases s) (auto simp: rune_text_def max_def measure_byte simp del: rune_size.simps)

lemma measure_last_rune:
  assumes "s \<noteq> []"
  shows "measure_of (drop (length s - last_size s) s) \<le> measure_of (last_rune s)"
proof -
  let ?l = "drop (length s - last_size s) s"
  have "length ?l = last_size s" "?l \<noteq> []" using last_size_bounds [OF assms] by auto
  then show ?thesis
    using measure_rune [of ?l] last_size_rune [OF assms] by (simp add: last_rune_def del: drop_eq_Nil)
qed

lemma cut_start_from_le:
  "\<lbrakk>used \<le> room; measure_of taken \<le> used\<rbrakk> \<Longrightarrow> measure_of (cut_start_from measure_of room used before taken) \<le> room"
proof (induction "length before" arbitrary: used before taken rule: less_induct)
  case less
  show ?case
  proof (cases "before = [] \<or> room < used + measure_of (last_rune before)")
    case True
    then show ?thesis using less.prems by (subst cut_start_from.simps) (auto simp: Let_def)
  next
    case False
    let ?k = "length before - last_size before"
    have "measure_of (drop ?k before @ taken) \<le> used + measure_of (last_rune before)"
      using measure_last_rune [of before] measure_append [of "drop ?k before" taken] less.prems False by linarith
    then have "measure_of (cut_start_from measure_of room (used + measure_of (last_rune before)) (take ?k before) (drop ?k before @ taken)) \<le> room"
      using False last_size_bounds [of before] by (intro less.hyps) auto
    then show ?thesis using False by (subst cut_start_from.simps) (simp add: Let_def)
  qed
qed

lemma cutStart_le: "0 \<le> room \<Longrightarrow> measure_of (cutStart s room measure_of) \<le> room"
  by (simp add: cutStart_def cut_start_from_le measure_empty)

lemma cut_end_from_le:
  "\<lbrakk>used \<le> room; measure_of taken \<le> used\<rbrakk> \<Longrightarrow>
     (case cut_end_from measure_of room used taken rest of
        Some t \<Rightarrow> measure_of t \<le> room | None \<Rightarrow> measure_of (taken @ rest) \<le> room)"
proof (induction "length rest" arbitrary: used taken rest rule: less_induct)
  case less
  show ?case
  proof (cases "rest = [] \<or> room < used + measure_of (rune_text rest)")
    case True
    then show ?thesis using less.prems by (subst cut_end_from.simps) (auto simp: Let_def)
  next
    case False
    let ?k = "max 1 (rune_size rest)" and ?used = "used + measure_of (rune_text rest)"
    have "measure_of (taken @ take ?k rest) \<le> ?used"
      using measure_rune [of rest] measure_append [of taken "take ?k rest"] less.prems False by linarith
    moreover have "(taken @ take ?k rest) @ drop ?k rest = taken @ rest" by simp
    ultimately have "case cut_end_from measure_of room ?used (taken @ take ?k rest) (drop ?k rest) of
        Some t \<Rightarrow> measure_of t \<le> room | None \<Rightarrow> measure_of (taken @ rest) \<le> room"
      using False less.hyps [of "drop ?k rest" ?used "taken @ take ?k rest"]
      by (auto split: option.splits)
    then show ?thesis using False by (subst cut_end_from.simps) (simp add: Let_def)
  qed
qed

lemma cutEnd_le: "measure_of ellipsis \<le> budget \<Longrightarrow> measure_of (cutEnd s budget measure_of) \<le> budget"
  using cut_end_from_le [of 0 "budget - measure_of ellipsis" "[]" s] measure_empty measure_nonneg [of ellipsis]
    measure_append [of _ ellipsis]
  by (auto simp: cutEnd_def split: option.splits intro: order_trans [OF measure_append])

lemma head_and_tail_le:
  "measure_of head < budget \<Longrightarrow> measure_of (head @ cutStart tail (budget - measure_of head) measure_of) \<le> budget"
  using measure_append [of head "cutStart tail (budget - measure_of head) measure_of"]
    cutStart_le [of "budget - measure_of head" tail]
  by linarith

lemma fit_le:
  assumes "measure_of ellipsis \<le> budget"
  shows "measure_of (fit out lines budget measure_of) \<le> budget"
proof -
  have "0 \<le> budget" using assms measure_nonneg [of ellipsis] by linarith
  then show ?thesis
    using cutEnd_le [OF assms] by (simp add: fit_def Let_def measure_empty not_le head_and_tail_le del: append_assoc append.simps)
qed

end

interpretation characters: text_measure rune_count
proof
  fix a b s :: string and c
  show "rune_count (a @ b) \<le> rune_count a + rune_count b" by (rule rune_count_append)
  show "0 \<le> rune_count s" by (rule rune_count_nonneg)
  show "rune_count [c] \<le> rune_count replacement"
    using rune_count_nonneg by (simp add: rune_count_byte replacement_def rune_count_step)
qed simp

section \<open>What a message carries\<close>

lemma joinParts_pair:
  "joinParts [a, b] = (if a = [] then b else if b = [] then a else a @ blank_line @ b)"
  by (simp add: joinParts_def)

lemma sublist_of_joinParts: "prefix v b \<Longrightarrow> sublist v (joinParts [a, b])"
  unfolding joinParts_pair prefix_def sublist_def by (metis append.assoc append_Nil append_is_Nil_conv)

lemma output_text_verdict:
  "prefix (HeadLines (ao_verdict out) lines) (output_text out lines)"
  by (simp add: output_text_def Let_def)

text \<open>A verdict smaller than the budget is never cut.\<close>

lemma fit_keeps_verdict:
  "measure_of (HeadLines (ao_verdict out) lines) < budget \<Longrightarrow>
     prefix (HeadLines (ao_verdict out) lines) (fit out lines budget measure_of)"
  using output_text_verdict [of out lines] by (simp add: fit_def Let_def)

text \<open>The webhook's text does not depend on the channel or on how the chats are shaped.\<close>

lemma webhook_text_fixed:
  "m_webhook (channelMessage K kind ev i chat) = m_webhook (messageFor K ev i chat')"
  "m_event (channelMessage K kind ev i chat) = m_event (messageFor K ev i chat')"
  by (simp_all add: channelMessage_def messageFor_def compose_def Let_def case_prod_unfold)

lemma rune_count_blank: "rune_count blank_line = 2"
  by (simp add: blank_line_def newline_def rune_count_step max_def invalid_first_def first_size_def)

lemma rune_count_ellipsis: "rune_count ellipsis = 1"
  by (simp add: ellipsis_def rune_count_step max_def invalid_first_def first_size_def accept_second_def continuation_def)

lemma pushover_body:
  assumes "compose K ev i chat = (m, out)"
  shows "m_body (channelMessage K KPushover ev i chat) =
    joinParts [m_body m, fit out (co_output_lines chat)
      (pushoverMaxMessage - rune_count (m_body m) - (if m_body m = [] then 0 else 2)) rune_count]"
  by (simp add: channelMessage_def assms Let_def)


definition plain_kit :: chat_kit where
  "plain_kit =
     \<lparr>ck_json = \<lparr>pj_ids = (\<lambda>_. (0, 0)), pj_run = (\<lambda>_. ([], [], 0)), pj_object = (\<lambda>_. False), pj_encode = (\<lambda>_. ''{}'')\<rparr>,
      ck_unix_nano = id, ck_sequence = id, ck_valid = (\<lambda>_. True), ck_discord_room = (\<lambda>_. 2000), ck_discord_length = (\<lambda>s. int (length s))\<rparr>"

definition probe_failed :: event where
  "probe_failed =
     \<lparr>ev_id = 9, ev_org = 1, ev_type = RunFailed, ev_source = ''jobs.runner'',
      ev_payload = PRun 7 3 ''cert'' StatusFailed 1, ev_dedup = ''run:7:run.failed'', ev_created = 5,
      ev_detail = DFailure (no_failure\<lparr>fd_verdict := ''expired'', fd_output := ''a''\<rparr>)\<rparr>"

definition chat_links :: chatOptions where
  "chat_links = \<lparr>co_base_url = ''https://t'', co_output_lines = 3\<rparr>"


end
